(* ===== verification/Prelude.thy ===== *)
theory Prelude
  imports Main "HOL-Library.Word" "HOL-Library.Monad_Syntax"
begin

text \<open>
  Shared vocabulary of the development.

  Go's \<open>int\<close> and \<open>int64\<close> are 64-bit two's complement words; \<open>+\<close> and \<open>*\<close> on
  them wrap around, \<open>sint\<close> reads the signed value, and signed comparison is
  \<open>word_sle\<close> / \<open>word_sless\<close>.  A Go statement that changes the package state and may
  panic is a function \<open>'s \<Rightarrow> 's option\<close>: \<open>None\<close> is the panic.  \<open>for_each\<close> is the
  \<open>for _, x := range xs\<close> loop over a slice whose body is such a statement.
\<close>

named_theorems frame \<open>fields a statement does not write\<close>

type_synonym int64 = "64 word"

fun for_each :: "('a \<Rightarrow> 's \<Rightarrow> 's option) \<Rightarrow> 'a list \<Rightarrow> 's \<Rightarrow> 's option" where
  "for_each body [] s = Some s"
| "for_each body (x # xs) s = do { s' \<leftarrow> body x s; for_each body xs s' }"

definition when_do :: "bool \<Rightarrow> ('s \<Rightarrow> 's option) \<Rightarrow> 's \<Rightarrow> 's option" where
  "when_do b body s = (if b then body s else Some s)"

definition seq_do :: "('s \<Rightarrow> 's option) \<Rightarrow> ('s \<Rightarrow> 's option) \<Rightarrow> 's \<Rightarrow> 's option" where
  "seq_do p q s = do { s' \<leftarrow> p s; q s' }"

lemma when_do_simps [simp]:
  "when_do True body s = body s"
  "when_do False body s = Some s"
  by (simp_all add: when_do_def)

lemma seq_do_fun: "seq_do p q = (\<lambda>s. Option.bind (p s) q)"
  by (rule ext) (simp add: seq_do_def)

lemma for_each_append:
  "for_each body (xs @ ys) s = do { s' \<leftarrow> for_each body xs s; for_each body ys s' }"
  by (induction xs arbitrary: s) (auto split: Option.bind_splits)

lemma for_each_cong [fundef_cong]:
  assumes "xs = ys" and "s = t" and "\<And>x u. x \<in> set ys \<Longrightarrow> f x u = g x u"
  shows "for_each f xs s = for_each g ys t"
proof -
  have "for_each f ys s = for_each g ys s"
    using assms(3) by (induction ys arbitrary: s) (auto split: Option.bind_splits)
  then show ?thesis using assms(1,2) by simp
qed

text \<open>A loop whose body keeps an invariant and never panics under it.\<close>

lemma for_each_total:
  assumes "P s" and "\<And>x u. x \<in> set xs \<Longrightarrow> P u \<Longrightarrow> \<exists>u'. body x u = Some u' \<and> P u'"
  shows "\<exists>s'. for_each body xs s = Some s' \<and> P s'"
  using assms
proof (induction xs arbitrary: s)
  case Nil
  then show ?case by simp
next
  case (Cons x xs)
  then obtain s1 where "body x s = Some s1" and "P s1"
    by (meson list.set_intros(1))
  with Cons show ?case by simp
qed

text \<open>A loop whose body keeps an invariant wherever it returns.\<close>

lemma for_each_invariant:
  assumes "for_each body xs s = Some s'" and "P s"
    and "\<And>x u u'. x \<in> set xs \<Longrightarrow> P u \<Longrightarrow> body x u = Some u' \<Longrightarrow> P u'"
  shows "P s'"
  using assms
proof (induction xs arbitrary: s)
  case Nil
  then show ?case by simp
next
  case (Cons x xs)
  then obtain s1 where s1: "body x s = Some s1" "for_each body xs s1 = Some s'"
    by (auto split: Option.bind_splits)
  with Cons.prems have "P s1" by auto
  with s1 Cons show ?case by (metis list.set_intros(2))
qed

lemma for_each_concat:
  "for_each body (concat xss) s = for_each (for_each body) xss s"
  by (induction xss arbitrary: s) (auto simp: for_each_append split: Option.bind_splits)

lemma for_each_map:
  "for_each body (map f xs) s = for_each (\<lambda>x. body (f x)) xs s"
  by (induction xs arbitrary: s) (auto split: Option.bind_splits)

lemma for_each_single [simp]: "for_each body [x] s = body x s"
  by (simp split: Option.bind_splits)

lemma for_each_if:
  "for_each body (if b then xs else []) s = when_do b (for_each body xs) s"
  by simp

text \<open>Maps.\<close>

lemma map_le_upd_same: "m k = Some v \<Longrightarrow> [k \<mapsto> v] \<subseteq>\<^sub>m m"
  by (simp add: map_le_def)

lemma map_le_singleton_iff: "[k \<mapsto> v] \<subseteq>\<^sub>m m \<longleftrightarrow> m k = Some v"
  by (auto simp: map_le_def)

lemma finite_dom_upd: "finite (dom m) \<Longrightarrow> finite (dom (m(k := v)))"
  by (cases v) auto

end
