(* ===== verification/Float64.thy ===== *)
theory Float64
  imports Complex_Main "HOL-Library.Log_Nat" Prelude
begin

text \<open>
  Go's \<open>float64\<close>: IEEE 754 binary64 with round to nearest, ties to even, executable on
  rationals.  A finite nonzero value and \<open>+0\<close> are \<open>Fin r\<close>; negative zero is a value of
  its own.  The operations are the ones the exporter uses: \<open>-\<close>, \<open>*\<close>, \<open>/\<close>, \<open>==\<close>,
  \<open><\<close>, \<open><=\<close>, \<open>math.Min\<close>, \<open>math.Max\<close> and the conversion from \<open>int64\<close>.
\<close>

datatype f64 = NaN | PosInf | NegInf | NegZero | Fin rat

section \<open>Rounding a magnitude\<close>

text \<open>The binary exponent of a positive rational: \<open>2 powi binexp r \<le> r < 2 powi (binexp r + 1)\<close>.\<close>

definition binexp :: "rat \<Rightarrow> int" where
  "binexp r = (case quotient_of r of (p, q) \<Rightarrow>
     let d = bitlen p - bitlen q in if 2 powi d \<le> r then d else d - 1)"

text \<open>The gap between neighbours at \<open>r\<close>: 53 significant bits, subnormals below \<open>2 powi (-1022)\<close>.\<close>

definition ulp :: "rat \<Rightarrow> rat" where
  "ulp r = 2 powi (max (binexp r - 52) (-1074))"

definition rne :: "rat \<Rightarrow> int" where
  "rne x = (let f = floor x; d = x - of_int f in
     if d < 1/2 then f else if 1/2 < d then f + 1 else if even f then f else f + 1)"

definition rnd_mag :: "rat \<Rightarrow> rat" where
  "rnd_mag r = (if r \<le> 0 then 0 else of_int (rne (r / ulp r)) * ulp r)"

definition f64_round :: "bool \<Rightarrow> rat \<Rightarrow> f64" where
  "f64_round neg r = (let m = rnd_mag \<bar>r\<bar> in
     if 2 ^ 1024 \<le> m then (if r < 0 then NegInf else PosInf)
     else if m = 0 then (if neg then NegZero else Fin 0)
     else Fin (if r < 0 then - m else m))"

section \<open>Operations\<close>

fun is_neg :: "f64 \<Rightarrow> bool" where
  "is_neg NegInf = True"
| "is_neg NegZero = True"
| "is_neg (Fin r) = (r < 0)"
| "is_neg _ = False"

fun is_finite :: "f64 \<Rightarrow> bool" where
  "is_finite NegZero = True"
| "is_finite (Fin _) = True"
| "is_finite _ = False"

fun is_inf :: "f64 \<Rightarrow> bool" where
  "is_inf PosInf = True"
| "is_inf NegInf = True"
| "is_inf _ = False"

fun fval :: "f64 \<Rightarrow> rat" where
  "fval (Fin r) = r"
| "fval _ = 0"

definition is_zero :: "f64 \<Rightarrow> bool" where
  "is_zero x \<longleftrightarrow> is_finite x \<and> fval x = 0"

definition inf_of :: "bool \<Rightarrow> f64" where
  "inf_of neg = (if neg then NegInf else PosInf)"

definition zero_of :: "bool \<Rightarrow> f64" where
  "zero_of neg = (if neg then NegZero else Fin 0)"

definition f64_eq :: "f64 \<Rightarrow> f64 \<Rightarrow> bool" where
  "f64_eq a b \<longleftrightarrow> a \<noteq> NaN \<and> b \<noteq> NaN \<and>
     (a = b \<or> is_finite a \<and> is_finite b \<and> fval a = fval b)"

instantiation f64 :: ord
begin

definition less_f64 :: "f64 \<Rightarrow> f64 \<Rightarrow> bool" where
  "less_f64 a b \<longleftrightarrow> a \<noteq> NaN \<and> b \<noteq> NaN \<and> a \<noteq> b \<and>
     (a = NegInf \<or> b = PosInf \<or> is_finite a \<and> is_finite b \<and> fval a < fval b)"

definition less_eq_f64 :: "f64 \<Rightarrow> f64 \<Rightarrow> bool" where
  "less_eq_f64 a b \<longleftrightarrow> a < b \<or> f64_eq a b"

instance ..

end

instantiation f64 :: "{minus, times, inverse}"
begin

definition minus_f64 :: "f64 \<Rightarrow> f64 \<Rightarrow> f64" where
  "minus_f64 a b =
     (if a = NaN \<or> b = NaN then NaN
      else if is_inf a then (if a = b then NaN else a)
      else if is_inf b then inf_of (\<not> is_neg b)
      else f64_round (a = NegZero \<and> b = Fin 0) (fval a - fval b))"

definition times_f64 :: "f64 \<Rightarrow> f64 \<Rightarrow> f64" where
  "times_f64 a b =
     (if a = NaN \<or> b = NaN then NaN
      else if is_inf a \<or> is_inf b
        then (if is_zero a \<or> is_zero b then NaN else inf_of (is_neg a \<noteq> is_neg b))
      else f64_round (is_neg a \<noteq> is_neg b) (fval a * fval b))"

definition divide_f64 :: "f64 \<Rightarrow> f64 \<Rightarrow> f64" where
  "divide_f64 a b =
     (if a = NaN \<or> b = NaN then NaN
      else if is_inf a then (if is_inf b then NaN else inf_of (is_neg a \<noteq> is_neg b))
      else if is_inf b then zero_of (is_neg a \<noteq> is_neg b)
      else if is_zero b
        then (if is_zero a then NaN else inf_of (is_neg a \<noteq> is_neg b))
      else f64_round (is_neg a \<noteq> is_neg b) (fval a / fval b))"

definition inverse_f64 :: "f64 \<Rightarrow> f64" where
  "inverse_f64 a = divide (Fin 1) a"

instance ..

end

text \<open>\<open>math.Max\<close> and \<open>math.Min\<close>, in the case order of Go's math package.\<close>

definition math_Max :: "f64 \<Rightarrow> f64 \<Rightarrow> f64" where
  "math_Max x y =
     (if x = PosInf \<or> y = PosInf then PosInf
      else if x = NaN \<or> y = NaN then NaN
      else if is_zero x \<and> is_zero y then (if is_neg x then y else x)
      else if y < x then x else y)"

definition math_Min :: "f64 \<Rightarrow> f64 \<Rightarrow> f64" where
  "math_Min x y =
     (if x = NegInf \<or> y = NegInf then NegInf
      else if x = NaN \<or> y = NaN then NaN
      else if is_zero x \<and> is_zero y then (if is_neg x then x else y)
      else if x < y then x else y)"

definition float_of_int :: "int \<Rightarrow> f64" where
  "float_of_int i = f64_round False (of_int i)"

definition float64 :: "int64 \<Rightarrow> f64" where
  "float64 w = float_of_int (sint w)"

section \<open>Rounding is monotone and exact where 53 bits suffice\<close>

lemma powi_pos [simp]: "(0::rat) < 2 powi e"
  by simp

lemma powi_le: "d \<le> e \<Longrightarrow> (2::rat) powi d \<le> 2 powi e"
  by (rule power_int_increasing) auto

lemma powi_add1: "(2::rat) powi (e + 1) = 2 * 2 powi e"
  by (simp add: power_int_add)

lemma powi_cancel: "(2::rat) powi d < 2 powi e \<Longrightarrow> d < e"
  using powi_le [of e d] by (meson not_le)

lemma bitlen_rat_bounds:
  assumes "0 < p"
  shows "(2::rat) powi (bitlen p - 1) \<le> of_int p" and "of_int p < (2::rat) powi (bitlen p)"
proof -
  have b: "2 ^ nat (bitlen p - 1) \<le> p" "p < 2 ^ nat (bitlen p)"
    using bitlen_bounds assms by auto
  have pos: "0 \<le> bitlen p - 1" "0 \<le> bitlen p"
    using assms bitlen_eq_zero_iff [of p] bitlen_nonneg [of p] by linarith+
  have "(2::rat) powi (bitlen p - 1) = of_int (2 ^ nat (bitlen p - 1))"
    using pos by (simp add: power_int_nonneg_exp)
  then show "(2::rat) powi (bitlen p - 1) \<le> of_int p"
    using b(1) by (simp only: of_int_le_iff)
  have "(2::rat) powi (bitlen p) = of_int (2 ^ nat (bitlen p))"
    using pos by (simp add: power_int_nonneg_exp)
  then show "of_int p < (2::rat) powi (bitlen p)"
    using b(2) by (simp only: of_int_less_iff)
qed

lemma binexp_bounds:
  assumes "0 < r"
  shows "2 powi (binexp r) \<le> r" and "r < 2 powi (binexp r + 1)"
proof -
  obtain p q where pq: "quotient_of r = (p, q)" by (cases "quotient_of r")
  have q: "0 < q" using quotient_of_denom_pos [OF pq] .
  have r: "r = of_int p / of_int q" using quotient_of_div [OF pq] .
  have p: "0 < p" using assms q unfolding r by (simp add: zero_less_divide_iff)
  let ?d = "bitlen p - bitlen q"
  have "2 powi (?d - 1) = 2 powi (bitlen p - 1) / (2 powi (bitlen q) :: rat)"
    by (subst power_int_diff [symmetric]) (auto simp: algebra_simps)
  also have "\<dots> \<le> r" unfolding r
    using bitlen_rat_bounds [OF p] bitlen_rat_bounds [OF q] q p
    by (intro frac_le) (auto simp: less_imp_le)
  finally have lo: "2 powi (?d - 1) \<le> r" .
  have "r < 2 powi (bitlen p) / (2 powi (bitlen q - 1) :: rat)" unfolding r
    using bitlen_rat_bounds [OF p] bitlen_rat_bounds [OF q] q p
    by (intro frac_less) auto
  also have "\<dots> = 2 powi (?d + 1)"
    by (subst power_int_diff [symmetric]) (auto simp: algebra_simps)
  finally have hi: "r < 2 powi (?d + 1)" .
  show "2 powi (binexp r) \<le> r" and "r < 2 powi (binexp r + 1)"
    using lo hi by (auto simp: binexp_def pq Let_def not_le)
qed

lemma binexp_mono: "0 < r \<Longrightarrow> r \<le> s \<Longrightarrow> binexp r \<le> binexp s"
proof -
  assume r: "0 < r" "r \<le> s"
  then have "(2::rat) powi (binexp r) \<le> r" "s < 2 powi (binexp s + 1)"
    using binexp_bounds [of r] binexp_bounds [of s] by auto
  with r have "(2::rat) powi (binexp r) < 2 powi (binexp s + 1)" by linarith
  then show ?thesis by (auto dest: powi_cancel)
qed

lemma rne_near: "\<bar>of_int (rne x) - x\<bar> \<le> 1/2"
proof -
  have "of_int (floor x) \<le> x" "x < of_int (floor x) + 1"
    using floor_correct [of x] by simp_all
  then show ?thesis
    unfolding rne_def Let_def by (simp split: if_splits add: abs_le_iff; linarith)
qed

lemma rne_mono:
  assumes "x \<le> y" shows "rne x \<le> rne y"
proof (cases "floor x = floor y")
  case True
  then show ?thesis using assms by (auto simp: rne_def Let_def)
next
  case False
  then have "floor x + 1 \<le> floor y" using assms floor_mono [OF assms] by linarith
  moreover have "rne x \<le> floor x + 1" "floor y \<le> rne y" by (auto simp: rne_def Let_def)
  ultimately show ?thesis by linarith
qed

lemma rne_of_int [simp]: "rne (of_int i) = i"
  by (simp add: rne_def)

lemma rne_nonneg: "0 \<le> x \<Longrightarrow> 0 \<le> rne x"
  using rne_mono [of 0 x] rne_of_int [of 0] by simp

lemma ulp_pos [simp]: "0 < ulp r"
  by (simp add: ulp_def)

lemma rnd_mag_nonneg [simp]: "0 \<le> rnd_mag r"
  unfolding rnd_mag_def
  by (auto intro!: mult_nonneg_nonneg rne_nonneg divide_nonneg_nonneg simp: less_imp_le not_le)

lemma rnd_mag_zero [simp]: "r \<le> 0 \<Longrightarrow> rnd_mag r = 0"
  by (simp add: rnd_mag_def)

text \<open>A rounded value stays within its binade, ends included.\<close>

lemma rnd_mag_upper:
  assumes "0 < r" shows "rnd_mag r \<le> 2 powi (max (binexp r - 52) (-1074) + 53)"
proof -
  let ?e = "max (binexp r - 52) (-1074)"
  have split: "(2::rat) powi (?e + 53) = 2 ^ 53 * 2 powi ?e"
    by (simp add: power_int_add)
  have "r < 2 powi (binexp r + 1)" using binexp_bounds(2) [OF assms] .
  also have "\<dots> \<le> 2 powi (?e + 53)" by (rule powi_le) simp
  finally have "r / ulp r \<le> of_int (2 ^ 53)"
    unfolding ulp_def split by (simp add: divide_le_eq)
  then have "rne (r / ulp r) \<le> 2 ^ 53"
    using rne_mono rne_of_int by metis
  then have "of_int (rne (r / ulp r)) \<le> (2 ^ 53 :: rat)"
    by (metis of_int_le_iff of_int_numeral of_int_power)
  then show ?thesis
    using assms unfolding rnd_mag_def split ulp_def by (simp add: mult_right_mono)
qed

lemma rnd_mag_lower:
  assumes "0 < r" and "-1074 \<le> binexp r - 52" shows "2 powi (binexp r) \<le> rnd_mag r"
proof -
  have ulp: "ulp r = 2 powi (binexp r - 52)" using assms(2) by (simp add: ulp_def)
  have split: "(2::rat) powi (binexp r) = 2 ^ 52 * ulp r"
    unfolding ulp by (simp add: power_int_diff)
  have "of_int (2 ^ 52) \<le> r / ulp r"
    using binexp_bounds(1) [OF assms(1)] split by (simp add: le_divide_eq)
  then have "2 ^ 52 \<le> rne (r / ulp r)"
    using rne_mono rne_of_int by metis
  then have "(2 ^ 52 :: rat) \<le> of_int (rne (r / ulp r))"
    by (metis of_int_le_iff of_int_numeral of_int_power)
  then show ?thesis
    using assms(1) unfolding rnd_mag_def split by (simp add: mult_right_mono)
qed

lemma rnd_mag_mono: "r \<le> s \<Longrightarrow> rnd_mag r \<le> rnd_mag s"
proof -
  assume le: "r \<le> s"
  show ?thesis
  proof (cases "0 < r")
    case False
    then show ?thesis by simp
  next
    case r: True
    with le have s: "0 < s" by simp
    have exps: "binexp r \<le> binexp s" using binexp_mono [OF r le] .
    let ?e = "\<lambda>x. max (binexp x - 52) (-1074)"
    show ?thesis
    proof (cases "?e r = ?e s")
      case True
      then have ulp: "ulp r = ulp s" by (simp add: ulp_def)
      have "rne (r / ulp r) \<le> rne (s / ulp s)"
        unfolding ulp by (rule rne_mono) (use le in \<open>simp add: divide_right_mono less_imp_le\<close>)
      then show ?thesis
        using r s unfolding rnd_mag_def ulp by (simp add: mult_right_mono less_imp_le)
    next
      case False
      with exps have lt: "?e r < ?e s" and hi: "-1074 \<le> binexp s - 52" by auto
      have "rnd_mag r \<le> 2 powi (?e r + 53)" using rnd_mag_upper [OF r] .
      also have "\<dots> \<le> 2 powi (binexp s)" by (rule powi_le) (use lt hi in auto)
      also have "\<dots> \<le> rnd_mag s" using rnd_mag_lower [OF s hi] .
      finally show ?thesis .
    qed
  qed
qed

text \<open>Values with at most 53 significant bits are exact.\<close>

lemma rnd_mag_exact_lt:
  assumes r: "r = of_int m * 2 powi e" and m: "0 < m" "m < 2 ^ 53" and e: "-1074 \<le> e"
  shows "rnd_mag r = r"
proof -
  let ?k = "max (binexp r - 52) (-1074)"
  have pos: "0 < r" unfolding r using m by simp
  have "(of_int m :: rat) < 2 ^ 53"
    using m by (metis of_int_less_iff of_int_numeral of_int_power)
  then have "r < 2 powi (e + 53)"
    unfolding r by (simp add: power_int_add)
  with binexp_bounds(1) [OF pos] have "binexp r < e + 53"
    by (meson le_less_trans powi_cancel)
  then have k: "?k \<le> e" using e by simp
  have "(2::rat) powi e = 2 powi (e - ?k) * ulp r"
    unfolding ulp_def by (simp flip: power_int_add)
  moreover have "(2::rat) powi (e - ?k) = of_int (2 ^ nat (e - ?k))"
    using k by (simp add: power_int_nonneg_exp)
  ultimately have mult: "r = of_int (m * 2 ^ nat (e - ?k)) * ulp r"
    unfolding r by simp
  then have "r / ulp r = of_int (m * 2 ^ nat (e - ?k))"
    using ulp_pos [of r] by (metis less_irrefl nonzero_mult_div_cancel_right)
  then show ?thesis
    using pos mult unfolding rnd_mag_def by (metis not_le rne_of_int)
qed

lemma rnd_mag_exact:
  assumes r: "r = of_int m * 2 powi e" and m: "0 \<le> m" "m \<le> 2 ^ 53" and e: "-1074 \<le> e"
  shows "rnd_mag r = r"
proof -
  consider "m = 0" | "0 < m" "m < 2 ^ 53" | "m = 2 ^ 53" using m by linarith
  then show ?thesis
  proof cases
    case 1
    then show ?thesis unfolding r by simp
  next
    case 2
    then show ?thesis using rnd_mag_exact_lt r e by blast
  next
    case 3
    then have "r = of_int 1 * 2 powi (e + 53)" unfolding r by (simp add: power_int_add)
    then show ?thesis by (rule rnd_mag_exact_lt) (use e in auto)
  qed
qed

lemma rnd_mag_of_int: "0 \<le> i \<Longrightarrow> i \<le> 2 ^ 53 \<Longrightarrow> rnd_mag (of_int i) = of_int i"
  by (rule rnd_mag_exact [where e = 0]) auto

text \<open>Rounding is idempotent: its results are binary64 magnitudes.\<close>

lemma rnd_mag_idem [simp]: "rnd_mag (rnd_mag r) = rnd_mag r"
proof (cases "0 < r")
  case True
  let ?n = "rne (r / ulp r)" and ?e = "max (binexp r - 52) (-1074)"
  have "rnd_mag r \<le> 2 ^ 53 * ulp r"
    using rnd_mag_upper [OF True] by (simp add: power_int_add ulp_def)
  then have "of_int ?n \<le> (2 ^ 53 :: rat)"
    using True by (simp add: rnd_mag_def)
  then have "?n \<le> 2 ^ 53"
    by (metis of_int_le_iff of_int_numeral of_int_power)
  moreover have "0 \<le> ?n"
    by (rule rne_nonneg) (use True in \<open>simp add: less_imp_le\<close>)
  moreover have "rnd_mag r = of_int ?n * 2 powi ?e"
    using True by (simp add: rnd_mag_def ulp_def)
  ultimately show ?thesis by (intro rnd_mag_exact) auto
qed simp

section \<open>Order and sign of results\<close>

lemma f64_less_iff [simp]:
  "Fin a < Fin b \<longleftrightarrow> a < b"
  "NegZero < Fin b \<longleftrightarrow> 0 < b"
  "Fin a < NegZero \<longleftrightarrow> a < 0"
  "Fin a < PosInf" "\<not> Fin a < NegInf" "\<not> Fin a < NaN"
  "\<not> PosInf < x" "NegInf < Fin b" "\<not> NaN < x" "NegZero < PosInf"
  "\<not> x < NegInf" "\<not> x < NaN" "NegInf < NegZero" "NegInf < PosInf"
  by (auto simp: less_f64_def)

lemma f64_le_iff [simp]:
  "Fin a \<le> Fin b \<longleftrightarrow> a \<le> b"
  "Fin a \<le> NegZero \<longleftrightarrow> a \<le> 0"
  "NegZero \<le> Fin b \<longleftrightarrow> 0 \<le> b"
  "Fin a \<le> PosInf" "\<not> Fin a \<le> NegInf" "\<not> Fin a \<le> NaN" "\<not> PosInf \<le> Fin b"
  "\<not> NaN \<le> x"
  by (auto simp: less_eq_f64_def f64_eq_def less_f64_def)

lemma f64_nonneg_cases:
  assumes "Fin 0 \<le> x"
  obtains "x = PosInf" | "x = NegZero" | r where "x = Fin r" "0 \<le> r"
  using assms by (cases x) auto

lemma f64_pos_cases:
  assumes "Fin 0 < x" and "is_finite x"
  obtains r where "x = Fin r" "0 < r"
  using assms by (cases x) auto

lemma f64_round_nonneg: "0 \<le> r \<Longrightarrow> Fin 0 \<le> f64_round neg r"
  by (simp add: f64_round_def Let_def)

lemma f64_round_nonpos:
  "r \<le> 0 \<Longrightarrow> f64_round neg r \<in> {NegInf, NegZero} \<or> (\<exists>s \<le> 0. f64_round neg r = Fin s)"
  by (auto simp: f64_round_def Let_def)

lemma f64_round_not_nan [simp]: "f64_round neg r \<noteq> NaN"
  by (auto simp: f64_round_def Let_def)

lemma f64_round_below:
  assumes "0 \<le> r" and "r \<le> s" and "rnd_mag s = s" and "s < 2 ^ 1024"
  shows "f64_round False r = Fin (rnd_mag r)" and "rnd_mag r \<le> s"
proof -
  show *: "rnd_mag r \<le> s" using rnd_mag_mono [OF assms(2)] assms(3) by simp
  then show "f64_round False r = Fin (rnd_mag r)"
    using assms by (auto simp: f64_round_def Let_def)
qed

lemma times_nonneg:
  assumes "Fin 0 \<le> a" and "Fin 0 < b" and "is_finite b" shows "Fin 0 \<le> a * b"
proof -
  obtain s where s: "b = Fin s" "0 < s" using assms(2,3) by (rule f64_pos_cases)
  show ?thesis using assms(1)
    by (rule f64_nonneg_cases)
      (use s in \<open>auto simp: times_f64_def is_zero_def inf_of_def intro!: f64_round_nonneg\<close>)
qed

lemma divide_nonneg:
  assumes "Fin 0 \<le> a" and "Fin 0 < b" and "is_finite b" shows "Fin 0 \<le> a / b"
proof -
  obtain s where s: "b = Fin s" "0 < s" using assms(2,3) by (rule f64_pos_cases)
  show ?thesis using assms(1)
    by (rule f64_nonneg_cases)
      (use s in \<open>auto simp: divide_f64_def is_zero_def inf_of_def intro!: f64_round_nonneg\<close>)
qed

lemma math_Min_range:
  assumes "Fin 0 \<le> a" and "0 \<le> c"
  shows "Fin 0 \<le> math_Min a (Fin c) \<and> math_Min a (Fin c) \<le> Fin c"
  using assms(1) by (rule f64_nonneg_cases) (use assms(2) in \<open>auto simp: math_Min_def is_zero_def\<close>)

lemma float_of_int_exact: "\<bar>i\<bar> \<le> 2 ^ 53 \<Longrightarrow> float_of_int i = Fin (of_int i)"
proof -
  assume "\<bar>i\<bar> \<le> 2 ^ 53"
  then have r: "rnd_mag \<bar>of_int i\<bar> = \<bar>of_int i\<bar>"
    using rnd_mag_of_int [of "\<bar>i\<bar>"] by simp
  have "\<bar>of_int i\<bar> \<le> (2 ^ 53 :: rat)"
    using \<open>\<bar>i\<bar> \<le> 2 ^ 53\<close> by (metis of_int_abs of_int_le_iff of_int_numeral of_int_power)
  also have "\<dots> < 2 ^ 1024" by (rule power_strict_increasing) auto
  finally show ?thesis using r by (auto simp: float_of_int_def f64_round_def Let_def)
qed

lemma float_of_int_nonneg: "0 \<le> i \<Longrightarrow> Fin 0 \<le> float_of_int i"
  by (simp add: float_of_int_def f64_round_nonneg)

text \<open>The used share of a capacity, as the node percentage computes it, stays below 100
  wherever 100 times the capacity still fits 53 bits.\<close>

lemma used_share_range:
  assumes c: "0 < c" "c \<le> 2 ^ 46" and a: "Fin 0 \<le> a"
  shows "Fin 0 \<le> math_Max (Fin (of_int c) - a) (Fin 0) * Fin 100 / Fin (of_int c)
    \<and> math_Max (Fin (of_int c) - a) (Fin 0) * Fin 100 / Fin (of_int c) \<le> Fin 100"
proof -
  let ?c = "of_int c :: rat"
  have big: "(2::rat) ^ 53 < 2 ^ 1024" by (rule power_strict_increasing) auto
  have c53: "?c \<le> 2 ^ 53" "?c * 100 \<le> 2 ^ 53"
  proof -
    have "c \<le> 2 ^ 53" "c * 100 \<le> 2 ^ 53" using c by auto
    then show "?c \<le> 2 ^ 53" "?c * 100 \<le> 2 ^ 53"
      by (metis of_int_le_iff of_int_numeral of_int_power of_int_mult)+
  qed
  have exact: "rnd_mag ?c = ?c" "rnd_mag (?c * 100) = ?c * 100" "rnd_mag 100 = 100"
    using rnd_mag_of_int [of c] rnd_mag_of_int [of "c * 100"] rnd_mag_of_int [of 100] c by auto
  have d: "\<exists>d. math_Max (Fin ?c - a) (Fin 0) = Fin d \<and> 0 \<le> d \<and> d \<le> ?c"
    using a
  proof (rule f64_nonneg_cases)
    assume "a = PosInf"
    then show ?thesis using c by (auto simp: minus_f64_def inf_of_def math_Max_def is_zero_def)
  next
    assume "a = NegZero"
    then have "Fin ?c - a = Fin ?c"
      using f64_round_below [of ?c ?c] exact c c53 big by (simp add: minus_f64_def)
    then show ?thesis using c by (auto simp: math_Max_def is_zero_def)
  next
    fix r assume r: "a = Fin r" "0 \<le> r"
    then have eq: "Fin ?c - a = f64_round False (?c - r)" by (simp add: minus_f64_def)
    show ?thesis
    proof (cases "r \<le> ?c")
      case True
      then show ?thesis
        using f64_round_below [of "?c - r" ?c] exact c53 big r eq
        by (auto simp: math_Max_def is_zero_def)
    next
      case False
      then show ?thesis
        using f64_round_nonpos [of "?c - r" False] c
        by (auto simp: eq math_Max_def is_zero_def)
    qed
  qed
  then obtain d where d: "math_Max (Fin ?c - a) (Fin 0) = Fin d" "0 \<le> d" "d \<le> ?c" by blast
  have "Fin d * Fin 100 = f64_round False (d * 100)"
    using d by (simp add: times_f64_def)
  then have m: "Fin d * Fin 100 = Fin (rnd_mag (d * 100))" "rnd_mag (d * 100) \<le> ?c * 100"
    using f64_round_below [of "d * 100" "?c * 100"] d exact c53 big by auto
  let ?q = "rnd_mag (d * 100) / ?c"
  have q: "0 \<le> ?q" "?q \<le> 100"
    using m(2) c by (simp_all add: divide_le_eq mult.commute)
  have "Fin (rnd_mag (d * 100)) / Fin ?c = f64_round False ?q"
    using c rnd_mag_nonneg [of "d * 100"]
    by (auto simp: divide_f64_def is_zero_def not_less)
  moreover have "(100::rat) < 2 ^ 1024" using big by (rule order.strict_trans [rotated]) simp
  ultimately show ?thesis
    using f64_round_below [of ?q 100] q exact unfolding d(1) m(1) by simp
qed

text \<open>Computing a rounded value from its exponent.\<close>

lemma binexp_unique:
  assumes "0 < r" and "2 powi e \<le> r" and "r < 2 powi (e + 1)"
  shows "binexp r = e"
proof -
  have "(2::rat) powi e < 2 powi (binexp r + 1)" "(2::rat) powi (binexp r) < 2 powi (e + 1)"
    using binexp_bounds [OF assms(1)] assms(2,3) by (linarith, linarith)
  then show ?thesis by (auto dest!: powi_cancel)
qed

lemma f64_round_normal:
  assumes "0 < r" and "2 powi e \<le> r" and "r < 2 powi (e + 1)" and "- 1022 \<le> e" and "e < 1023"
  shows "f64_round neg r = Fin (of_int (rne (r / 2 powi (e - 52))) * 2 powi (e - 52))"
proof -
  have "max (e - 52) (- 1074) = e - 52" using assms(4) by simp
  then have u: "ulp r = 2 powi (e - 52)" by (simp only: ulp_def binexp_unique [OF assms(1-3)])
  have e1: "rnd_mag (2 powi (e + 1)) = 2 powi (e + 1)" "rnd_mag (2 powi e) = 2 powi e"
    using rnd_mag_exact [where r = "2 powi (e + 1)" and m = 1 and e = "e + 1"]
      rnd_mag_exact [where r = "2 powi e" and m = 1 and e = e] assms(4) by simp_all
  have "rnd_mag r \<le> 2 powi (e + 1)" using rnd_mag_mono [of r "2 powi (e + 1)"] assms(3) e1 by simp
  also have "\<dots> \<le> 2 powi 1023" by (rule powi_le) (use assms(5) in simp)
  also have "\<dots> < (2::rat) ^ 1024" by simp
  finally have hi: "rnd_mag r < 2 ^ 1024" .
  have "0 < (2::rat) powi e" by simp
  then have "0 < rnd_mag r" using rnd_mag_mono [of "2 powi e" r] assms(2) e1 by linarith
  then show ?thesis
    using hi assms(1) by (auto simp: f64_round_def Let_def rnd_mag_def u not_le)
qed
lemma floor_rat_numeral: "floor (numeral a / numeral b :: rat) = numeral a div numeral b"
  by (metis floor_divide_of_int_eq of_int_numeral)

lemmas rne_numeral = rne_def Let_def floor_rat_numeral

end
