(* ===== verification/Libraries.thy ===== *)
theory Libraries
  imports Prelude Float64
begin

text \<open>
  The third-party packages the exporter calls, as parameters of the model.

  \<open>prom_api\<close> is what the code uses of \<open>prometheus/client_golang\<close>: \<open>NewGaugeVec\<close>,
  \<open>vec.With(labels).Set(x)\<close>, \<open>vec.DeletePartialMatch(labels)\<close> and
  \<open>prometheus.MustRegister\<close>; \<open>None\<close> is the panic of \<open>With\<close> and \<open>MustRegister\<close>.
  \<open>set_api\<close> is \<open>deckarep/golang-set\<close>.  The locales state their documented behaviour;
  the reference instances show that the laws can be met and carry the witnesses.
\<close>

section \<open>Prometheus\<close>

type_synonym labels = "string \<rightharpoonup> string"

text \<open>\<open>GaugeOpts\<close> with the variable label names.\<close>

record desc =
  fq_name :: string
  metric_help :: string
  variable_labels :: "string list"

record ('v, 'r) prom_api =
  new_gauge_vec :: "desc \<Rightarrow> 'v"
  with_set :: "'v \<Rightarrow> labels \<Rightarrow> f64 \<Rightarrow> 'v option"
  delete_partial_match :: "'v \<Rightarrow> labels \<Rightarrow> 'v"
  must_register :: "'v \<Rightarrow> 'r \<Rightarrow> 'r option"
  desc_of :: "'v \<Rightarrow> desc"
  sample :: "'v \<Rightarrow> labels \<Rightarrow> f64 option"
  registered_names :: "'r \<Rightarrow> string set"

text \<open>Prometheus' rule for a metric name and for the label names of a descriptor.\<close>

definition name_char :: "char \<Rightarrow> bool" where
  "name_char c \<longleftrightarrow> (let n = of_char c :: nat in
     65 \<le> n \<and> n \<le> 90 \<or> 97 \<le> n \<and> n \<le> 122 \<or> 48 \<le> n \<and> n \<le> 57 \<or> n = 95)"

definition valid_name :: "string \<Rightarrow> bool" where
  "valid_name s \<longleftrightarrow> s \<noteq> [] \<and> list_all name_char s \<and> (of_char (hd s) :: nat) > 57"

definition valid_desc :: "desc \<Rightarrow> bool" where
  "valid_desc d \<longleftrightarrow> valid_name (fq_name d) \<and> list_all valid_name (variable_labels d)
     \<and> distinct (variable_labels d)"

locale prometheus =
  fixes P :: "('v, 'r) prom_api"
  assumes desc_new: "desc_of P (new_gauge_vec P d) = d"
    and sample_new: "sample P (new_gauge_vec P d) = Map.empty"
    and with_set_ok: "dom ls = set (variable_labels (desc_of P g)) \<Longrightarrow>
      \<exists>g'. with_set P g ls x = Some g' \<and> desc_of P g' = desc_of P g
        \<and> sample P g' = (sample P g)(ls \<mapsto> x)"
    and with_set_panics: "dom ls \<noteq> set (variable_labels (desc_of P g)) \<Longrightarrow> with_set P g ls x = None"
    and desc_delete: "desc_of P (delete_partial_match P g sel) = desc_of P g"
    and sample_delete: "sample P (delete_partial_match P g sel) ls =
      (if sel \<subseteq>\<^sub>m ls then None else sample P g ls)"
    and register_fresh: "valid_desc (desc_of P g) \<Longrightarrow> fq_name (desc_of P g) \<notin> registered_names P r \<Longrightarrow>
      \<exists>r'. must_register P g r = Some r'
        \<and> registered_names P r' = insert (fq_name (desc_of P g)) (registered_names P r)"

text \<open>
  A package holds its gauge vectors in variables that are nil until \<open>createMetrics\<close>
  runs; a method call on a nil \<open>*GaugeVec\<close> panics.  \<open>'k\<close> enumerates the variables.
\<close>

type_synonym ('k, 'v) gauge_vars = "'k \<Rightarrow> 'v option"

definition set_gauge ::
  "('v, 'r) prom_api \<Rightarrow> 'k \<Rightarrow> labels \<Rightarrow> f64 \<Rightarrow> ('k, 'v) gauge_vars \<Rightarrow> ('k, 'v) gauge_vars option" where
  "set_gauge P k ls x vars = do { g \<leftarrow> vars k; g' \<leftarrow> with_set P g ls x; Some (vars(k := Some g')) }"

definition delete_gauge ::
  "('v, 'r) prom_api \<Rightarrow> labels \<Rightarrow> 'k \<Rightarrow> ('k, 'v) gauge_vars \<Rightarrow> ('k, 'v) gauge_vars option" where
  "delete_gauge P sel k vars = do { g \<leftarrow> vars k; Some (vars(k := Some (delete_partial_match P g sel))) }"

definition create_gauge ::
  "('v, 'r) prom_api \<Rightarrow> 'k \<times> desc \<Rightarrow> ('k, 'v) gauge_vars \<times> 'r \<Rightarrow> (('k, 'v) gauge_vars \<times> 'r) option" where
  "create_gauge P = (\<lambda>(k, d) (vars, r).
     do { let g = new_gauge_vec P d; r' \<leftarrow> must_register P g r; Some (vars(k := Some g), r') })"

text \<open>What a scrape of the exporter reads from a variable.\<close>

definition reading :: "('v, 'r) prom_api \<Rightarrow> ('k, 'v) gauge_vars \<Rightarrow> 'k \<Rightarrow> labels \<Rightarrow> f64 option" where
  "reading P vars k ls = do { g \<leftarrow> vars k; sample P g ls }"

text \<open>The variables are initialised with the given descriptors.\<close>

definition initialised ::
  "('v, 'r) prom_api \<Rightarrow> ('k \<Rightarrow> desc) \<Rightarrow> 'k set \<Rightarrow> ('k, 'v) gauge_vars \<Rightarrow> bool" where
  "initialised P ds K vars \<longleftrightarrow> (\<forall>k \<in> K. \<exists>g. vars k = Some g \<and> desc_of P g = ds k)"

definition fits :: "('k \<Rightarrow> desc) \<Rightarrow> 'k set \<Rightarrow> 'k \<times> labels \<times> f64 \<Rightarrow> bool" where
  "fits ds K = (\<lambda>(k, ls, x). k \<in> K \<and> dom ls = set (variable_labels (ds k)))"

text \<open>A sequence of \<open>Set\<close> calls, and the value it leaves at a series.\<close>

type_synonym 'k writes = "('k \<times> labels \<times> f64) list"

definition write_all ::
  "('v, 'r) prom_api \<Rightarrow> 'k writes \<Rightarrow> ('k, 'v) gauge_vars \<Rightarrow> ('k, 'v) gauge_vars option" where
  "write_all P = for_each (\<lambda>(k, ls, x). set_gauge P k ls x)"

fun last_write :: "'k writes \<Rightarrow> 'k \<Rightarrow> labels \<Rightarrow> f64 option" where
  "last_write [] k ls = None"
| "last_write ((k', ls', x) # ws) k ls =
     (case last_write ws k ls of
        Some y \<Rightarrow> Some y
      | None \<Rightarrow> if k' = k \<and> ls' = ls then Some x else None)"

lemma last_write_append:
  "last_write (xs @ ys) k ls =
     (case last_write ys k ls of Some y \<Rightarrow> Some y | None \<Rightarrow> last_write xs k ls)"
  by (induction xs k ls rule: last_write.induct) (auto split: option.splits)

lemma last_write_None:
  "last_write ws k ls = None \<longleftrightarrow> (\<forall>x. (k, ls, x) \<notin> set ws)"
  by (induction ws k ls rule: last_write.induct) (auto split: option.splits)

lemma last_write_Some: "last_write ws k ls = Some x \<Longrightarrow> (k, ls, x) \<in> set ws"
  by (induction ws k ls rule: last_write.induct) (auto split: option.splits if_splits)

lemma last_write_unique:
  assumes "(k, ls, x) \<in> set ws" and "\<And>y. (k, ls, y) \<in> set ws \<Longrightarrow> y = x"
  shows "last_write ws k ls = Some x"
  using assms last_write_None [of ws k ls] last_write_Some [of ws k ls]
  by (cases "last_write ws k ls") auto

lemma write_all_append:
  "write_all P (xs @ ys) vars = do { vars' \<leftarrow> write_all P xs vars; write_all P ys vars' }"
  by (simp add: write_all_def for_each_append)

lemma write_all_single [simp]: "write_all P [(k, ls, x)] vars = set_gauge P k ls x vars"
  by (simp only: write_all_def for_each_single split_conv)

lemma write_all_Nil [simp]: "write_all P [] vars = Some vars"
  by (simp add: write_all_def)

lemma initialised_subset: "initialised P ds K vars \<Longrightarrow> J \<subseteq> K \<Longrightarrow> initialised P ds J vars"
  by (auto simp: initialised_def)

context prometheus
begin

lemma set_gauge_ok:
  assumes "initialised P ds K vars" and "fits ds K (k, ls, x)"
  shows "\<exists>vars'. set_gauge P k ls x vars = Some vars' \<and> initialised P ds K vars' \<and>
    (\<forall>k' ls'. reading P vars' k' ls' =
      (if k' = k \<and> ls' = ls then Some x else reading P vars k' ls'))"
proof -
  obtain g where g: "vars k = Some g" "desc_of P g = ds k" "k \<in> K"
    using assms by (auto simp: initialised_def fits_def)
  then obtain g' where g': "with_set P g ls x = Some g'" "desc_of P g' = ds k"
      "sample P g' = (sample P g)(ls \<mapsto> x)"
    using with_set_ok [of ls g x] assms(2) by (auto simp: fits_def)
  have "set_gauge P k ls x vars = Some (vars(k := Some g'))"
    using g g' by (simp add: set_gauge_def)
  moreover have "initialised P ds K (vars(k := Some g'))"
    using assms(1) g' by (auto simp: initialised_def)
  ultimately show ?thesis using g g' by (auto simp: reading_def)
qed

text \<open>Every sequence of well-labelled writes runs without a panic, and leaves at each series
  the last value written to it, or what was there before.\<close>

lemma write_all_ok:
  assumes "initialised P ds K vars" and "\<forall>w \<in> set ws. fits ds K w"
  shows "\<exists>vars'. write_all P ws vars = Some vars' \<and> initialised P ds K vars' \<and>
    (\<forall>k ls. reading P vars' k ls =
      (case last_write ws k ls of Some x \<Rightarrow> Some x | None \<Rightarrow> reading P vars k ls))"
  using assms
proof (induction ws arbitrary: vars)
  case Nil
  then show ?case by simp
next
  case (Cons w ws)
  obtain k ls x where w: "w = (k, ls, x)" by (cases w)
  obtain v1 where v1: "set_gauge P k ls x vars = Some v1" "initialised P ds K v1"
      "\<And>k' ls'. reading P v1 k' ls' = (if k' = k \<and> ls' = ls then Some x else reading P vars k' ls')"
    using set_gauge_ok [OF Cons.prems(1), of k ls x] Cons.prems(2) w by auto
  obtain v2 where "write_all P ws v1 = Some v2" "initialised P ds K v2"
      "\<And>k' ls'. reading P v2 k' ls' =
        (case last_write ws k' ls' of Some y \<Rightarrow> Some y | None \<Rightarrow> reading P v1 k' ls')"
    using Cons.IH [OF v1(2)] Cons.prems(2) by auto
  then show ?case using v1 w by (auto simp: write_all_def split: option.splits)
qed

lemma delete_gauge_ok:
  assumes "initialised P ds K vars" and "k \<in> K"
  shows "\<exists>vars'. delete_gauge P sel k vars = Some vars' \<and> initialised P ds K vars' \<and>
    (\<forall>k' ls. reading P vars' k' ls =
      (if k' = k \<and> sel \<subseteq>\<^sub>m ls then None else reading P vars k' ls))"
proof -
  obtain g where g: "vars k = Some g" "desc_of P g = ds k"
    using assms by (auto simp: initialised_def)
  let ?v = "vars(k := Some (delete_partial_match P g sel))"
  have "delete_gauge P sel k vars = Some ?v" using g by (simp add: delete_gauge_def)
  moreover have "initialised P ds K ?v"
    using assms g by (auto simp: initialised_def desc_delete)
  ultimately show ?thesis using g by (auto simp: reading_def sample_delete)
qed

lemma delete_all_ok:
  assumes "initialised P ds K vars" and "set ks \<subseteq> K"
  shows "\<exists>vars'. for_each (delete_gauge P sel) ks vars = Some vars' \<and> initialised P ds K vars' \<and>
    (\<forall>k ls. reading P vars' k ls =
      (if k \<in> set ks \<and> sel \<subseteq>\<^sub>m ls then None else reading P vars k ls))"
  using assms
proof (induction ks arbitrary: vars)
  case Nil
  then show ?case by simp
next
  case (Cons k ks)
  obtain v1 where v1: "delete_gauge P sel k vars = Some v1" "initialised P ds K v1"
      "\<And>k' ls. reading P v1 k' ls = (if k' = k \<and> sel \<subseteq>\<^sub>m ls then None else reading P vars k' ls)"
    using delete_gauge_ok [OF Cons.prems(1), of k sel] Cons.prems(2) by auto
  obtain v2 where "for_each (delete_gauge P sel) ks v1 = Some v2" "initialised P ds K v2"
      "\<And>k' ls. reading P v2 k' ls = (if k' \<in> set ks \<and> sel \<subseteq>\<^sub>m ls then None else reading P v1 k' ls)"
    using Cons.IH [OF v1(2)] Cons.prems(2) by auto
  then show ?case using v1 by auto
qed

text \<open>Creating and registering the vectors of a package.\<close>

lemma create_all_ok:
  assumes "\<forall>(k, d) \<in> set kds. valid_desc d" and "distinct (map (fq_name \<circ> snd) kds)"
    and "\<forall>(k, d) \<in> set kds. fq_name d \<notin> registered_names P r"
    and "distinct (map fst kds)"
  shows "\<exists>vars' r'. for_each (create_gauge P) kds (vars, r) = Some (vars', r') \<and>
    registered_names P r' = registered_names P r \<union> (fq_name \<circ> snd) ` set kds \<and>
    (\<forall>(k, d) \<in> set kds. \<exists>g. vars' k = Some g \<and> desc_of P g = d \<and> sample P g = Map.empty) \<and>
    (\<forall>k. k \<notin> fst ` set kds \<longrightarrow> vars' k = vars k)"
  using assms
proof (induction kds arbitrary: vars r)
  case Nil
  then show ?case by simp
next
  case (Cons kd kds)
  obtain k d where kd: "kd = (k, d)" by (cases kd)
  let ?g = "new_gauge_vec P d"
  obtain r1 where r1: "must_register P ?g r = Some r1"
      "registered_names P r1 = insert (fq_name d) (registered_names P r)"
    using register_fresh [of ?g r] Cons.prems kd by (auto simp: desc_new)
  have fresh: "\<forall>(k, d) \<in> set kds. fq_name d \<notin> registered_names P r1"
    using Cons.prems kd r1 by (force simp: image_iff)
  have valid: "\<forall>(k, d) \<in> set kds. valid_desc d"
    and names: "distinct (map (fq_name \<circ> snd) kds)" and keys: "distinct (map fst kds)"
    using Cons.prems by (auto simp: comp_def)
  obtain v2 r2 where *: "for_each (create_gauge P) kds (vars(k := Some ?g), r1) = Some (v2, r2)"
      "registered_names P r2 = registered_names P r1 \<union> (fq_name \<circ> snd) ` set kds"
      "\<forall>(k, d) \<in> set kds. \<exists>g. v2 k = Some g \<and> desc_of P g = d \<and> sample P g = Map.empty"
      "\<forall>k'. k' \<notin> fst ` set kds \<longrightarrow> v2 k' = (vars(k := Some ?g)) k'"
    using Cons.IH [OF valid names fresh keys, of "vars(k := Some ?g)"] by blast
  have "k \<notin> fst ` set kds" using Cons.prems(4) kd by simp
  with * show ?case
    using kd r1 by (auto simp: create_gauge_def desc_new sample_new)
qed

end

text \<open>A reference instance: a vector is its descriptor and the map of its series.\<close>

record mem_vec =
  mem_desc :: desc
  mem_rows :: "labels \<Rightarrow> f64 option"

definition mem_prom :: "(mem_vec, string list) prom_api" where
  "mem_prom = \<lparr>
     new_gauge_vec = (\<lambda>d. \<lparr>mem_desc = d, mem_rows = Map.empty\<rparr>),
     with_set = (\<lambda>g ls x.
       if dom ls = set (variable_labels (mem_desc g))
       then Some (g\<lparr>mem_rows := (mem_rows g)(ls \<mapsto> x)\<rparr>) else None),
     delete_partial_match = (\<lambda>g sel.
       g\<lparr>mem_rows := (\<lambda>ls. if sel \<subseteq>\<^sub>m ls then None else mem_rows g ls)\<rparr>),
     must_register = (\<lambda>g r.
       if fq_name (mem_desc g) \<in> set r \<or> \<not> valid_desc (mem_desc g) then None
       else Some (fq_name (mem_desc g) # r)),
     desc_of = mem_desc,
     sample = mem_rows,
     registered_names = set\<rparr>"

interpretation mem: prometheus mem_prom
  by unfold_locales (auto simp: mem_prom_def)

section \<open>Sets of node names\<close>

record 's set_api =
  new_set :: 's
  set_add :: "string \<Rightarrow> 's \<Rightarrow> 's"
  set_remove :: "string \<Rightarrow> 's \<Rightarrow> 's"
  to_slice :: "'s \<Rightarrow> string list"

locale name_set =
  fixes S :: "'s set_api"
  assumes slice_new: "set (to_slice S (new_set S)) = {}"
    and slice_add: "set (to_slice S (set_add S x s)) = insert x (set (to_slice S s))"
    and slice_remove: "set (to_slice S (set_remove S x s)) = set (to_slice S s) - {x}"
    and slice_distinct: "distinct (to_slice S s)"

text \<open>A reference instance: a list without duplicates.\<close>

definition list_set :: "string list set_api" where
  "list_set = \<lparr>new_set = [], set_add = List.insert, set_remove = (\<lambda>x. remdups \<circ> List.removeAll x),
     to_slice = remdups\<rparr>"

interpretation list: name_set list_set
  by unfold_locales (auto simp: list_set_def)

end
