(* ===== verification/PodMetrics.thy ===== *)
theory PodMetrics
  imports Libraries
begin

text \<open>
  \<open>pkg/pod/metrics.go\<close>: the 21 gauge vectors of the pod package, their registration
  (\<open>createMetrics\<close>), \<open>SetMetrics\<close>, and the two evictions \<open>evictPodByName\<close> and
  \<open>EvictPodByNode\<close>.  The package variables are the record \<open>pod_state\<close>; the collector's
  configuration, fixed once \<open>NewCollector\<close> returns, is the record \<open>Collector\<close>.  The
  collector's \<open>lookup\<close> is a pointer to a map the watcher changes, so it lives in the state.
\<close>

section \<open>State\<close>

datatype pod_vec =
  podGaugeVec
| containerVolumeUsageVec
| containerPercentageLimitsVec
| containerPercentageVolumeLimitsVec
| containerRootfsUsedBytesVec
| containerRootfsAvailableBytesVec
| containerRootfsCapacityBytesVec
| containerLogsUsedBytesVec
| containerLogsAvailableBytesVec
| containerLogsCapacityBytesVec
| containerRootfsUsagePercentageVec
| containerLogsUsagePercentageVec
| containerRootfsInodesVec
| containerRootfsInodesFreeVec
| containerRootfsInodesUsedVec
| containerLogsInodesVec
| containerLogsInodesFreeVec
| containerLogsInodesUsedVec
| inodesGaugeVec
| inodesFreeGaugeVec
| inodesUsedGaugeVec

definition all_pod_vecs :: "pod_vec list" where
  "all_pod_vecs =
    [podGaugeVec, containerVolumeUsageVec, containerPercentageLimitsVec,
     containerPercentageVolumeLimitsVec, containerRootfsUsedBytesVec,
     containerRootfsAvailableBytesVec, containerRootfsCapacityBytesVec,
     containerLogsUsedBytesVec, containerLogsAvailableBytesVec,
     containerLogsCapacityBytesVec, containerRootfsUsagePercentageVec,
     containerLogsUsagePercentageVec, containerRootfsInodesVec, containerRootfsInodesFreeVec,
     containerRootfsInodesUsedVec, containerLogsInodesVec, containerLogsInodesFreeVec,
     containerLogsInodesUsedVec, inodesGaugeVec, inodesFreeGaugeVec, inodesUsedGaugeVec]"

lemma all_pod_vecs_UNIV: "set all_pod_vecs = UNIV"
proof -
  have "k \<in> set all_pod_vecs" for k
    by (cases k) (simp_all add: all_pod_vecs_def)
  then show ?thesis by blast
qed

instantiation pod_vec :: enum
begin

definition enum_pod_vec :: "pod_vec list" where
  "enum_pod_vec = all_pod_vecs"

definition enum_all_pod_vec :: "(pod_vec \<Rightarrow> bool) \<Rightarrow> bool" where
  "enum_all_pod_vec p = list_all p all_pod_vecs"

definition enum_ex_pod_vec :: "(pod_vec \<Rightarrow> bool) \<Rightarrow> bool" where
  "enum_ex_pod_vec p = list_ex p all_pod_vecs"

instance
  by standard
    (auto simp: enum_pod_vec_def enum_all_pod_vec_def enum_ex_pod_vec_def all_pod_vecs_UNIV
      list_all_iff list_ex_iff, simp add: all_pod_vecs_def)

end

record FsStats =
  fs_AvailableBytes :: int64
  fs_CapacityBytes :: int64
  fs_UsedBytes :: int64
  fs_Inodes :: int64
  fs_InodesFree :: int64
  fs_InodesUsed :: int64

record Volume =
  vol_AvailableBytes :: int64
  vol_CapacityBytes :: int64
  vol_UsedBytes :: int64
  vol_Name :: string

record ContainerStats =
  cs_Name :: string
  cs_Rootfs :: FsStats
  cs_Logs :: FsStats

text \<open>\<open>emptyDirVolumes\<close>, \<open>container\<close> and \<open>pod\<close> of \<open>pkg/pod/k8s.go\<close>; a nil slice is \<open>None\<close>.\<close>

record emptyDirVolume =
  edv_name :: string
  edv_mountPath :: string
  edv_sizeLimit :: f64

record container =
  ct_name :: string
  ct_limit :: f64
  ct_emptyDirVolumes :: "emptyDirVolume list option"

record pod =
  pod_containers :: "container list"

record Collector =
  cr_containerVolumeUsage :: bool
  cr_containerLimitsPercentage :: bool
  cr_containerVolumeLimitsPercentage :: bool
  cr_containerRootfsUsage :: bool
  cr_containerLogsUsage :: bool
  cr_inodes :: bool
  cr_podUsage :: bool
  cr_sampleInterval :: int64
  cr_listPodsWithCache :: bool
  cr_deployAsDaemonSet :: bool
  cr_currentNodeName :: string

record 'v pod_state =
  gauges :: "(pod_vec, 'v) gauge_vars"
  nodeTrackers :: "string \<rightharpoonup> (string \<rightharpoonup> int64)"
  scrapeMissTolerance :: int64
  lookup :: "string \<rightharpoonup> pod"

section \<open>createMetrics\<close>

definition pod_usage_and_limit_descs :: "(pod_vec \<times> desc) list" where
  "pod_usage_and_limit_descs = [
     (podGaugeVec, \<lparr>fq_name = ''ephemeral_storage_pod_usage'',
       metric_help = ''Current ephemeral byte usage of pod'',
       variable_labels = [''pod_name'', ''pod_namespace'', ''node_name'']\<rparr>),
     (containerVolumeUsageVec, \<lparr>fq_name = ''ephemeral_storage_container_volume_usage'',
       metric_help = ''Current ephemeral storage used by a container's volume in a pod'',
       variable_labels = [''pod_name'', ''pod_namespace'', ''node_name'', ''container'', ''volume_name'', ''mount_path'']\<rparr>),
     (containerPercentageLimitsVec, \<lparr>fq_name = ''ephemeral_storage_container_limit_percentage'',
       metric_help = ''Percentage of ephemeral storage used by a container in a pod'',
       variable_labels = [''pod_name'', ''pod_namespace'', ''node_name'', ''container'', ''source'']\<rparr>),
     (containerPercentageVolumeLimitsVec, \<lparr>fq_name = ''ephemeral_storage_container_volume_limit_percentage'',
       metric_help = ''Percentage of ephemeral storage used by a container's volume in a pod'',
       variable_labels = [''pod_name'', ''pod_namespace'', ''node_name'', ''container'', ''volume_name'', ''mount_path'']\<rparr>)]"

definition container_bytes_descs :: "(pod_vec \<times> desc) list" where
  "container_bytes_descs = [
     (containerRootfsUsedBytesVec, \<lparr>fq_name = ''ephemeral_storage_container_rootfs_used_bytes'',
       metric_help = ''Current rootfs bytes used by a container in a pod'',
       variable_labels = [''pod_name'', ''pod_namespace'', ''node_name'', ''container'']\<rparr>),
     (containerRootfsAvailableBytesVec, \<lparr>fq_name = ''ephemeral_storage_container_rootfs_available_bytes'',
       metric_help = ''Current rootfs bytes available to a container in a pod'',
       variable_labels = [''pod_name'', ''pod_namespace'', ''node_name'', ''container'']\<rparr>),
     (containerRootfsCapacityBytesVec, \<lparr>fq_name = ''ephemeral_storage_container_rootfs_capacity_bytes'',
       metric_help = ''Current rootfs bytes capacity for a container in a pod'',
       variable_labels = [''pod_name'', ''pod_namespace'', ''node_name'', ''container'']\<rparr>),
     (containerLogsUsedBytesVec, \<lparr>fq_name = ''ephemeral_storage_container_logs_used_bytes'',
       metric_help = ''Current logs bytes used by a container in a pod'',
       variable_labels = [''pod_name'', ''pod_namespace'', ''node_name'', ''container'']\<rparr>),
     (containerLogsAvailableBytesVec, \<lparr>fq_name = ''ephemeral_storage_container_logs_available_bytes'',
       metric_help = ''Current logs bytes available to a container in a pod'',
       variable_labels = [''pod_name'', ''pod_namespace'', ''node_name'', ''container'']\<rparr>),
     (containerLogsCapacityBytesVec, \<lparr>fq_name = ''ephemeral_storage_container_logs_capacity_bytes'',
       metric_help = ''Current logs bytes capacity for a container in a pod'',
       variable_labels = [''pod_name'', ''pod_namespace'', ''node_name'', ''container'']\<rparr>)]"

definition container_percentage_and_inode_descs :: "(pod_vec \<times> desc) list" where
  "container_percentage_and_inode_descs = [
     (containerRootfsUsagePercentageVec, \<lparr>fq_name = ''ephemeral_storage_container_rootfs_usage_percentage'',
       metric_help = ''Percentage of rootfs capacity used by a container in a pod'',
       variable_labels = [''pod_name'', ''pod_namespace'', ''node_name'', ''container'']\<rparr>),
     (containerLogsUsagePercentageVec, \<lparr>fq_name = ''ephemeral_storage_container_logs_usage_percentage'',
       metric_help = ''Percentage of logs capacity used by a container in a pod'',
       variable_labels = [''pod_name'', ''pod_namespace'', ''node_name'', ''container'']\<rparr>),
     (containerRootfsInodesVec, \<lparr>fq_name = ''ephemeral_storage_container_rootfs_inodes'',
       metric_help = ''Maximum number of inodes in the container rootfs'',
       variable_labels = [''pod_name'', ''pod_namespace'', ''node_name'', ''container'']\<rparr>),
     (containerRootfsInodesFreeVec, \<lparr>fq_name = ''ephemeral_storage_container_rootfs_inodes_free'',
       metric_help = ''Number of free inodes in the container rootfs'',
       variable_labels = [''pod_name'', ''pod_namespace'', ''node_name'', ''container'']\<rparr>),
     (containerRootfsInodesUsedVec, \<lparr>fq_name = ''ephemeral_storage_container_rootfs_inodes_used'',
       metric_help = ''Number of used inodes in the container rootfs'',
       variable_labels = [''pod_name'', ''pod_namespace'', ''node_name'', ''container'']\<rparr>),
     (containerLogsInodesVec, \<lparr>fq_name = ''ephemeral_storage_container_logs_inodes'',
       metric_help = ''Maximum number of inodes in the container logs'',
       variable_labels = [''pod_name'', ''pod_namespace'', ''node_name'', ''container'']\<rparr>),
     (containerLogsInodesFreeVec, \<lparr>fq_name = ''ephemeral_storage_container_logs_inodes_free'',
       metric_help = ''Number of free inodes in the container logs'',
       variable_labels = [''pod_name'', ''pod_namespace'', ''node_name'', ''container'']\<rparr>),
     (containerLogsInodesUsedVec, \<lparr>fq_name = ''ephemeral_storage_container_logs_inodes_used'',
       metric_help = ''Number of used inodes in the container logs'',
       variable_labels = [''pod_name'', ''pod_namespace'', ''node_name'', ''container'']\<rparr>)]"

definition pod_inode_descs :: "(pod_vec \<times> desc) list" where
  "pod_inode_descs = [
     (inodesGaugeVec, \<lparr>fq_name = ''ephemeral_storage_inodes'',
       metric_help = ''Maximum number of inodes in the pod'',
       variable_labels = [''pod_name'', ''pod_namespace'', ''node_name'']\<rparr>),
     (inodesFreeGaugeVec, \<lparr>fq_name = ''ephemeral_storage_inodes_free'',
       metric_help = ''Number of free inodes in the pod'',
       variable_labels = [''pod_name'', ''pod_namespace'', ''node_name'']\<rparr>),
     (inodesUsedGaugeVec, \<lparr>fq_name = ''ephemeral_storage_inodes_used'',
       metric_help = ''Number of used inodes in the pod'',
       variable_labels = [''pod_name'', ''pod_namespace'', ''node_name'']\<rparr>)]"

definition pod_descs :: "(pod_vec \<times> desc) list" where
  "pod_descs = pod_usage_and_limit_descs @ container_bytes_descs
     @ container_percentage_and_inode_descs @ pod_inode_descs"

text \<open>Each vector is made, stored in its variable and registered, in the order of the source.\<close>

definition createMetrics ::
  "('v, 'r) prom_api \<Rightarrow> 'v pod_state \<times> 'r \<Rightarrow> ('v pod_state \<times> 'r) option" where
  "createMetrics P = (\<lambda>(st, r). do {
     (gs, r') \<leftarrow> for_each (create_gauge P) pod_descs (gauges st, r);
     Some (st\<lparr>gauges := gs\<rparr>, r') })"

definition pod_desc :: "pod_vec \<Rightarrow> desc" where
  "pod_desc k = (case map_of pod_descs k of
     Some d \<Rightarrow> d | None \<Rightarrow> \<lparr>fq_name = [], metric_help = [], variable_labels = []\<rparr>)"

text \<open>The variables hold the vectors \<open>createMetrics\<close> made.\<close>

abbreviation pod_initialised :: "('v, 'r) prom_api \<Rightarrow> 'v pod_state \<Rightarrow> bool" where
  "pod_initialised P st \<equiv> initialised P pod_desc UNIV (gauges st)"

section \<open>evictPodByName and EvictPodByNode\<close>

definition evictPodByName_order :: "pod_vec list" where
  "evictPodByName_order =
    [podGaugeVec, inodesGaugeVec, inodesFreeGaugeVec, inodesUsedGaugeVec,
     containerRootfsUsedBytesVec, containerRootfsAvailableBytesVec,
     containerRootfsCapacityBytesVec, containerLogsUsedBytesVec,
     containerLogsAvailableBytesVec, containerLogsCapacityBytesVec,
     containerRootfsUsagePercentageVec, containerLogsUsagePercentageVec,
     containerRootfsInodesVec, containerRootfsInodesFreeVec, containerRootfsInodesUsedVec,
     containerLogsInodesVec, containerLogsInodesFreeVec, containerLogsInodesUsedVec,
     containerVolumeUsageVec, containerPercentageLimitsVec,
     containerPercentageVolumeLimitsVec]"

text \<open>The pod's namespace is only logged, so the pod is passed as its name.\<close>

definition evictPodByName ::
  "('v, 'r) prom_api \<Rightarrow> string \<Rightarrow> 'v pod_state \<Rightarrow> 'v pod_state option" where
  "evictPodByName P p_Name st = do {
     gs \<leftarrow> for_each (delete_gauge P [''pod_name'' \<mapsto> p_Name]) evictPodByName_order (gauges st);
     Some (st\<lparr>gauges := gs\<rparr>) }"

definition EvictPodByNode_order :: "pod_vec list" where
  "EvictPodByNode_order =
    [podGaugeVec, containerVolumeUsageVec, containerPercentageLimitsVec,
     containerPercentageVolumeLimitsVec, containerRootfsUsedBytesVec,
     containerRootfsAvailableBytesVec, containerRootfsCapacityBytesVec,
     containerLogsUsedBytesVec, containerLogsAvailableBytesVec,
     containerLogsCapacityBytesVec, containerRootfsUsagePercentageVec,
     containerLogsUsagePercentageVec, containerRootfsInodesVec, containerRootfsInodesFreeVec,
     containerRootfsInodesUsedVec, containerLogsInodesVec, containerLogsInodesFreeVec,
     containerLogsInodesUsedVec, inodesGaugeVec, inodesFreeGaugeVec, inodesUsedGaugeVec]"

definition EvictPodByNode ::
  "('v, 'r) prom_api \<Rightarrow> labels \<Rightarrow> 'v pod_state \<Rightarrow> 'v pod_state option" where
  "EvictPodByNode P deleteLabel st = do {
     let st1 = (case deleteLabel ''node_name'' of
                  Some nodeName \<Rightarrow> st\<lparr>nodeTrackers := (nodeTrackers st)(nodeName := None)\<rparr>
                | None \<Rightarrow> st);
     gs \<leftarrow> for_each (delete_gauge P deleteLabel) EvictPodByNode_order (gauges st1);
     Some (st1\<lparr>gauges := gs\<rparr>) }"

section \<open>SetMetrics\<close>

text \<open>The constant \<open>1.024\<close> as a \<open>float64\<close>.\<close>

definition bibyte_factor :: f64 where
  "bibyte_factor = f64_round False (1024 / 1000)"

definition volume_labels :: "string \<Rightarrow> string \<Rightarrow> string \<Rightarrow> string \<Rightarrow> string \<Rightarrow> string \<Rightarrow> labels" where
  "volume_labels podNamespace podName nodeName cname vname mountPath =
     [''pod_namespace'' \<mapsto> podNamespace, ''pod_name'' \<mapsto> podName, ''node_name'' \<mapsto> nodeName,
      ''container'' \<mapsto> cname, ''volume_name'' \<mapsto> vname, ''mount_path'' \<mapsto> mountPath]"

definition container_labels :: "string \<Rightarrow> string \<Rightarrow> string \<Rightarrow> string \<Rightarrow> labels" where
  "container_labels podNamespace podName nodeName cname =
     [''pod_namespace'' \<mapsto> podNamespace, ''pod_name'' \<mapsto> podName, ''node_name'' \<mapsto> nodeName,
      ''container'' \<mapsto> cname]"

definition pod_labels :: "string \<Rightarrow> string \<Rightarrow> string \<Rightarrow> labels" where
  "pod_labels podNamespace podName nodeName =
     [''pod_namespace'' \<mapsto> podNamespace, ''pod_name'' \<mapsto> podName, ''node_name'' \<mapsto> nodeName]"

text \<open>The block under \<open>cr.containerVolumeUsage\<close>.\<close>

definition set_volume_usage ::
  "('v, 'r) prom_api \<Rightarrow> string \<Rightarrow> string \<Rightarrow> string \<Rightarrow> Volume list \<Rightarrow> pod option \<Rightarrow>
    (pod_vec, 'v) gauge_vars \<Rightarrow> (pod_vec, 'v) gauge_vars option" where
  "set_volume_usage P podName podNamespace nodeName volumes podResult gs =
     (case podResult of
        None \<Rightarrow> Some gs
      | Some pr \<Rightarrow>
          for_each (\<lambda>c gs.
            case ct_emptyDirVolumes c of
              None \<Rightarrow> Some gs
            | Some edvs \<Rightarrow>
                for_each (\<lambda>edv. for_each (\<lambda>v.
                    when_do (edv_name edv = vol_Name v)
                      (set_gauge P containerVolumeUsageVec
                        (volume_labels podNamespace podName nodeName (ct_name c) (vol_Name v)
                          (edv_mountPath edv))
                        (float64 (vol_UsedBytes v)))) volumes) edvs gs)
            (pod_containers pr) gs)"

definition volume_limit_percentage :: "int64 \<Rightarrow> f64 \<Rightarrow> f64" where
  "volume_limit_percentage usedBytes sizeLimit =
     (let usedBiBytes = float64 usedBytes * bibyte_factor
      in math_Min (usedBiBytes / sizeLimit * Fin 100) (Fin 100))"

text \<open>The block under \<open>cr.containerVolumeLimitsPercentage\<close>.\<close>

definition set_volume_limits ::
  "('v, 'r) prom_api \<Rightarrow> string \<Rightarrow> string \<Rightarrow> string \<Rightarrow> Volume list \<Rightarrow> pod option \<Rightarrow>
    (pod_vec, 'v) gauge_vars \<Rightarrow> (pod_vec, 'v) gauge_vars option" where
  "set_volume_limits P podName podNamespace nodeName volumes podResult gs =
     (case podResult of
        None \<Rightarrow> Some gs
      | Some pr \<Rightarrow>
          for_each (\<lambda>c gs.
            case ct_emptyDirVolumes c of
              None \<Rightarrow> Some gs
            | Some edvs \<Rightarrow>
                for_each (\<lambda>edv.
                    when_do (\<not> f64_eq (edv_sizeLimit edv) (Fin 0))
                      (for_each (\<lambda>v.
                        when_do (edv_name edv = vol_Name v)
                          (set_gauge P containerPercentageVolumeLimitsVec
                            (volume_labels podNamespace podName nodeName (ct_name c) (vol_Name v)
                              (edv_mountPath edv))
                            (volume_limit_percentage (vol_UsedBytes v) (edv_sizeLimit edv))))
                        volumes)) edvs gs)
            (pod_containers pr) gs)"

text \<open>The limit percentage of a container, with the \<open>source\<close> label.\<close>

definition container_limit_percentage ::
  "f64 \<Rightarrow> f64 \<Rightarrow> f64 \<Rightarrow> f64 \<Rightarrow> f64 \<times> string" where
  "container_limit_percentage limit usedBytes availableBytes capacityBytes =
     (if \<not> f64_eq limit (Fin 0) then
        (let usedBiBytes = usedBytes * bibyte_factor
         in (math_Min (usedBiBytes / limit * Fin 100) (Fin 100), ''container''))
      else if Fin 0 < capacityBytes then
        (math_Max (capacityBytes - availableBytes) (Fin 0) * Fin 100 / capacityBytes, ''node'')
      else (NaN, ''node''))"

text \<open>The block under \<open>cr.containerLimitsPercentage\<close>.\<close>

definition set_container_limits ::
  "('v, 'r) prom_api \<Rightarrow> string \<Rightarrow> string \<Rightarrow> string \<Rightarrow> f64 \<Rightarrow> f64 \<Rightarrow> f64 \<Rightarrow> pod option \<Rightarrow>
    (pod_vec, 'v) gauge_vars \<Rightarrow> (pod_vec, 'v) gauge_vars option" where
  "set_container_limits P podName podNamespace nodeName usedBytes availableBytes capacityBytes
     podResult gs =
     (case podResult of
        None \<Rightarrow> Some gs
      | Some pr \<Rightarrow>
          for_each (\<lambda>c.
            (case container_limit_percentage (ct_limit c) usedBytes availableBytes capacityBytes of
               (setValue, source) \<Rightarrow>
                 set_gauge P containerPercentageLimitsVec
                   ((container_labels podNamespace podName nodeName (ct_name c))(''source'' \<mapsto> source))
                   setValue))
            (pod_containers pr) gs)"

definition usage_percentage :: "FsStats \<Rightarrow> f64" where
  "usage_percentage fs = float64 (fs_UsedBytes fs) / float64 (fs_CapacityBytes fs) * Fin 100"

text \<open>The blocks under \<open>cr.containerRootfsUsage\<close> and \<open>cr.containerLogsUsage\<close>.\<close>

definition set_rootfs ::
  "('v, 'r) prom_api \<Rightarrow> bool \<Rightarrow> string \<Rightarrow> string \<Rightarrow> string \<Rightarrow> ContainerStats list \<Rightarrow>
    (pod_vec, 'v) gauge_vars \<Rightarrow> (pod_vec, 'v) gauge_vars option" where
  "set_rootfs P inodes podName podNamespace nodeName containers gs =
     for_each (\<lambda>c gs. do {
       let labels = container_labels podNamespace podName nodeName (cs_Name c);
       let fs = cs_Rootfs c;
       gs \<leftarrow> set_gauge P containerRootfsUsedBytesVec labels (float64 (fs_UsedBytes fs)) gs;
       gs \<leftarrow> set_gauge P containerRootfsAvailableBytesVec labels (float64 (fs_AvailableBytes fs)) gs;
       gs \<leftarrow> set_gauge P containerRootfsCapacityBytesVec labels (float64 (fs_CapacityBytes fs)) gs;
       gs \<leftarrow> when_do (word_sless 0 (fs_CapacityBytes fs))
               (set_gauge P containerRootfsUsagePercentageVec labels (usage_percentage fs)) gs;
       when_do inodes (\<lambda>gs. do {
         gs \<leftarrow> set_gauge P containerRootfsInodesVec labels (float64 (fs_Inodes fs)) gs;
         gs \<leftarrow> set_gauge P containerRootfsInodesFreeVec labels (float64 (fs_InodesFree fs)) gs;
         set_gauge P containerRootfsInodesUsedVec labels (float64 (fs_InodesUsed fs)) gs }) gs })
       containers gs"

definition set_logs ::
  "('v, 'r) prom_api \<Rightarrow> bool \<Rightarrow> string \<Rightarrow> string \<Rightarrow> string \<Rightarrow> ContainerStats list \<Rightarrow>
    (pod_vec, 'v) gauge_vars \<Rightarrow> (pod_vec, 'v) gauge_vars option" where
  "set_logs P inodes podName podNamespace nodeName containers gs =
     for_each (\<lambda>c gs. do {
       let labels = container_labels podNamespace podName nodeName (cs_Name c);
       let fs = cs_Logs c;
       gs \<leftarrow> set_gauge P containerLogsUsedBytesVec labels (float64 (fs_UsedBytes fs)) gs;
       gs \<leftarrow> set_gauge P containerLogsAvailableBytesVec labels (float64 (fs_AvailableBytes fs)) gs;
       gs \<leftarrow> set_gauge P containerLogsCapacityBytesVec labels (float64 (fs_CapacityBytes fs)) gs;
       gs \<leftarrow> when_do (word_sless 0 (fs_CapacityBytes fs))
               (set_gauge P containerLogsUsagePercentageVec labels (usage_percentage fs)) gs;
       when_do inodes (\<lambda>gs. do {
         gs \<leftarrow> set_gauge P containerLogsInodesVec labels (float64 (fs_Inodes fs)) gs;
         gs \<leftarrow> set_gauge P containerLogsInodesFreeVec labels (float64 (fs_InodesFree fs)) gs;
         set_gauge P containerLogsInodesUsedVec labels (float64 (fs_InodesUsed fs)) gs }) gs })
       containers gs"

text \<open>The figures of one pod in a stats summary, as \<open>SetMetrics\<close> receives them.\<close>

record pod_figures =
  fig_usedBytes :: f64
  fig_availableBytes :: f64
  fig_capacityBytes :: f64
  fig_inodes :: f64
  fig_inodesFree :: f64
  fig_inodesUsed :: f64

definition SetMetrics ::
  "('v, 'r) prom_api \<Rightarrow> Collector \<Rightarrow> string \<Rightarrow> string \<Rightarrow> string \<Rightarrow> pod_figures \<Rightarrow> Volume list \<Rightarrow>
    ContainerStats list \<Rightarrow> 'v pod_state \<Rightarrow> 'v pod_state option" where
  "SetMetrics P cr podName podNamespace nodeName f volumes containers st = do {
     let podResult = lookup st podName;
     let labels = pod_labels podNamespace podName nodeName;
     gs \<leftarrow> when_do (cr_containerVolumeUsage cr)
             (set_volume_usage P podName podNamespace nodeName volumes podResult) (gauges st);
     gs \<leftarrow> when_do (cr_containerVolumeLimitsPercentage cr)
             (set_volume_limits P podName podNamespace nodeName volumes podResult) gs;
     gs \<leftarrow> when_do (cr_containerLimitsPercentage cr)
             (set_container_limits P podName podNamespace nodeName (fig_usedBytes f)
               (fig_availableBytes f) (fig_capacityBytes f) podResult) gs;
     gs \<leftarrow> when_do (cr_containerRootfsUsage cr)
             (set_rootfs P (cr_inodes cr) podName podNamespace nodeName containers) gs;
     gs \<leftarrow> when_do (cr_containerLogsUsage cr)
             (set_logs P (cr_inodes cr) podName podNamespace nodeName containers) gs;
     gs \<leftarrow> when_do (cr_podUsage cr) (set_gauge P podGaugeVec labels (fig_usedBytes f)) gs;
     gs \<leftarrow> when_do (cr_inodes cr) (\<lambda>gs. do {
             gs \<leftarrow> set_gauge P inodesGaugeVec labels (fig_inodes f) gs;
             gs \<leftarrow> set_gauge P inodesFreeGaugeVec labels (fig_inodesFree f) gs;
             set_gauge P inodesUsedGaugeVec labels (fig_inodesUsed f) gs }) gs;
     Some (st\<lparr>gauges := gs\<rparr>) }"

end
