(* ===== verification/Eviction.thy ===== *)
theory Eviction
  imports Libraries
begin

text \<open>
  The contract every eviction of the exporter keeps: it does not panic once the vectors
  exist, it removes the series whose labels it is aimed at from every vector of its family,
  and it leaves every other series alone.  \<open>targets x ls\<close> says that evicting \<open>x\<close> removes
  the series \<open>ls\<close>.  The clients (the scrape-driven eviction loop, the watchers) need runs of
  several evictions, whose effect does not depend on their order.
\<close>

locale eviction =
  fixes evict :: "'x \<Rightarrow> 'st \<Rightarrow> 'st option"
    and ready :: "'st \<Rightarrow> bool"
    and read :: "'st \<Rightarrow> 'k \<Rightarrow> labels \<Rightarrow> f64 option"
    and targets :: "'x \<Rightarrow> labels \<Rightarrow> bool"
  assumes evict_ok: "ready s \<Longrightarrow> \<exists>s'. evict x s = Some s' \<and> ready s' \<and>
      (\<forall>k ls. read s' k ls = (if targets x ls then None else read s k ls))"
begin

lemma evict_total: "ready s \<Longrightarrow> evict x s \<noteq> None"
  using evict_ok by fastforce

lemma evict_ready: "ready s \<Longrightarrow> evict x s = Some s' \<Longrightarrow> ready s'"
  using evict_ok [of s x] by auto

lemma evict_read:
  "ready s \<Longrightarrow> evict x s = Some s' \<Longrightarrow> read s' k ls = (if targets x ls then None else read s k ls)"
  using evict_ok [of s x] by auto

lemma evict_all_ok:
  assumes "ready s"
  shows "\<exists>s'. for_each evict xs s = Some s' \<and> ready s' \<and>
    (\<forall>k ls. read s' k ls = (if \<exists>x \<in> set xs. targets x ls then None else read s k ls))"
  using assms
proof (induction xs arbitrary: s)
  case Nil
  then show ?case by simp
next
  case (Cons x xs)
  obtain s1 where s1: "evict x s = Some s1" "ready s1"
      "\<forall>k ls. read s1 k ls = (if targets x ls then None else read s k ls)"
    using evict_ok [OF Cons.prems] by blast
  obtain s2 where "for_each evict xs s1 = Some s2" "ready s2"
      "\<forall>k ls. read s2 k ls = (if \<exists>x \<in> set xs. targets x ls then None else read s1 k ls)"
    using Cons.IH [OF s1(2)] by blast
  with s1 show ?case by auto
qed

text \<open>The order of the evictions does not matter, nor does evicting twice.\<close>

lemma evict_order_irrelevant:
  assumes "ready s" and "set xs = set ys"
    and "for_each evict xs s = Some s1" and "for_each evict ys s = Some s2"
  shows "read s1 = read s2"
  using evict_all_ok [OF assms(1), of xs] evict_all_ok [OF assms(1), of ys] assms(2-4)
  by (auto simp: fun_eq_iff)

lemma evict_twice:
  assumes "ready s" and "evict x s = Some s1" and "evict x s1 = Some s2"
  shows "read s2 = read s1"
  using evict_read [OF assms(1,2)] evict_read [OF evict_ready [OF assms(1,2)] assms(3)]
  by (simp add: fun_eq_iff)

end

end
