(* ===== verification/PodMetricsSpec.thy ===== *)
theory PodMetricsSpec
  imports PodMetrics Eviction
begin

text \<open>
  What \<open>pkg/pod/metrics.go\<close> promises.  The specification of \<open>SetMetrics\<close> is the list of
  series it writes, \<open>pod_writes\<close>; the lemmas show that the nested loops of the code are
  that list of writes, that every write carries exactly the labels its vector was declared
  with (so \<open>With\<close> never panics), and that both evictions reach all 21 vectors.
\<close>

section \<open>Declared labels\<close>

definition pod_level :: "pod_vec set" where
  "pod_level = {podGaugeVec, inodesGaugeVec, inodesFreeGaugeVec, inodesUsedGaugeVec}"

definition volume_level :: "pod_vec set" where
  "volume_level = {containerVolumeUsageVec, containerPercentageVolumeLimitsVec}"

lemma variable_labels_pod_desc:
  "set (variable_labels (pod_desc k)) =
     {''pod_name'', ''pod_namespace'', ''node_name''} \<union>
     (if k \<in> pod_level then {} else {''container''}) \<union>
     (if k \<in> volume_level then {''volume_name'', ''mount_path''} else {}) \<union>
     (if k = containerPercentageLimitsVec then {''source''} else {})"
  by (cases k)
    (simp_all add: pod_desc_def pod_descs_def pod_usage_and_limit_descs_def container_bytes_descs_def
      container_percentage_and_inode_descs_def pod_inode_descs_def pod_level_def volume_level_def insert_commute)

lemma dom_labels [simp]:
  "dom (pod_labels ns p n) = {''pod_name'', ''pod_namespace'', ''node_name''}"
  "dom (container_labels ns p n c) = {''pod_name'', ''pod_namespace'', ''node_name'', ''container''}"
  "dom (volume_labels ns p n c v m) =
     {''pod_name'', ''pod_namespace'', ''node_name'', ''container'', ''volume_name'', ''mount_path''}"
  by (auto simp: pod_labels_def container_labels_def volume_labels_def)

section \<open>The writes of SetMetrics\<close>

definition container_volumes :: "container \<Rightarrow> emptyDirVolume list" where
  "container_volumes c = (case ct_emptyDirVolumes c of None \<Rightarrow> [] | Some edvs \<Rightarrow> edvs)"

definition result_containers :: "pod option \<Rightarrow> container list" where
  "result_containers podResult = (case podResult of None \<Rightarrow> [] | Some pr \<Rightarrow> pod_containers pr)"

definition volume_usage_writes :: "string \<Rightarrow> string \<Rightarrow> string \<Rightarrow> Volume list \<Rightarrow> pod option \<Rightarrow> pod_vec writes" where
  "volume_usage_writes p ns n volumes podResult =
     concat (map (\<lambda>c. concat (map (\<lambda>edv. concat (map (\<lambda>v.
       if edv_name edv = vol_Name v then
         [(containerVolumeUsageVec,
           volume_labels ns p n (ct_name c) (vol_Name v) (edv_mountPath edv),
           float64 (vol_UsedBytes v))] else []) volumes)) (container_volumes c)))
       (result_containers podResult))"

definition volume_limit_writes :: "string \<Rightarrow> string \<Rightarrow> string \<Rightarrow> Volume list \<Rightarrow> pod option \<Rightarrow> pod_vec writes" where
  "volume_limit_writes p ns n volumes podResult =
     concat (map (\<lambda>c. concat (map (\<lambda>edv.
       if \<not> f64_eq (edv_sizeLimit edv) (Fin 0) then concat (map (\<lambda>v.
         if edv_name edv = vol_Name v then
           [(containerPercentageVolumeLimitsVec,
             volume_labels ns p n (ct_name c) (vol_Name v) (edv_mountPath edv),
             volume_limit_percentage (vol_UsedBytes v) (edv_sizeLimit edv))] else []) volumes)
       else []) (container_volumes c))) (result_containers podResult))"

definition container_limit_write :: "string \<Rightarrow> string \<Rightarrow> string \<Rightarrow> pod_figures \<Rightarrow> container \<Rightarrow> pod_vec \<times> labels \<times> f64" where
  "container_limit_write p ns n f c =
     (let r = container_limit_percentage (ct_limit c) (fig_usedBytes f) (fig_availableBytes f) (fig_capacityBytes f)
      in (containerPercentageLimitsVec,
          (container_labels ns p n (ct_name c))(''source'' \<mapsto> snd r), fst r))"

definition fs_writes ::
  "pod_vec \<Rightarrow> pod_vec \<Rightarrow> pod_vec \<Rightarrow> pod_vec \<Rightarrow> pod_vec \<Rightarrow> pod_vec \<Rightarrow> pod_vec \<Rightarrow>
    bool \<Rightarrow> labels \<Rightarrow> FsStats \<Rightarrow> pod_vec writes" where
  "fs_writes used available capacity percentage ino ino_free ino_used with_inodes labels fs =
     [(used, labels, float64 (fs_UsedBytes fs)),
      (available, labels, float64 (fs_AvailableBytes fs)),
      (capacity, labels, float64 (fs_CapacityBytes fs))] @
     (if word_sless 0 (fs_CapacityBytes fs) then [(percentage, labels, usage_percentage fs)] else []) @
     (if with_inodes then
        [(ino, labels, float64 (fs_Inodes fs)), (ino_free, labels, float64 (fs_InodesFree fs)),
         (ino_used, labels, float64 (fs_InodesUsed fs))] else [])"

definition rootfs_writes :: "bool \<Rightarrow> string \<Rightarrow> string \<Rightarrow> string \<Rightarrow> ContainerStats \<Rightarrow> pod_vec writes" where
  "rootfs_writes ino p ns n c =
     fs_writes containerRootfsUsedBytesVec containerRootfsAvailableBytesVec
       containerRootfsCapacityBytesVec containerRootfsUsagePercentageVec containerRootfsInodesVec
       containerRootfsInodesFreeVec containerRootfsInodesUsedVec ino
       (container_labels ns p n (cs_Name c)) (cs_Rootfs c)"

definition logs_writes :: "bool \<Rightarrow> string \<Rightarrow> string \<Rightarrow> string \<Rightarrow> ContainerStats \<Rightarrow> pod_vec writes" where
  "logs_writes ino p ns n c =
     fs_writes containerLogsUsedBytesVec containerLogsAvailableBytesVec
       containerLogsCapacityBytesVec containerLogsUsagePercentageVec containerLogsInodesVec
       containerLogsInodesFreeVec containerLogsInodesUsedVec ino
       (container_labels ns p n (cs_Name c)) (cs_Logs c)"

definition pod_writes ::
  "Collector \<Rightarrow> pod option \<Rightarrow> string \<Rightarrow> string \<Rightarrow> string \<Rightarrow> pod_figures \<Rightarrow> Volume list \<Rightarrow>
    ContainerStats list \<Rightarrow> pod_vec writes" where
  "pod_writes cr podResult p ns n f volumes containers =
     (if cr_containerVolumeUsage cr then volume_usage_writes p ns n volumes podResult else []) @
     (if cr_containerVolumeLimitsPercentage cr then volume_limit_writes p ns n volumes podResult else []) @
     (if cr_containerLimitsPercentage cr
      then map (container_limit_write p ns n f) (result_containers podResult) else []) @
     (if cr_containerRootfsUsage cr
      then concat (map (rootfs_writes (cr_inodes cr) p ns n) containers) else []) @
     (if cr_containerLogsUsage cr
      then concat (map (logs_writes (cr_inodes cr) p ns n) containers) else []) @
     (if cr_podUsage cr then [(podGaugeVec, pod_labels ns p n, fig_usedBytes f)] else []) @
     (if cr_inodes cr then
        [(inodesGaugeVec, pod_labels ns p n, fig_inodes f),
         (inodesFreeGaugeVec, pod_labels ns p n, fig_inodesFree f),
         (inodesUsedGaugeVec, pod_labels ns p n, fig_inodesUsed f)] else [])"

section \<open>The code's loops are these writes\<close>

lemma write_all_Cons:
  "write_all P ((k, ls, x) # ws) = seq_do (set_gauge P k ls x) (write_all P ws)"
  by (rule ext) (simp add: write_all_def seq_do_def)

lemma write_all_append_seq: "write_all P (xs @ ys) = seq_do (write_all P xs) (write_all P ys)"
  by (rule ext) (simp add: write_all_append seq_do_def)

lemma write_all_one: "write_all P [(k, ls, x)] = set_gauge P k ls x"
  by (rule ext) simp

lemma write_all_Nil_fun: "write_all P [] = Some"
  by (rule ext) simp

lemma write_all_concat_map:
  "write_all P (concat (map f xs)) = for_each (\<lambda>x. write_all P (f x)) xs"
  by (rule ext) (simp add: write_all_def for_each_concat for_each_map)

lemma write_all_map:
  "write_all P (map f xs) = for_each (\<lambda>x. write_all P [f x]) xs"
proof (rule ext)
  fix gs
  show "write_all P (map f xs) gs = for_each (\<lambda>x. write_all P [f x]) xs gs"
    by (induction xs arbitrary: gs) (auto simp: write_all_def split: Option.bind_splits)
qed

lemma write_all_if:
  "write_all P (if b then ws else []) = when_do b (write_all P ws)"
  by (rule ext) simp

lemma set_volume_usage_eq:
  "set_volume_usage P p ns n volumes podResult = write_all P (volume_usage_writes p ns n volumes podResult)"
  unfolding volume_usage_writes_def write_all_concat_map write_all_if write_all_one
  by (rule ext)
    (auto simp: set_volume_usage_def container_volumes_def result_containers_def
      split: option.splits intro!: for_each_cong)

lemma set_volume_limits_eq:
  "set_volume_limits P p ns n volumes podResult = write_all P (volume_limit_writes p ns n volumes podResult)"
  unfolding volume_limit_writes_def write_all_concat_map write_all_if write_all_one
  by (rule ext)
    (auto simp: set_volume_limits_def container_volumes_def result_containers_def
      split: option.splits intro!: for_each_cong)

lemma set_container_limits_eq:
  "set_container_limits P p ns n (fig_usedBytes f) (fig_availableBytes f) (fig_capacityBytes f) podResult =
     write_all P (map (container_limit_write p ns n f) (result_containers podResult))"
  unfolding write_all_map container_limit_write_def Let_def write_all_one
  by (rule ext)
    (auto simp: set_container_limits_def result_containers_def split: option.splits prod.splits
      intro!: for_each_cong)

lemma set_rootfs_eq:
  "set_rootfs P ino p ns n containers = write_all P (concat (map (rootfs_writes ino p ns n) containers))"
  unfolding write_all_concat_map rootfs_writes_def fs_writes_def write_all_append_seq
    write_all_if write_all_Cons write_all_one
  by (rule ext) (auto simp: set_rootfs_def seq_do_fun Let_def cong: Option.bind_cong intro!: for_each_cong)

lemma set_logs_eq:
  "set_logs P ino p ns n containers = write_all P (concat (map (logs_writes ino p ns n) containers))"
  unfolding write_all_concat_map logs_writes_def fs_writes_def write_all_append_seq
    write_all_if write_all_Cons write_all_one
  by (rule ext) (auto simp: set_logs_def seq_do_fun Let_def cong: Option.bind_cong intro!: for_each_cong)

lemma SetMetrics_eq:
  "SetMetrics P cr p ns n f volumes containers st =
     map_option (\<lambda>gs. st\<lparr>gauges := gs\<rparr>)
       (write_all P (pod_writes cr (lookup st p) p ns n f volumes containers) (gauges st))"
  unfolding pod_writes_def write_all_append_seq write_all_if write_all_Cons write_all_one
    SetMetrics_def set_volume_usage_eq set_volume_limits_eq set_container_limits_eq set_rootfs_eq
    set_logs_eq Let_def seq_do_fun
  by (simp add: map_conv_bind_option comp_def write_all_Nil_fun)

section \<open>Labels and values of the writes\<close>

lemma fs_writes_labels: "(k, ls, x) \<in> set (fs_writes a b c d e g h ino labels fs) \<Longrightarrow>
    ls = labels \<and> k \<in> {a, b, c, d, e, g, h}"
  by (auto simp: fs_writes_def split: if_splits)

text \<open>Every write names the pod, its namespace and its node, and carries exactly the labels its
  vector was declared with.\<close>

lemma pod_writes_labels:
  assumes "(k, ls, x) \<in> set (pod_writes cr podResult p ns n f volumes containers)"
  shows "dom ls = set (variable_labels (pod_desc k))"
    and "ls ''pod_name'' = Some p" and "ls ''pod_namespace'' = Some ns"
    and "ls ''node_name'' = Some n"
proof -
  consider (volume) c v m where "ls = volume_labels ns p n c v m" "k \<in> volume_level"
    | (limit) c src where "ls = (container_labels ns p n c)(''source'' \<mapsto> src)"
        "k = containerPercentageLimitsVec"
    | (container) c where "ls = container_labels ns p n c"
        "k \<notin> pod_level" "k \<notin> volume_level" "k \<noteq> containerPercentageLimitsVec"
    | (pod) "ls = pod_labels ns p n" "k \<in> pod_level"
    using assms unfolding pod_writes_def
    by (auto simp: volume_usage_writes_def volume_limit_writes_def container_limit_write_def Let_def
        rootfs_writes_def logs_writes_def pod_level_def volume_level_def
        split: if_splits dest!: fs_writes_labels)
  then have "dom ls = set (variable_labels (pod_desc k)) \<and> ls ''pod_name'' = Some p
    \<and> ls ''pod_namespace'' = Some ns \<and> ls ''node_name'' = Some n"
    by cases
      (auto simp: variable_labels_pod_desc volume_labels_def container_labels_def pod_labels_def
        pod_level_def volume_level_def)
  then show "dom ls = set (variable_labels (pod_desc k))"
    and "ls ''pod_name'' = Some p" and "ls ''pod_namespace'' = Some ns"
    and "ls ''node_name'' = Some n" by auto
qed

lemma pod_writes_fit:
  "\<forall>w \<in> set (pod_writes cr podResult p ns n f volumes containers). fits pod_desc UNIV w"
  by (auto simp: fits_def dest: pod_writes_labels(1))

section \<open>SetMetrics and the evictions over the gauge vectors\<close>

lemma evictPodByName_order_UNIV: "set evictPodByName_order = UNIV"
proof -
  have "k \<in> set evictPodByName_order" for k
    by (cases k) (simp_all add: evictPodByName_order_def)
  then show ?thesis by blast
qed

lemma EvictPodByNode_order_UNIV: "set EvictPodByNode_order = UNIV"
proof -
  have "k \<in> set EvictPodByNode_order" for k
    by (cases k) (simp_all add: EvictPodByNode_order_def)
  then show ?thesis by blast
qed

abbreviation pod_reading :: "('v, 'r) prom_api \<Rightarrow> 'v pod_state \<Rightarrow> pod_vec \<Rightarrow> labels \<Rightarrow> f64 option" where
  "pod_reading P st \<equiv> reading P (gauges st)"

context prometheus
begin

lemma SetMetrics_ok:
  assumes "pod_initialised P st"
  shows "\<exists>st'. SetMetrics P cr p ns n f volumes containers st = Some st' \<and> pod_initialised P st' \<and>
    (\<forall>k ls. pod_reading P st' k ls =
      (case last_write (pod_writes cr (lookup st p) p ns n f volumes containers) k ls of
         Some x \<Rightarrow> Some x | None \<Rightarrow> pod_reading P st k ls)) \<and>
    st' = st\<lparr>gauges := gauges st'\<rparr>"
proof -
  obtain gs where "write_all P (pod_writes cr (lookup st p) p ns n f volumes containers) (gauges st) = Some gs"
      "initialised P pod_desc UNIV gs"
      "\<forall>k ls. reading P gs k ls =
        (case last_write (pod_writes cr (lookup st p) p ns n f volumes containers) k ls of
           Some x \<Rightarrow> Some x | None \<Rightarrow> pod_reading P st k ls)"
    using write_all_ok [OF assms pod_writes_fit] by blast
  then show ?thesis
    by (intro exI [of _ "st\<lparr>gauges := gs\<rparr>"]) (simp add: SetMetrics_eq)
qed

lemma evictPodByName_ok:
  assumes "pod_initialised P st"
  shows "\<exists>st'. evictPodByName P p st = Some st' \<and> pod_initialised P st' \<and>
    (\<forall>k ls. pod_reading P st' k ls =
      (if ls ''pod_name'' = Some p then None else pod_reading P st k ls)) \<and>
    st' = st\<lparr>gauges := gauges st'\<rparr>"
proof -
  obtain gs where
      "for_each (delete_gauge P [''pod_name'' \<mapsto> p]) evictPodByName_order (gauges st) = Some gs"
      "initialised P pod_desc UNIV gs"
      "\<forall>k ls. reading P gs k ls =
        (if [''pod_name'' \<mapsto> p] \<subseteq>\<^sub>m ls then None else pod_reading P st k ls)"
    using delete_all_ok [OF assms, of evictPodByName_order "[''pod_name'' \<mapsto> p]"]
    by (auto simp: evictPodByName_order_UNIV)
  then show ?thesis
    by (intro exI [of _ "st\<lparr>gauges := gs\<rparr>"]) (simp add: evictPodByName_def map_le_singleton_iff)
qed

lemma EvictPodByNode_ok:
  assumes "pod_initialised P st"
  shows "\<exists>st'. EvictPodByNode P sel st = Some st' \<and> pod_initialised P st' \<and>
    (\<forall>k ls. pod_reading P st' k ls = (if sel \<subseteq>\<^sub>m ls then None else pod_reading P st k ls)) \<and>
    st' = st\<lparr>gauges := gauges st',
      nodeTrackers := (case sel ''node_name'' of
        Some n \<Rightarrow> (nodeTrackers st)(n := None) | None \<Rightarrow> nodeTrackers st)\<rparr>"
proof -
  let ?t = "case sel ''node_name'' of
    Some n \<Rightarrow> (nodeTrackers st)(n := None) | None \<Rightarrow> nodeTrackers st"
  obtain gs where "for_each (delete_gauge P sel) EvictPodByNode_order (gauges st) = Some gs"
      "initialised P pod_desc UNIV gs"
      "\<forall>k ls. reading P gs k ls = (if sel \<subseteq>\<^sub>m ls then None else pod_reading P st k ls)"
    using delete_all_ok [OF assms, of EvictPodByNode_order sel]
    by (auto simp: EvictPodByNode_order_UNIV)
  then show ?thesis
    by (intro exI [of _ "st\<lparr>gauges := gs, nodeTrackers := ?t\<rparr>"])
      (simp add: EvictPodByNode_def Let_def split: option.splits)
qed

sublocale by_name: eviction "evictPodByName P" "pod_initialised P" "pod_reading P"
  "\<lambda>p ls. ls ''pod_name'' = Some p"
  by unfold_locales (use evictPodByName_ok in blast)

lemmas evict_pods_ok = by_name.evict_all_ok
lemmas evict_pods_commute = by_name.evict_order_irrelevant

sublocale by_node: eviction "\<lambda>n. EvictPodByNode P [''node_name'' \<mapsto> n]" "pod_initialised P"
  "pod_reading P" "\<lambda>n ls. ls ''node_name'' = Some n"
proof (unfold_locales, goal_cases)
  case (1 st n)
  then show ?case
    using EvictPodByNode_ok [of st "[''node_name'' \<mapsto> n]"] unfolding map_le_singleton_iff by blast
qed

end

end
