(* ===== verification/PodTracker.thy ===== *)
theory PodTracker
  imports PodMetricsSpec "HOL-Library.List_Lexorder" "HOL-Library.Char_ord"
begin

text \<open>
  \<open>EvictStalePods\<close> of \<open>pkg/pod/metrics.go\<close>: scrape-driven eviction.  Per node the
  exporter counts, for every pod it has seen, the consecutive scrapes the pod has been
  missing from; at \<open>scrapeMissTolerance\<close> the pod's series are evicted.

  Go's \<open>range\<close> over a map visits the entries in an unspecified order: the order is the
  parameter \<open>ord\<close>, constrained by \<open>range_order\<close> only.  The specification is \<open>stale_seen\<close>
  (the new counters) and \<open>stale_pods\<close> (the pods evicted); the locale \<open>scrape_tracker\<close>
  states the counting contract and derives what a whole history of scrapes does.
\<close>

section \<open>EvictStalePods\<close>

type_synonym seen_map = "string \<rightharpoonup> int64"

definition range_order :: "(seen_map \<Rightarrow> string list) \<Rightarrow> bool" where
  "range_order ord \<longleftrightarrow> (\<forall>m. finite (dom m) \<longrightarrow> distinct (ord m) \<and> set (ord m) = dom m)"

text \<open>One such order visits the keys sorted.\<close>

definition sorted_keys :: "seen_map \<Rightarrow> string list" where
  "sorted_keys m = sorted_list_of_set (dom m)"

lemma range_order_sorted_keys: "range_order sorted_keys"
  by (simp add: range_order_def sorted_keys_def)

text \<open>The first loop: \<open>tracker.lastSeen[name] = 0\<close> for every current pod.\<close>

fun mark_seen :: "string list \<Rightarrow> seen_map \<Rightarrow> seen_map" where
  "mark_seen [] seen = seen"
| "mark_seen (name # names) seen = mark_seen names (seen(name \<mapsto> 0))"

text \<open>The body of the second loop for one key; a key deleted before it is reached is skipped.\<close>

definition stale_step ::
  "('v, 'r) prom_api \<Rightarrow> int64 \<Rightarrow> string list \<Rightarrow> string \<Rightarrow> seen_map \<times> 'v pod_state \<Rightarrow>
    (seen_map \<times> 'v pod_state) option" where
  "stale_step P tolerance currentPods podName = (\<lambda>(seen, st).
     case seen podName of
       None \<Rightarrow> Some (seen, st)
     | Some misses \<Rightarrow>
         if podName \<notin> set currentPods then
           (let misses = misses + 1 in
            if word_sle tolerance misses then do {
              st' \<leftarrow> evictPodByName P podName st;
              Some (seen(podName := None), st') }
            else Some (seen(podName \<mapsto> misses), st))
         else Some (seen, st))"

definition EvictStalePods ::
  "('v, 'r) prom_api \<Rightarrow> (seen_map \<Rightarrow> string list) \<Rightarrow> string \<Rightarrow> string list \<Rightarrow> 'v pod_state \<Rightarrow>
    'v pod_state option" where
  "EvictStalePods P ord nodeName currentPods st = do {
     let tracker = (case nodeTrackers st nodeName of Some t \<Rightarrow> t | None \<Rightarrow> Map.empty);
     let seen = mark_seen currentPods tracker;
     (seen', st') \<leftarrow> for_each (stale_step P (scrapeMissTolerance st) currentPods) (ord seen) (seen, st);
     Some (st'\<lparr>nodeTrackers := (nodeTrackers st')(nodeName \<mapsto> seen')\<rparr>) }"

section \<open>Specification\<close>

definition stale_seen :: "int64 \<Rightarrow> string list \<Rightarrow> seen_map \<Rightarrow> seen_map" where
  "stale_seen tolerance currentPods seen p =
     (if p \<in> set currentPods then Some 0
      else case seen p of
        None \<Rightarrow> None
      | Some k \<Rightarrow> if word_sle tolerance (k + 1) then None else Some (k + 1))"

definition stale_pods :: "int64 \<Rightarrow> string list \<Rightarrow> seen_map \<Rightarrow> string set" where
  "stale_pods tolerance currentPods seen =
     {p. p \<notin> set currentPods \<and> (\<exists>k. seen p = Some k \<and> word_sle tolerance (k + 1))}"

definition node_seen :: "'v pod_state \<Rightarrow> string \<Rightarrow> seen_map" where
  "node_seen st n = (case nodeTrackers st n of Some t \<Rightarrow> t | None \<Rightarrow> Map.empty)"

lemma mark_seen_apply: "mark_seen names seen p = (if p \<in> set names then Some 0 else seen p)"
  by (induction names arbitrary: seen) simp_all

lemma dom_mark_seen: "dom (mark_seen names seen) = set names \<union> dom seen"
  by (auto simp: mark_seen_apply split: if_splits)

lemma finite_dom_stale_seen: "finite (dom seen) \<Longrightarrow> finite (dom (stale_seen tolerance cur seen))"
  by (rule finite_subset [of _ "set cur \<union> dom seen"])
    (auto simp: stale_seen_def split: option.splits if_splits)

context prometheus
begin

text \<open>The loop over any list of distinct keys.\<close>

lemma stale_loop:
  assumes "pod_initialised P st" and "distinct ks"
  shows "\<exists>seen' st'. for_each (stale_step P tolerance cur) ks (seen, st) = Some (seen', st') \<and>
    pod_initialised P st' \<and> st' = st\<lparr>gauges := gauges st'\<rparr> \<and>
    (\<forall>p. seen' p = (if p \<in> set ks \<and> p \<notin> set cur then stale_seen tolerance cur seen p else seen p)) \<and>
    (\<forall>k ls. pod_reading P st' k ls =
      (if \<exists>p \<in> set ks \<inter> stale_pods tolerance cur seen. ls ''pod_name'' = Some p
       then None else pod_reading P st k ls))"
  using assms
proof (induction ks arbitrary: seen st)
  case Nil
  then show ?case by simp
next
  case (Cons q ks)
  have q: "q \<notin> set ks" and ks: "distinct ks" using Cons.prems by auto
  show ?case
  proof (cases "q \<in> stale_pods tolerance cur seen")
    case True
    obtain st1 where st1: "evictPodByName P q st = Some st1" "pod_initialised P st1"
        "st1 = st\<lparr>gauges := gauges st1\<rparr>"
        "\<And>k ls. pod_reading P st1 k ls =
          (if ls ''pod_name'' = Some q then None else pod_reading P st k ls)"
      using evictPodByName_ok [OF Cons.prems(1), of q] by blast
    have step: "stale_step P tolerance cur q (seen, st) = Some (seen(q := None), st1)"
      using True st1(1) by (auto simp: stale_step_def stale_pods_def)
    obtain seen2 st2 where *: "for_each (stale_step P tolerance cur) ks (seen(q := None), st1) = Some (seen2, st2)"
        "pod_initialised P st2" "st2 = st1\<lparr>gauges := gauges st2\<rparr>"
        "\<forall>p. seen2 p = (if p \<in> set ks \<and> p \<notin> set cur
          then stale_seen tolerance cur (seen(q := None)) p else (seen(q := None)) p)"
        "\<forall>k ls. pod_reading P st2 k ls =
          (if \<exists>p \<in> set ks \<inter> stale_pods tolerance cur (seen(q := None)). ls ''pod_name'' = Some p
           then None else pod_reading P st1 k ls)"
      using Cons.IH [OF st1(2) ks, of "seen(q := None)"] by blast
    have "st2 = st\<lparr>gauges := gauges st2\<rparr>" using *(3) st1(3) by (metis pod_state.update_convs(1) pod_state.surjective)
    moreover have "seen2 p = (if p \<in> set (q # ks) \<and> p \<notin> set cur then stale_seen tolerance cur seen p else seen p)" for p
      using *(4) q True by (auto simp: stale_seen_def stale_pods_def)
    moreover have "pod_reading P st2 k ls =
        (if \<exists>p \<in> set (q # ks) \<inter> stale_pods tolerance cur seen. ls ''pod_name'' = Some p
         then None else pod_reading P st k ls)" for k ls
      using *(5) st1(4) q True by (auto simp: stale_pods_def)
    ultimately show ?thesis using step *(1,2) by auto
  next
    case False
    define seen1 where "seen1 = (if q \<in> set cur then seen else seen(q := stale_seen tolerance cur seen q))"
    have step: "stale_step P tolerance cur q (seen, st) = Some (seen1, st)"
      using False by (auto simp: stale_step_def stale_pods_def stale_seen_def seen1_def
          fun_upd_idem split: option.splits)
    have same: "p \<noteq> q \<Longrightarrow> seen1 p = seen p" for p by (simp add: seen1_def)
    have "p \<noteq> q \<Longrightarrow> stale_seen tolerance cur seen1 p = stale_seen tolerance cur seen p"
      "p \<noteq> q \<Longrightarrow> p \<in> stale_pods tolerance cur seen1 \<longleftrightarrow> p \<in> stale_pods tolerance cur seen" for p
      using same [of p] by (simp_all add: stale_seen_def stale_pods_def)
    then have agree: "\<forall>p \<in> set ks. stale_seen tolerance cur seen1 p = stale_seen tolerance cur seen p
        \<and> (p \<in> stale_pods tolerance cur seen1 \<longleftrightarrow> p \<in> stale_pods tolerance cur seen)"
      using q by metis
    obtain seen2 st2 where *: "for_each (stale_step P tolerance cur) ks (seen1, st) = Some (seen2, st2)"
        "pod_initialised P st2" "st2 = st\<lparr>gauges := gauges st2\<rparr>"
        "\<forall>p. seen2 p = (if p \<in> set ks \<and> p \<notin> set cur then stale_seen tolerance cur seen1 p else seen1 p)"
        "\<forall>k ls. pod_reading P st2 k ls =
          (if \<exists>p \<in> set ks \<inter> stale_pods tolerance cur seen1. ls ''pod_name'' = Some p
           then None else pod_reading P st k ls)"
      using Cons.IH [OF Cons.prems(1) ks, of seen1] by blast
    have "seen2 p = (if p \<in> set (q # ks) \<and> p \<notin> set cur then stale_seen tolerance cur seen p else seen p)" for p
      using *(4) agree q same [of p] by (auto simp: seen1_def)
    moreover have "pod_reading P st2 k ls =
        (if \<exists>p \<in> set (q # ks) \<inter> stale_pods tolerance cur seen. ls ''pod_name'' = Some p
         then None else pod_reading P st k ls)" for k ls
      using *(5) agree False by auto
    ultimately show ?thesis using step *(1-3) by auto
  qed
qed

text \<open>One scrape of a node: the node's counters become \<open>stale_seen\<close>, exactly the stale pods
  lose their series, nothing else changes; the range order plays no role.\<close>

lemma EvictStalePods_ok:
  assumes init: "pod_initialised P st" and ord: "range_order ord"
    and fin: "finite (dom (node_seen st n))"
  shows "\<exists>st'. EvictStalePods P ord n cur st = Some st' \<and> pod_initialised P st' \<and>
    st' = st\<lparr>gauges := gauges st', nodeTrackers := (nodeTrackers st)
      (n \<mapsto> stale_seen (scrapeMissTolerance st) cur (node_seen st n))\<rparr> \<and>
    (\<forall>k ls. pod_reading P st' k ls =
      (if \<exists>p \<in> stale_pods (scrapeMissTolerance st) cur (node_seen st n). ls ''pod_name'' = Some p
       then None else pod_reading P st k ls))"
proof -
  let ?tol = "scrapeMissTolerance st" and ?t = "node_seen st n"
  let ?m = "mark_seen cur ?t"
  have "finite (dom ?m)" using fin by (simp add: dom_mark_seen)
  with ord have keys: "distinct (ord ?m)" "set (ord ?m) = dom ?m" by (auto simp: range_order_def)
  obtain seen' st' where loop: "for_each (stale_step P ?tol cur) (ord ?m) (?m, st) = Some (seen', st')"
      "pod_initialised P st'" "st' = st\<lparr>gauges := gauges st'\<rparr>"
      "\<forall>p. seen' p = (if p \<in> dom ?m \<and> p \<notin> set cur then stale_seen ?tol cur ?m p else ?m p)"
      "\<forall>k ls. pod_reading P st' k ls =
        (if \<exists>p \<in> dom ?m \<inter> stale_pods ?tol cur ?m. ls ''pod_name'' = Some p
         then None else pod_reading P st k ls)"
    using stale_loop [OF init keys(1), of ?tol cur ?m] unfolding keys(2) by blast
  have "seen' = stale_seen ?tol cur ?t"
    using loop(4) by (auto simp: fun_eq_iff stale_seen_def mark_seen_apply dom_mark_seen split: option.splits)
  moreover have "dom ?m \<inter> stale_pods ?tol cur ?m = stale_pods ?tol cur ?t"
    by (auto simp: stale_pods_def mark_seen_apply dom_mark_seen split: if_splits)
  moreover have "nodeTrackers st' = nodeTrackers st"
    by (subst loop(3)) simp
  ultimately show ?thesis
    using loop(1,2,5) by (intro exI [of _ "st'\<lparr>nodeTrackers := (nodeTrackers st')(n \<mapsto> seen')\<rparr>"])
      (subst loop(3), auto simp: EvictStalePods_def node_seen_def Let_def)
qed

end

section \<open>Counters stay below the tolerance\<close>

text \<open>The invariant of the trackers: finitely many pods, each with a miss count in
  \<open>[0, scrapeMissTolerance)\<close>; so \<open>misses++\<close> never wraps around.\<close>

definition seen_ok :: "int64 \<Rightarrow> seen_map \<Rightarrow> bool" where
  "seen_ok tolerance seen \<longleftrightarrow> finite (dom seen) \<and>
     (\<forall>p k. seen p = Some k \<longrightarrow> 0 \<le> sint k \<and> sint k < sint tolerance)"

definition trackers_ok :: "'v pod_state \<Rightarrow> bool" where
  "trackers_ok st \<longleftrightarrow> 1 \<le> sint (scrapeMissTolerance st) \<and>
     (\<forall>n. seen_ok (scrapeMissTolerance st) (node_seen st n))"

lemma sint_64: "- (2 ^ 63) \<le> sint (w :: int64)" "sint (w :: int64) < 2 ^ 63"
  using sint_range_size [of w] by (simp_all add: word_size)

lemma sint_succ:
  assumes "sint (k :: int64) < sint (t :: int64)"
  shows "sint (k + 1) = sint k + 1"
proof -
  have "sint k + 1 < 2 ^ 63" using assms sint_64(2) [of t] by linarith
  moreover have "- (2 ^ 63) \<le> sint k + 1" using sint_64(1) [of k] by linarith
  ultimately show ?thesis
    by (simp add: sint_word_ariths signed_take_bit_int_eq_self)
qed

lemma seen_ok_stale_seen:
  assumes "1 \<le> sint tolerance" and "seen_ok tolerance seen"
  shows "seen_ok tolerance (stale_seen tolerance cur seen)"
proof -
  have "0 \<le> sint j \<and> sint j < sint tolerance"
    if j: "stale_seen tolerance cur seen p = Some j" for p j
  proof (cases "p \<in> set cur")
    case True
    then show ?thesis using j assms(1) by (simp add: stale_seen_def)
  next
    case False
    then obtain k where k: "seen p = Some k" "\<not> word_sle tolerance (k + 1)" "j = k + 1"
      using j by (auto simp: stale_seen_def split: option.splits if_splits)
    then have "0 \<le> sint k" "sint k < sint tolerance" using assms(2) by (auto simp: seen_ok_def)
    then show ?thesis using k sint_succ [of k tolerance] by (simp add: word_sle_eq)
  qed
  then show ?thesis
    using finite_dom_stale_seen assms(2) by (auto simp: seen_ok_def)
qed

section \<open>The counting contract and its histories\<close>

text \<open>How many scrapes ago the pod was last listed (newest scrape first), \<open>None\<close> if never.\<close>

fun missed_since :: "string list list \<Rightarrow> string \<Rightarrow> int option" where
  "missed_since [] p = None"
| "missed_since (cur # older) p =
     (if p \<in> set cur then Some 0 else map_option (\<lambda>k. k + 1) (missed_since older p))"

locale scrape_tracker =
  fixes scrape :: "string list \<Rightarrow> 'c \<Rightarrow> 'c"
    and misses :: "'c \<Rightarrow> string \<Rightarrow> int option"
    and evicts :: "string list \<Rightarrow> 'c \<Rightarrow> string set"
    and tolerance :: "'c \<Rightarrow> int"
    and inv :: "'c \<Rightarrow> bool"
  assumes inv_scrape: "inv c \<Longrightarrow> inv (scrape cur c)"
    and tolerance_scrape: "tolerance (scrape cur c) = tolerance c"
    and tolerance_pos: "inv c \<Longrightarrow> 1 \<le> tolerance c"
    and listed: "inv c \<Longrightarrow> p \<in> set cur \<Longrightarrow> misses (scrape cur c) p = Some 0"
    and missed: "inv c \<Longrightarrow> p \<notin> set cur \<Longrightarrow> misses (scrape cur c) p =
      (case misses c p of
         None \<Rightarrow> None
       | Some k \<Rightarrow> if tolerance c \<le> k + 1 then None else Some (k + 1))"
    and evicts_iff: "inv c \<Longrightarrow> p \<in> evicts cur c \<longleftrightarrow>
      p \<notin> set cur \<and> (\<exists>k. misses c p = Some k \<and> tolerance c \<le> k + 1)"
begin

fun run :: "string list list \<Rightarrow> 'c \<Rightarrow> 'c" where
  "run [] c = c"
| "run (cur # older) c = scrape cur (run older c)"

lemma run_inv: "inv c \<Longrightarrow> inv (run hist c)"
  by (induction hist) (auto intro: inv_scrape)

lemma run_tolerance: "tolerance (run hist c) = tolerance c"
  by (induction hist) (auto simp: tolerance_scrape)

text \<open>After any history from a fresh tracker, a pod's counter is the number of scrapes since it
  was last listed, and the pod is untracked from the tolerance on.\<close>

theorem run_misses:
  assumes "inv c" and "misses c p = None"
  shows "misses (run hist c) p =
    (case missed_since hist p of
       Some k \<Rightarrow> if k < tolerance c then Some k else None
     | None \<Rightarrow> None)"
proof (induction hist)
  case Nil
  then show ?case using assms by simp
next
  case (Cons cur hist)
  have inv: "inv (run hist c)" using assms(1) by (rule run_inv)
  show ?case
  proof (cases "p \<in> set cur")
    case True
    then show ?thesis using listed [OF inv True] tolerance_pos [OF assms(1)] by simp
  next
    case False
    then show ?thesis
      using missed [OF inv False] Cons.IH by (auto simp: run_tolerance split: option.splits)
  qed
qed

text \<open>A scrape evicts exactly the pods whose consecutive misses reach the tolerance in it.\<close>

theorem run_evicts:
  assumes "inv c" and "misses c p = None"
  shows "p \<in> evicts cur (run hist c) \<longleftrightarrow> missed_since (cur # hist) p = Some (tolerance c)"
proof -
  have "missed_since (cur # hist) p = Some (tolerance c) \<longleftrightarrow>
      p \<notin> set cur \<and> missed_since hist p = Some (tolerance c - 1)"
    using tolerance_pos [OF assms(1)] by auto
  then show ?thesis
    using evicts_iff [OF run_inv [OF assms(1)], of p cur hist] run_misses [OF assms, of hist]
    by (auto simp: run_tolerance split: option.splits if_splits)
qed

end

text \<open>The exporter's counters keep the contract.\<close>

definition tracker_scrape :: "string list \<Rightarrow> int64 \<times> seen_map \<Rightarrow> int64 \<times> seen_map" where
  "tracker_scrape cur c = (fst c, stale_seen (fst c) cur (snd c))"

definition tracker_inv :: "int64 \<times> seen_map \<Rightarrow> bool" where
  "tracker_inv c \<longleftrightarrow> 1 \<le> sint (fst c) \<and> seen_ok (fst c) (snd c)"

definition tracker_misses :: "int64 \<times> seen_map \<Rightarrow> string \<Rightarrow> int option" where
  "tracker_misses c p = map_option sint (snd c p)"

definition tracker_evicts :: "string list \<Rightarrow> int64 \<times> seen_map \<Rightarrow> string set" where
  "tracker_evicts cur c = stale_pods (fst c) cur (snd c)"

lemma seen_ok_below_tolerance:
  "seen_ok tolerance seen \<Longrightarrow> seen p = Some k \<Longrightarrow> sint (k + 1) = sint k + 1"
  by (rule sint_succ [where t = tolerance]) (simp add: seen_ok_def)

interpretation node_tracker: scrape_tracker tracker_scrape tracker_misses tracker_evicts
  "\<lambda>c. sint (fst c)" tracker_inv
proof (unfold_locales, goal_cases)
  case (1 c cur)
  then show ?case by (simp add: tracker_inv_def tracker_scrape_def seen_ok_stale_seen)
next
  case (5 c p cur)
  then show ?case
    by (auto simp: tracker_inv_def tracker_misses_def tracker_scrape_def stale_seen_def word_sle_eq
      seen_ok_below_tolerance split: option.splits)
next
  case (6 c p cur)
  then show ?case
    by (auto simp: tracker_inv_def tracker_misses_def tracker_evicts_def stale_pods_def word_sle_eq
      seen_ok_below_tolerance)
qed (auto simp: tracker_inv_def tracker_misses_def tracker_scrape_def stale_seen_def)

text \<open>A run of scrapes of one node, oldest first, as the exporter executes it.\<close>

definition run_scrapes ::
  "('v, 'r) prom_api \<Rightarrow> (seen_map \<Rightarrow> string list) \<Rightarrow> string \<Rightarrow> string list list \<Rightarrow>
    'v pod_state \<Rightarrow> 'v pod_state option" where
  "run_scrapes P ord n hist st = for_each (EvictStalePods P ord n) hist st"

context prometheus
begin

lemma run_scrapes_ok:
  assumes "pod_initialised P st" and "range_order ord" and "trackers_ok st"
  shows "\<exists>st'. run_scrapes P ord n (rev hist) st = Some st' \<and> pod_initialised P st' \<and>
    trackers_ok st' \<and> scrapeMissTolerance st' = scrapeMissTolerance st \<and> lookup st' = lookup st \<and>
    (scrapeMissTolerance st, node_seen st' n) =
      node_tracker.run hist (scrapeMissTolerance st, node_seen st n) \<and>
    (\<forall>m. m \<noteq> n \<longrightarrow> nodeTrackers st' m = nodeTrackers st m)"
proof (induction hist)
  case Nil
  then show ?case using assms by (simp add: run_scrapes_def)
next
  case (Cons cur hist)
  then obtain st1 where st1: "run_scrapes P ord n (rev hist) st = Some st1" "pod_initialised P st1"
      "trackers_ok st1" "scrapeMissTolerance st1 = scrapeMissTolerance st" "lookup st1 = lookup st"
      "(scrapeMissTolerance st, node_seen st1 n) =
        node_tracker.run hist (scrapeMissTolerance st, node_seen st n)"
      "\<forall>m. m \<noteq> n \<longrightarrow> nodeTrackers st1 m = nodeTrackers st m"
    by blast
  have fin: "finite (dom (node_seen st1 n))" using st1(3) by (auto simp: trackers_ok_def seen_ok_def)
  obtain st2 where st2: "EvictStalePods P ord n cur st1 = Some st2" "pod_initialised P st2"
      "st2 = st1\<lparr>gauges := gauges st2, nodeTrackers := (nodeTrackers st1)
        (n \<mapsto> stale_seen (scrapeMissTolerance st1) cur (node_seen st1 n))\<rparr>"
    using EvictStalePods_ok [OF st1(2) assms(2) fin, of cur] by blast
  have f: "scrapeMissTolerance st2 = scrapeMissTolerance st1" "lookup st2 = lookup st1"
      "nodeTrackers st2 = (nodeTrackers st1)
        (n \<mapsto> stale_seen (scrapeMissTolerance st1) cur (node_seen st1 n))"
    by (subst st2(3), simp)+
  have seen: "node_seen st2 m =
      (if m = n then stale_seen (scrapeMissTolerance st1) cur (node_seen st1 n) else node_seen st1 m)" for m
    by (simp add: node_seen_def f)
  have "trackers_ok st2"
    using st1(3) by (auto simp: trackers_ok_def f seen seen_ok_stale_seen)
  moreover have hist: "(scrapeMissTolerance st, node_seen st2 n) =
      node_tracker.run (cur # hist) (scrapeMissTolerance st, node_seen st n)"
    unfolding node_tracker.run.simps st1(6) [symmetric] tracker_scrape_def
    by (simp add: seen st1(4))
  moreover have "run_scrapes P ord n (rev (cur # hist)) st = Some st2"
    using st1(1) st2(1) by (simp add: run_scrapes_def for_each_append)
  ultimately show ?case
    using st1(4,5,7) st2(2) f seen hist by simp
qed

end

end
