(* ===== verification/GoStd.thy ===== *)
theory GoStd
  imports Prelude
begin

text \<open>
  The parts of Go's standard library the exporter's configuration and addressing code
  uses: \<open>os.LookupEnv\<close> (the environment is a map), \<open>strconv.ParseBool\<close>,
  \<open>strconv.ParseInt\<close> in base 10 and \<open>strconv.Atoi\<close>, \<open>strconv.Itoa\<close>,
  \<open>net.JoinHostPort\<close>.  The callers drop the error of the parsers, so a parser is the
  value it returns: on a syntax error the zero value, on a range error the nearest bound.
\<close>

type_synonym environment = "string \<rightharpoonup> string"

section \<open>strconv\<close>

definition ParseBool :: "string \<Rightarrow> bool option" where
  "ParseBool s =
     (if s \<in> set [''1'', ''t'', ''T'', ''true'', ''TRUE'', ''True''] then Some True
      else if s \<in> set [''0'', ''f'', ''F'', ''false'', ''FALSE'', ''False''] then Some False
      else None)"

definition parse_bool :: "string \<Rightarrow> bool" where
  "parse_bool s = (case ParseBool s of Some b \<Rightarrow> b | None \<Rightarrow> False)"

definition digit_val :: "char \<Rightarrow> nat option" where
  "digit_val c = (if 48 \<le> (of_char c :: nat) \<and> of_char c \<le> (57 :: nat)
     then Some (of_char c - 48) else None)"

datatype parsed = Value nat | RangeError | SyntaxError

text \<open>The digit loop of \<open>ParseUint(s, 10, 64)\<close>: it stops at the first digit that overflows
  \<open>uint64\<close>, before it looks at the rest of the string.\<close>

fun parse_digits :: "string \<Rightarrow> nat \<Rightarrow> parsed" where
  "parse_digits [] n = Value n"
| "parse_digits (c # cs) n =
     (case digit_val c of
        None \<Rightarrow> SyntaxError
      | Some d \<Rightarrow> if 2 ^ 64 \<le> 10 * n + d then RangeError else parse_digits cs (10 * n + d))"

definition parse_uint :: "string \<Rightarrow> parsed" where
  "parse_uint s = (if s = [] then SyntaxError else parse_digits s 0)"

definition parse_int :: "string \<Rightarrow> int64" where
  "parse_int s =
     (let neg = (s \<noteq> [] \<and> hd s = CHR ''-'');
          body = (if s \<noteq> [] \<and> (hd s = CHR ''-'' \<or> hd s = CHR ''+'') then tl s else s)
      in case parse_uint body of
           SyntaxError \<Rightarrow> 0
         | RangeError \<Rightarrow> word_of_int (if neg then - (2 ^ 63) else 2 ^ 63 - 1)
         | Value n \<Rightarrow>
             if \<not> neg \<and> 2 ^ 63 \<le> n then word_of_int (2 ^ 63 - 1)
             else if neg \<and> 2 ^ 63 < n then word_of_int (- (2 ^ 63))
             else word_of_int (if neg then - int n else int n))"

text \<open>\<open>Atoi(s)\<close> is \<open>ParseInt(s, 10, 0)\<close> converted to \<open>int\<close>, which has 64 bits here.\<close>

definition atoi :: "string \<Rightarrow> int64" where
  "atoi s = parse_int s"

fun nat_digits :: "nat \<Rightarrow> string" where
  "nat_digits n =
     (if n < 10 then [char_of (48 + n)] else nat_digits (n div 10) @ [char_of (48 + n mod 10)])"

declare nat_digits.simps [simp del]

definition itoa :: "int64 \<Rightarrow> string" where
  "itoa w = (let i = sint w in if i < 0 then CHR ''-'' # nat_digits (nat (- i)) else nat_digits (nat i))"

section \<open>net\<close>

definition join_host_port :: "string \<Rightarrow> string \<Rightarrow> string" where
  "join_host_port host port =
     (if CHR '':'' \<in> set host then ''['' @ host @ '']:'' @ port else host @ '':'' @ port)"

section \<open>Facts\<close>

lemma digit_val_digit [simp]: "n < 10 \<Longrightarrow> digit_val (char_of (48 + n)) = Some n"
  by (simp add: digit_val_def)

lemma parse_digits_append:
  "parse_digits (xs @ ys) n =
     (case parse_digits xs n of Value m \<Rightarrow> parse_digits ys m | e \<Rightarrow> e)"
  by (induction xs arbitrary: n) (auto split: option.splits)

lemma nat_digits_nonempty [simp]: "nat_digits n \<noteq> []"
  by (subst nat_digits.simps) simp

lemma parse_nat_digits: "n < 2 ^ 64 \<Longrightarrow> parse_digits (nat_digits n) 0 = Value n"
proof (induction n rule: nat_digits.induct)
  case (1 n)
  show ?case
  proof (cases "n < 10")
    case True
    then show ?thesis by (simp add: nat_digits.simps [of n])
  next
    case False
    have "10 * (n div 10) + n mod 10 = n" by simp
    moreover have "parse_digits (nat_digits (n div 10)) 0 = Value (n div 10)"
      using 1 False by simp
    ultimately show ?thesis
      using False 1(2) by (simp add: nat_digits.simps [of n] parse_digits_append)
  qed
qed

lemma hd_nat_digits: "hd (nat_digits n) \<noteq> CHR ''-''" "hd (nat_digits n) \<noteq> CHR ''+''"
proof -
  have "\<exists>d < (10::nat). hd (nat_digits n) = char_of (48 + d)"
  proof (induction n rule: nat_digits.induct)
    case (1 n)
    then show ?case by (cases "n < 10") (auto simp: nat_digits.simps [of n])
  qed
  then obtain d :: nat where "d < 10" "hd (nat_digits n) = char_of (48 + d)" by blast
  then have "48 \<le> (of_char (hd (nat_digits n)) :: nat)" by simp
  then show "hd (nat_digits n) \<noteq> CHR ''-''" "hd (nat_digits n) \<noteq> CHR ''+''" by auto
qed

text \<open>What \<open>strconv.Itoa\<close> prints, \<open>strconv.Atoi\<close> reads back.\<close>

lemma atoi_itoa: "atoi (itoa w) = w"
proof -
  have range: "- (2 ^ 63) \<le> sint w" "sint w < 2 ^ 63"
    using sint_range_size [of w] by (simp_all add: word_size)
  have word: "word_of_int (sint w) = w" by simp
  show ?thesis
  proof (cases "sint w < 0")
    case True
    have "nat (- sint w) < 2 ^ 64" using range by (simp add: nat_less_iff)
    then show ?thesis using True range word
      by (auto simp: atoi_def parse_int_def itoa_def Let_def parse_uint_def parse_nat_digits)
  next
    case False
    have "nat (sint w) < 2 ^ 64" using range by (simp add: nat_less_iff)
    then show ?thesis using False range word hd_nat_digits
      by (auto simp: atoi_def parse_int_def itoa_def Let_def parse_uint_def parse_nat_digits)
  qed
qed

end
