(* ===== verification/Config.thy ===== *)
theory Config
  imports GoStd
begin

text \<open>
  \<open>pkg/dev/util.go\<close>: the configuration read from the environment.  The environment is a
  map; \<open>clientcmd.BuildConfigFromFlags\<close> and \<open>rest.InClusterConfig\<close> are arguments that
  return an error message or a client configuration of any type.
\<close>

text \<open>How a constructor can end the process.\<close>

datatype stop = Panic | Exit nat

definition GetEnv :: "environment \<Rightarrow> string \<Rightarrow> string \<Rightarrow> string" where
  "GetEnv env key fallback = (case env key of Some value \<Rightarrow> value | None \<Rightarrow> fallback)"

definition DeployAsDaemonSet :: "environment \<Rightarrow> bool" where
  "DeployAsDaemonSet env \<longleftrightarrow> GetEnv env ''DEPLOY_TYPE'' ''DaemonSet'' = ''DaemonSet''"

definition CurrentNodeName :: "environment \<Rightarrow> string" where
  "CurrentNodeName env = GetEnv env ''CURRENT_NODE_NAME'' ''''"

text \<open>The result of \<open>getK8sConfigFromEnv\<close> is the pair \<open>(config, err)\<close>: \<open>Inl\<close> an error,
  \<open>Inr None\<close> for \<open>nil, nil\<close>.  \<open>os.Getenv\<close> reads an unset variable as the empty string.\<close>

definition getK8sConfigFromEnv ::
  "environment \<Rightarrow> (string \<Rightarrow> string + 'cfg) \<Rightarrow> string + 'cfg option" where
  "getK8sConfigFromEnv env BuildConfigFromFlags =
     (let path = GetEnv env ''KUBECONFIG'' '''' in
      if path = '''' then Inr None
      else case BuildConfigFromFlags path of Inl err \<Rightarrow> Inl err | Inr cfg \<Rightarrow> Inr (Some cfg))"

definition getK8sConfig ::
  "environment \<Rightarrow> (string \<Rightarrow> string + 'cfg) \<Rightarrow> (string + 'cfg) \<Rightarrow> string + 'cfg" where
  "getK8sConfig env BuildConfigFromFlags InClusterConfig =
     (case getK8sConfigFromEnv env BuildConfigFromFlags of
        Inl err \<Rightarrow> Inl (''KUBECONFIG set but invalid: '' @ err)
      | Inr (Some cfg) \<Rightarrow> Inr cfg
      | Inr None \<Rightarrow> InClusterConfig)"

text \<open>A boolean setting, as every constructor reads one.\<close>

definition env_bool :: "environment \<Rightarrow> string \<Rightarrow> bool" where
  "env_bool env key = parse_bool (GetEnv env key ''false'')"

lemma GetEnv_unset [simp]: "env key = None \<Longrightarrow> GetEnv env key fallback = fallback"
  by (simp add: GetEnv_def)

lemma GetEnv_set [simp]: "env key = Some v \<Longrightarrow> GetEnv env key fallback = v"
  by (simp add: GetEnv_def)

lemma env_bool_unset: "env key = None \<Longrightarrow> \<not> env_bool env key"
  by (simp add: env_bool_def parse_bool_def ParseBool_def)

text \<open>The in-cluster configuration is only consulted when \<open>KUBECONFIG\<close> is unset or empty: an
  invalid \<open>KUBECONFIG\<close> is an error, never a silent fallback.\<close>

lemma getK8sConfig_cases:
  "getK8sConfig env build incluster =
     (if GetEnv env ''KUBECONFIG'' '''' = '''' then incluster
      else case build (GetEnv env ''KUBECONFIG'' '''') of
             Inl err \<Rightarrow> Inl (''KUBECONFIG set but invalid: '' @ err)
           | Inr cfg \<Rightarrow> Inr cfg)"
  by (auto simp: getK8sConfig_def getK8sConfigFromEnv_def Let_def split: sum.splits)

end
