(* ===== verification/PodCollector.thy ===== *)
theory PodCollector
  imports PodTracker Config
begin

text \<open>
  \<open>pkg/pod/k8s.go\<close> and \<open>pkg/pod/factory.go\<close>: the table of pods (\<open>lookup\<close>) that
  \<open>SetMetrics\<close> reads limits and emptyDir mounts from, filled by the initial list and kept by
  the pod watcher, and the collector's constructor.

  Of the Kubernetes API objects the records hold the fields the code reads.  A
  \<open>resource.Quantity\<close> is a value of type \<open>'q\<close>; its method \<open>AsApproximateFloat64\<close> is
  the argument \<open>approx\<close>.  The entries of a Go map that is only ranged over are a list in the
  order the runtime visits them.
\<close>

section \<open>Kubernetes objects\<close>

record 'q v1_Volume =
  v_Name :: string
  v_EmptyDir :: "'q option option"  \<comment> \<open>\<open>EmptyDir\<close> pointer, then its \<open>SizeLimit\<close> pointer\<close>

record v1_VolumeMount =
  vm_Name :: string
  vm_MountPath :: string

record 'q v1_Container =
  c_Name :: string
  c_VolumeMounts :: "v1_VolumeMount list"
  c_Limits :: "(string \<times> 'q) list"

record 'q v1_Pod =
  p_Name :: string
  p_Namespace :: string
  p_Phase :: string
  p_Volumes :: "'q v1_Volume list option"
  p_Containers :: "'q v1_Container list"

text \<open>An object delivered by an informer: the typed pointer, a tombstone, or anything else.\<close>

datatype 'a iface = Typed 'a | DeletedFinalStateUnknown "'a iface" | OtherType

section \<open>getContainerData and getPodData\<close>

definition mounts_step :: "('q \<Rightarrow> f64) \<Rightarrow> 'q v1_Volume \<Rightarrow> (string \<rightharpoonup> f64) \<times> bool \<Rightarrow> (string \<rightharpoonup> f64) \<times> bool" where
  "mounts_step approx v = (\<lambda>(podMountsMap, collectMounts).
     case v_EmptyDir v of
       None \<Rightarrow> (podMountsMap, collectMounts)
     | Some sizeLimit \<Rightarrow>
         (let m = podMountsMap(v_Name v \<mapsto> Fin 0) in
          case sizeLimit of
            None \<Rightarrow> (m, True)
          | Some q \<Rightarrow> (m(v_Name v \<mapsto> approx q), True)))"

definition collect_step ::
  "(string \<rightharpoonup> f64) \<Rightarrow> v1_VolumeMount \<Rightarrow> emptyDirVolume list option \<Rightarrow> emptyDirVolume list option" where
  "collect_step podMountsMap volumeMount collectVolumes =
     (case podMountsMap (vm_Name volumeMount) of
        None \<Rightarrow> collectVolumes
      | Some limit \<Rightarrow>
          (let new = \<lparr>edv_name = vm_Name volumeMount, edv_mountPath = vm_MountPath volumeMount,
                      edv_sizeLimit = limit\<rparr>
           in Some (case collectVolumes of None \<Rightarrow> [new] | Some vs \<Rightarrow> vs @ [new])))"

text \<open>The loop over \<open>c.Resources.Limits\<close>, left at the first matching key.\<close>

fun limit_loop :: "('q \<Rightarrow> f64) \<Rightarrow> (string \<times> 'q) list \<Rightarrow> f64 \<Rightarrow> f64" where
  "limit_loop approx [] limit = limit"
| "limit_loop approx ((key, val) # rest) limit =
     (if key = ''ephemeral-storage'' then approx val else limit_loop approx rest limit)"

definition getContainerData ::
  "('q \<Rightarrow> f64) \<Rightarrow> Collector \<Rightarrow> 'q v1_Container \<Rightarrow> 'q v1_Pod \<Rightarrow> container" where
  "getContainerData approx cr c p =
     (let volumes =
        (if cr_containerVolumeUsage cr \<or> cr_containerVolumeLimitsPercentage cr then
           (case p_Volumes p of
              None \<Rightarrow> None
            | Some vs \<Rightarrow>
                (case fold (mounts_step approx) vs (Map.empty, False) of
                   (podMountsMap, collectMounts) \<Rightarrow>
                     if collectMounts
                     then fold (collect_step podMountsMap) (c_VolumeMounts c) None
                     else None))
         else None);
       limit = (if cr_containerLimitsPercentage cr then limit_loop approx (c_Limits c) (Fin 0) else Fin 0)
      in \<lparr>ct_name = c_Name c, ct_limit = limit, ct_emptyDirVolumes = volumes\<rparr>)"

definition getPodData ::
  "('q \<Rightarrow> f64) \<Rightarrow> Collector \<Rightarrow> 'q v1_Pod \<Rightarrow> 'v pod_state \<Rightarrow> 'v pod_state" where
  "getPodData approx cr p st =
     (if p_Phase p = ''Running'' then
        (let collectContainers = map (\<lambda>x. getContainerData approx cr x p) (p_Containers p)
         in st\<lparr>lookup := (lookup st)(p_Name p \<mapsto> \<lparr>pod_containers = collectContainers\<rparr>)\<rparr>)
      else st)"

section \<open>Listing the pods\<close>

record ListOptions =
  ResourceVersion :: string
  FieldSelector :: string
  Limit :: int64
  Continue :: string

definition getPodsListOptions :: "Collector \<Rightarrow> ListOptions" where
  "getPodsListOptions cr =
     \<lparr>ResourceVersion = (if cr_listPodsWithCache cr then ''0'' else ''''),
      FieldSelector = (if cr_deployAsDaemonSet cr then ''spec.nodeName='' @ cr_currentNodeName cr else ''''),
      Limit = 500, Continue = ''''\<rparr>"

record 'q PodList =
  pl_Items :: "'q v1_Pod list"
  pl_Continue :: string

text \<open>The paging loop: the \<open>i\<close>-th request is answered by \<open>server i\<close>.  \<open>None\<close> is a loop that
  never ends, \<open>Inl\<close> the error that makes the process exit.\<close>

partial_function (option) list_pods ::
  "(nat \<Rightarrow> ListOptions \<Rightarrow> string + 'q PodList) \<Rightarrow> nat \<Rightarrow> ListOptions \<Rightarrow> 'q v1_Pod list \<Rightarrow>
    (string + 'q v1_Pod list) option" where
  "list_pods server i listOpts allPods =
     (case server i listOpts of
        Inl err \<Rightarrow> Some (Inl err)
      | Inr pods \<Rightarrow>
          (let allPods = allPods @ pl_Items pods in
           if pl_Continue pods = '''' then Some (Inr allPods)
           else list_pods server (Suc i) (listOpts\<lparr>Continue := pl_Continue pods\<rparr>) allPods))"

definition initGetPodsData ::
  "('q \<Rightarrow> f64) \<Rightarrow> Collector \<Rightarrow> (nat \<Rightarrow> ListOptions \<Rightarrow> string + 'q PodList) \<Rightarrow> 'v pod_state \<Rightarrow>
    (stop + 'v pod_state) option" where
  "initGetPodsData approx cr server st =
     (case list_pods server 0 (getPodsListOptions cr) [] of
        None \<Rightarrow> None
      | Some (Inl err) \<Rightarrow> Some (Inl (Exit 1))
      | Some (Inr allPods) \<Rightarrow> Some (Inr (fold (getPodData approx cr) allPods st)))"

section \<open>The pod watcher\<close>

text \<open>The field selector the informer lists and watches with; empty for all pods.\<close>

definition podWatch_selector :: "Collector \<Rightarrow> string" where
  "podWatch_selector cr =
     (if cr_deployAsDaemonSet cr then ''spec.nodeName='' @ cr_currentNodeName cr else '''')"

definition podWatch_UpdateFunc ::
  "('q \<Rightarrow> f64) \<Rightarrow> Collector \<Rightarrow> 'q v1_Pod iface \<Rightarrow> 'v pod_state \<Rightarrow> 'v pod_state option" where
  "podWatch_UpdateFunc approx cr newObj st =
     (case newObj of Typed p \<Rightarrow> Some (getPodData approx cr p st) | _ \<Rightarrow> Some st)"

definition podWatch_DeleteFunc ::
  "('v, 'r) prom_api \<Rightarrow> 'q v1_Pod iface \<Rightarrow> 'v pod_state \<Rightarrow> 'v pod_state option" where
  "podWatch_DeleteFunc P obj st =
     (let deleted = (case obj of
          Typed p \<Rightarrow> Some p
        | DeletedFinalStateUnknown (Typed p) \<Rightarrow> Some p
        | _ \<Rightarrow> None)
      in case deleted of
           None \<Rightarrow> Some st
         | Some p \<Rightarrow> evictPodByName P (p_Name p) (st\<lparr>lookup := (lookup st)(p_Name p := None)\<rparr>))"

section \<open>NewCollector\<close>

definition collector_config :: "environment \<Rightarrow> int64 \<Rightarrow> Collector" where
  "collector_config env sampleInterval =
     \<lparr>cr_containerVolumeUsage = env_bool env ''EPHEMERAL_STORAGE_CONTAINER_VOLUME_USAGE'',
      cr_containerLimitsPercentage = env_bool env ''EPHEMERAL_STORAGE_CONTAINER_LIMIT_PERCENTAGE'',
      cr_containerVolumeLimitsPercentage =
        env_bool env ''EPHEMERAL_STORAGE_CONTAINER_VOLUME_LIMITS_PERCENTAGE'',
      cr_containerRootfsUsage = env_bool env ''EPHEMERAL_STORAGE_CONTAINER_ROOTFS_USAGE'',
      cr_containerLogsUsage = env_bool env ''EPHEMERAL_STORAGE_CONTAINER_LOGS_USAGE'',
      cr_inodes = env_bool env ''EPHEMERAL_STORAGE_INODES'',
      cr_podUsage = env_bool env ''EPHEMERAL_STORAGE_POD_USAGE'',
      cr_sampleInterval = sampleInterval,
      cr_listPodsWithCache = env_bool env ''EPHEMERAL_STORAGE_LIST_PODS_WITH_CACHE'',
      cr_deployAsDaemonSet = DeployAsDaemonSet env,
      cr_currentNodeName = CurrentNodeName env\<rparr>"

definition miss_tolerance :: "environment \<Rightarrow> int64" where
  "miss_tolerance env =
     (let tolerance = atoi (GetEnv env ''SCRAPE_MISS_TOLERANCE'' ''2'')
      in if word_sless tolerance 1 then 2 else tolerance)"

text \<open>The result is the collector, the package state, the registry, and whether the
  goroutines \<open>initGetPodsData\<close> and \<open>podWatch\<close> are started.\<close>

definition NewCollector ::
  "('v, 'r) prom_api \<Rightarrow> environment \<Rightarrow> int64 \<Rightarrow> 'v pod_state \<times> 'r \<Rightarrow>
    stop + Collector \<times> 'v pod_state \<times> 'r \<times> bool" where
  "NewCollector P env sampleInterval = (\<lambda>(st, r).
     let cr = collector_config env sampleInterval in
     if cr_deployAsDaemonSet cr \<and> cr_currentNodeName cr = '''' then Inl (Exit 1)
     else case createMetrics P (st\<lparr>lookup := Map.empty\<rparr>, r) of
       None \<Rightarrow> Inl Panic
     | Some (st', r') \<Rightarrow>
         Inr (cr, st'\<lparr>scrapeMissTolerance := miss_tolerance env\<rparr>, r',
           cr_containerLimitsPercentage cr \<or> cr_containerVolumeLimitsPercentage cr))"

end
