(* ===== verification/PodCollectorSpec.thy ===== *)
theory PodCollectorSpec
  imports PodCollector
begin

text \<open>
  What \<open>pkg/pod/k8s.go\<close> and \<open>pkg/pod/factory.go\<close> promise: which emptyDir mounts and
  limits a container's entry holds, the paging loop, the lookup table after the initial list
  and after watch events, and the state \<open>NewCollector\<close> leaves.
\<close>

section \<open>Container data\<close>

definition volume_limit :: "('q \<Rightarrow> f64) \<Rightarrow> 'q option \<Rightarrow> f64" where
  "volume_limit approx sizeLimit = (case sizeLimit of None \<Rightarrow> Fin 0 | Some q \<Rightarrow> approx q)"

text \<open>The emptyDir volumes of a pod with their limits; a later volume of a name replaces an earlier.\<close>

definition empty_dirs :: "('q \<Rightarrow> f64) \<Rightarrow> 'q v1_Volume list \<Rightarrow> string \<Rightarrow> f64 option" where
  "empty_dirs approx vs = map_of (rev (List.map_filter
     (\<lambda>v. map_option (\<lambda>sl. (v_Name v, volume_limit approx sl)) (v_EmptyDir v)) vs))"

lemma empty_dirs_Nil [simp]: "empty_dirs approx [] = Map.empty"
  by (simp add: empty_dirs_def List.map_filter_def)

lemma empty_dirs_snoc: "empty_dirs approx (vs @ [v]) =
    (case v_EmptyDir v of
       None \<Rightarrow> empty_dirs approx vs
     | Some sl \<Rightarrow> (empty_dirs approx vs)(v_Name v \<mapsto> volume_limit approx sl))"
  by (auto simp: empty_dirs_def List.map_filter_def split: option.splits)

lemma fold_mounts_step:
  "fold (mounts_step approx) vs (Map.empty, False) =
     (empty_dirs approx vs, \<exists>v \<in> set vs. v_EmptyDir v \<noteq> None)"
proof (induction vs rule: rev_induct)
  case Nil
  then show ?case by simp
next
  case (snoc v vs)
  then show ?case
    by (auto simp: mounts_step_def empty_dirs_snoc volume_limit_def Let_def split: option.splits)
qed

lemma empty_dirs_distinct:
  assumes "distinct (map v_Name vs)"
  shows "empty_dirs approx vs name = Some limit \<longleftrightarrow>
    (\<exists>v \<in> set vs. \<exists>sl. v_Name v = name \<and> v_EmptyDir v = Some sl \<and> limit = volume_limit approx sl)"
  using assms
proof (induction vs rule: rev_induct)
  case Nil
  then show ?case by simp
next
  case (snoc v vs)
  then show ?case
    by (cases "v_EmptyDir v") (auto simp: empty_dirs_snoc image_iff)
qed

lemma empty_dirs_none:
  "\<not> (\<exists>v \<in> set vs. v_EmptyDir v \<noteq> None) \<Longrightarrow> empty_dirs approx vs = Map.empty"
  by (induction vs rule: rev_induct) (auto simp: empty_dirs_snoc)

definition mounted :: "(string \<rightharpoonup> f64) \<Rightarrow> v1_VolumeMount \<Rightarrow> emptyDirVolume option" where
  "mounted m vm = map_option
     (\<lambda>limit. \<lparr>edv_name = vm_Name vm, edv_mountPath = vm_MountPath vm, edv_sizeLimit = limit\<rparr>)
     (m (vm_Name vm))"

lemma fold_collect_step:
  "(case fold (collect_step m) vms acc of None \<Rightarrow> [] | Some l \<Rightarrow> l) =
     (case acc of None \<Rightarrow> [] | Some l \<Rightarrow> l) @ List.map_filter (mounted m) vms"
proof (induction vms arbitrary: acc)
  case Nil
  then show ?case by (simp add: List.map_filter_def)
next
  case (Cons vm vms)
  show ?case
    using Cons.IH [of "collect_step m vm acc"]
    by (auto simp: collect_step_def mounted_def List.map_filter_def Let_def split: option.splits)
qed

text \<open>The mounts a container's entry lists, in mount order.\<close>

lemma container_volumes_getContainerData:
  "container_volumes (getContainerData approx cr c p) =
     (if cr_containerVolumeUsage cr \<or> cr_containerVolumeLimitsPercentage cr then
        (case p_Volumes p of
           None \<Rightarrow> []
         | Some vs \<Rightarrow> List.map_filter (mounted (empty_dirs approx vs)) (c_VolumeMounts c))
      else [])"
proof -
  have none: "List.map_filter (mounted Map.empty) vms = []" for vms
    by (simp add: List.map_filter_def mounted_def)
  show ?thesis
    using fold_collect_step [of _ "c_VolumeMounts c" None] none
    by (auto simp: getContainerData_def container_volumes_def Let_def fold_mounts_step
        empty_dirs_none split: option.splits)
qed

lemma limit_loop_map_of:
  "limit_loop approx limits d = (case map_of limits ''ephemeral-storage'' of None \<Rightarrow> d | Some q \<Rightarrow> approx q)"
  by (induction approx limits d rule: limit_loop.induct) auto

text \<open>The order in which the limits map is visited is irrelevant.\<close>

lemma limit_loop_order:
  assumes "distinct (map fst xs)" and "distinct (map fst ys)" and "set xs = set ys"
  shows "limit_loop approx xs d = limit_loop approx ys d"
  using map_of_inject_set [OF assms(1,2)] assms(3) by (simp add: limit_loop_map_of)

section \<open>Paging\<close>

text \<open>The server answers the requests of the loop with these pages, the last without a
  continue token; every request repeats the selector, the limit and the resource version.\<close>

fun serves :: "(nat \<Rightarrow> ListOptions \<Rightarrow> string + 'q PodList) \<Rightarrow> nat \<Rightarrow> ListOptions \<Rightarrow> 'q PodList list \<Rightarrow> bool" where
  "serves server i opts [] = False"
| "serves server i opts (pg # pgs) =
     (server i opts = Inr pg \<and>
      (if pgs = [] then pl_Continue pg = ''''
       else pl_Continue pg \<noteq> '''' \<and> serves server (Suc i) (opts\<lparr>Continue := pl_Continue pg\<rparr>) pgs))"

lemma list_pods_pages:
  "serves server i opts pgs \<Longrightarrow>
    list_pods server i opts acc = Some (Inr (acc @ concat (map pl_Items pgs)))"
proof (induction pgs arbitrary: i opts acc)
  case Nil
  then show ?case by simp
next
  case (Cons pg pgs)
  then show ?case
    by (cases "pgs = []") (simp_all add: list_pods.simps [of server i opts acc] Let_def)
qed

lemma list_pods_only_pages:
  assumes ret: "list_pods server i opts acc = Some (Inr ps)"
  shows "\<exists>pgs. serves server i opts pgs \<and> ps = acc @ concat (map pl_Items pgs)"
proof -
  have "\<forall>ps. r = Inr ps \<longrightarrow> (\<exists>pgs. serves server i opts pgs \<and> ps = acc @ concat (map pl_Items pgs))"
    if "list_pods server i opts acc = Some r" for r
  proof (rule list_pods.raw_induct [where P = "\<lambda>server i opts acc r. \<forall>ps. r = Inr ps \<longrightarrow>
      (\<exists>pgs. serves server i opts pgs \<and> ps = acc @ concat (map pl_Items pgs))", OF _ that], goal_cases)
    case (1 loop server i opts acc r)
    show ?case
    proof (cases "server i opts")
      case (Inl err)
      then show ?thesis using 1(2) by auto
    next
      case (Inr pg)
      show ?thesis
      proof (cases "pl_Continue pg = ''''")
        case True
        then have "serves server i opts [pg]" using Inr by simp
        then show ?thesis using 1(2) Inr True by (auto simp: Let_def intro: exI [of _ "[pg]"])
      next
        case False
        then have "loop server (Suc i) (opts\<lparr>Continue := pl_Continue pg\<rparr>) (acc @ pl_Items pg) = Some r"
          using 1(2) Inr by (simp add: Let_def)
        from 1(1) [OF this] show ?thesis
        proof (intro allI impI)
          fix ps assume "r = Inr ps"
          with 1(1) [OF \<open>loop server _ _ _ = Some r\<close>] obtain pgs where
            "serves server (Suc i) (opts\<lparr>Continue := pl_Continue pg\<rparr>) pgs"
            "ps = (acc @ pl_Items pg) @ concat (map pl_Items pgs)" by blast
          then show "\<exists>pgs. serves server i opts pgs \<and> ps = acc @ concat (map pl_Items pgs)"
            using Inr False by (intro exI [of _ "pg # pgs"]) auto
        qed
      qed
    qed
  qed
  then show ?thesis using ret by blast
qed

section \<open>The lookup table\<close>

definition pod_entry :: "('q \<Rightarrow> f64) \<Rightarrow> Collector \<Rightarrow> 'q v1_Pod \<Rightarrow> pod" where
  "pod_entry approx cr p = \<lparr>pod_containers = map (\<lambda>c. getContainerData approx cr c p) (p_Containers p)\<rparr>"

definition last_running :: "'q v1_Pod list \<Rightarrow> string \<Rightarrow> 'q v1_Pod option" where
  "last_running pods name = List.find (\<lambda>p. p_Phase p = ''Running'' \<and> p_Name p = name) (rev pods)"

lemma getPodData_fields [simp, frame]:
  "gauges (getPodData approx cr p st) = gauges st"
  "nodeTrackers (getPodData approx cr p st) = nodeTrackers st"
  "scrapeMissTolerance (getPodData approx cr p st) = scrapeMissTolerance st"
  "lookup (getPodData approx cr p st) =
     (if p_Phase p = ''Running'' then (lookup st)(p_Name p \<mapsto> pod_entry approx cr p) else lookup st)"
  by (simp_all add: getPodData_def pod_entry_def)

lemma fold_getPodData:
  "lookup (fold (getPodData approx cr) pods st) name =
     (case last_running pods name of
        Some p \<Rightarrow> Some (pod_entry approx cr p) | None \<Rightarrow> lookup st name)"
  by (induction pods rule: rev_induct) (auto simp: last_running_def)

lemma fold_getPodData_fields [frame]:
  "gauges (fold (getPodData approx cr) pods st) = gauges st"
  "nodeTrackers (fold (getPodData approx cr) pods st) = nodeTrackers st"
  "scrapeMissTolerance (fold (getPodData approx cr) pods st) = scrapeMissTolerance st"
  by (induction pods arbitrary: st) simp_all

section \<open>NewCollector\<close>

definition pod_metric_names :: "string set" where
  "pod_metric_names = (fq_name \<circ> snd) ` set pod_descs"

lemmas pod_descs_unfold = pod_descs_def pod_usage_and_limit_descs_def container_bytes_descs_def
  container_percentage_and_inode_descs_def pod_inode_descs_def

lemma pod_descs_valid: "list_all (\<lambda>(k, d). valid_desc d) pod_descs"
  by (simp add: pod_descs_unfold valid_desc_def valid_name_def name_char_def Let_def)

lemma pod_descs_distinct_names: "distinct (map (fq_name \<circ> snd) pod_descs)"
  by (simp add: pod_descs_unfold)

lemma pod_descs_vecs: "map fst pod_descs = all_pod_vecs"
  by (simp add: pod_descs_unfold all_pod_vecs_def)

lemma distinct_all_pod_vecs: "distinct all_pod_vecs"
  by (simp add: all_pod_vecs_def)

lemma pod_desc_in: "(k, pod_desc k) \<in> set pod_descs"
proof -
  have "k \<in> fst ` set pod_descs"
    using all_pod_vecs_UNIV pod_descs_vecs by (metis UNIV_I list.set_map)
  then obtain d where "map_of pod_descs k = Some d"
    by (metis domD dom_map_of_conv_image_fst)
  then show ?thesis by (simp add: pod_desc_def map_of_SomeD)
qed

lemma miss_tolerance_pos: "1 \<le> sint (miss_tolerance env)"
  by (auto simp: miss_tolerance_def Let_def word_sless_alt not_less)

context prometheus
begin

lemma createMetrics_ok:
  assumes "pod_metric_names \<inter> registered_names P r = {}"
  shows "\<exists>st' r'. createMetrics P (st, r) = Some (st', r') \<and> pod_initialised P st' \<and>
    (\<forall>k ls. pod_reading P st' k ls = None) \<and> st' = st\<lparr>gauges := gauges st'\<rparr> \<and>
    registered_names P r' = registered_names P r \<union> pod_metric_names"
proof -
  have valid: "\<forall>(k, d) \<in> set pod_descs. valid_desc d"
    using pod_descs_valid by (simp add: list_all_iff)
  have fresh: "\<forall>(k, d) \<in> set pod_descs. fq_name d \<notin> registered_names P r"
    using assms by (force simp: pod_metric_names_def)
  have keys: "distinct (map fst pod_descs)"
    by (simp add: pod_descs_vecs distinct_all_pod_vecs)
  obtain gs r' where *: "for_each (create_gauge P) pod_descs (gauges st, r) = Some (gs, r')"
      "registered_names P r' = registered_names P r \<union> (fq_name \<circ> snd) ` set pod_descs"
      "\<forall>(k, d) \<in> set pod_descs. \<exists>g. gs k = Some g \<and> desc_of P g = d \<and> sample P g = Map.empty"
    using create_all_ok [OF valid pod_descs_distinct_names fresh keys] by blast
  have made: "\<exists>g. gs k = Some g \<and> desc_of P g = pod_desc k \<and> sample P g = Map.empty" for k
    using bspec [OF *(3) pod_desc_in [of k]] by simp
  have "initialised P pod_desc UNIV gs" using made by (auto simp: initialised_def)
  moreover have "reading P gs k ls = None" for k ls
    using made [of k] by (auto simp: reading_def)
  ultimately show ?thesis
    using *(1,2) by (intro exI [of _ "st\<lparr>gauges := gs\<rparr>"] exI [of _ r'])
      (simp add: createMetrics_def pod_metric_names_def)
qed

lemma NewCollector_ok:
  assumes fresh: "pod_metric_names \<inter> registered_names P r = {}"
    and cfg: "\<not> (DeployAsDaemonSet env \<and> CurrentNodeName env = '''')"
  shows "\<exists>st' r'. NewCollector P env si (st, r) =
      Inr (collector_config env si, st', r',
        env_bool env ''EPHEMERAL_STORAGE_CONTAINER_LIMIT_PERCENTAGE''
        \<or> env_bool env ''EPHEMERAL_STORAGE_CONTAINER_VOLUME_LIMITS_PERCENTAGE'') \<and>
    pod_initialised P st' \<and> (\<forall>k ls. pod_reading P st' k ls = None) \<and>
    lookup st' = Map.empty \<and> nodeTrackers st' = nodeTrackers st \<and>
    scrapeMissTolerance st' = miss_tolerance env \<and>
    registered_names P r' = registered_names P r \<union> pod_metric_names"
proof -
  obtain st1 r' where *: "createMetrics P (st\<lparr>lookup := Map.empty\<rparr>, r) = Some (st1, r')"
      "pod_initialised P st1" "\<forall>k ls. pod_reading P st1 k ls = None"
      "st1 = st\<lparr>lookup := Map.empty\<rparr>\<lparr>gauges := gauges st1\<rparr>"
      "registered_names P r' = registered_names P r \<union> pod_metric_names"
    using createMetrics_ok [OF fresh, of "st\<lparr>lookup := Map.empty\<rparr>"] by blast
  have "lookup st1 = Map.empty" "nodeTrackers st1 = nodeTrackers st"
    by (subst *(4), simp)+
  then show ?thesis
    using * cfg by (simp add: NewCollector_def Let_def collector_config_def)
qed

text \<open>The watcher's delete handler.\<close>

lemma podWatch_DeleteFunc_ok:
  assumes "pod_initialised P st" and "obj = Typed p \<or> obj = DeletedFinalStateUnknown (Typed p)"
  shows "\<exists>st'. podWatch_DeleteFunc P obj st = Some st' \<and> pod_initialised P st' \<and>
    st' = st\<lparr>gauges := gauges st', lookup := (lookup st)(p_Name p := None)\<rparr> \<and>
    (\<forall>k ls. pod_reading P st' k ls =
      (if ls ''pod_name'' = Some (p_Name p) then None else pod_reading P st k ls))"
proof -
  let ?s = "st\<lparr>lookup := (lookup st)(p_Name p := None)\<rparr>"
  obtain st' where *: "evictPodByName P (p_Name p) ?s = Some st'" "pod_initialised P st'"
      "\<forall>k ls. pod_reading P st' k ls =
        (if ls ''pod_name'' = Some (p_Name p) then None else pod_reading P ?s k ls)"
      "st' = ?s\<lparr>gauges := gauges st'\<rparr>"
    using evictPodByName_ok [of ?s "p_Name p"] assms(1) by auto
  have "st' = st\<lparr>gauges := gauges st', lookup := (lookup st)(p_Name p := None)\<rparr>"
    by (subst *(4)) simp
  then show ?thesis
    using assms(2) * by (auto simp: podWatch_DeleteFunc_def Let_def)
qed

end

end
