(* ===== verification/GoTime.thy ===== *)
theory GoTime
  imports Prelude "HOL-Library.Signed_Division"
begin

text \<open>
  Durations of Go's \<open>time\<close> package: 64-bit counts of nanoseconds.  A setting in seconds becomes
  \<open>time.Duration(n) * time.Second\<close>, a product that wraps around for settings of more than
  about 292 years.
\<close>

definition Seconds :: "int64 \<Rightarrow> int64" where
  "Seconds n = n * 1000000000"

text \<open>The settings whose duration is a 64-bit number: \<open>max_seconds\<close> is the largest.\<close>

definition max_seconds :: int where
  "max_seconds = 9223372036"

lemma sint_Seconds:
  assumes "\<bar>sint n\<bar> \<le> max_seconds"
  shows "sint (Seconds n) = sint n * 1000000000"
proof -
  have "sint (Seconds n) = signed_take_bit 63 (sint n * 1000000000)"
    by (simp add: Seconds_def sint_word_ariths)
  also have "\<dots> = sint n * 1000000000"
    using assms by (intro signed_take_bit_int_eq_self) (simp_all add: max_seconds_def)
  finally show ?thesis .
qed

lemma max_seconds_plus: "max_seconds + 1 = 9223372037"
  by (simp add: max_seconds_def)

text \<open>One second above the largest setting the product is negative.\<close>

lemma Seconds_overflow: "sint (Seconds (word_of_int (max_seconds + 1))) < 0"
  by (simp add: Seconds_def max_seconds_def)

text \<open>Division of a duration by two, rounding towards zero.\<close>

definition half :: "int64 \<Rightarrow> int64" where
  "half d = word_of_int (sint d sdiv 2)"

lemma sint_half: "sint (half d) = sint d sdiv 2"
proof -
  have r: "- (2 ^ 63) \<le> sint d" "sint d < 2 ^ 63"
    using sint_ge [of d] sint_lt [of d] by simp_all
  have "- (2 ^ 63) \<le> sint d sdiv 2 \<and> sint d sdiv 2 < 2 ^ 63"
  proof (cases "0 \<le> sint d")
    case True
    then have "sint d sdiv 2 = sint d div 2" by (simp add: signed_divide_int_def sgn_if)
    then show ?thesis using True r by auto
  next
    case False
    then have "sint d sdiv 2 = - (- sint d div 2)" by (simp add: signed_divide_int_def sgn_if)
    then show ?thesis using False r by auto
  qed
  then have "signed_take_bit 63 (sint d sdiv 2) = sint d sdiv 2"
    by (intro signed_take_bit_int_eq_self) simp_all
  then show ?thesis
    by (simp add: half_def sint_sbintrunc')
qed

lemma word_sless_sint: "word_sless a b \<longleftrightarrow> sint a < sint b"
  by (simp add: word_sless_alt)

end
