(* ===== verification/NodeCollector.thy ===== *)
theory NodeCollector
  imports PodCollectorSpec GoTime
begin

text \<open>
  \<open>pkg/node\<close>: the node collector.  \<open>metrics.go\<close> (four gauge vectors, \<open>SetMetrics\<close>,
  \<open>evict\<close>), \<open>k8s.go\<close> (the kubelet address, the readiness test, \<open>Query\<close>, the handlers
  of \<open>Watch\<close>) and \<open>factory.go\<close> (\<open>NewCollector\<close>, \<open>StartWatch\<close>).

  The configuration is the record \<open>Node\<close>; the package variables, the node set and the
  endpoint map are the record \<open>node_state\<close>.  \<open>evict\<close> calls the pod package, so it acts on
  both packages' states, the record \<open>packages\<close>.  \<open>backoff.Retry\<close> is an argument, a partial
  function of the policy \<open>Query\<close> gives it.
\<close>

section \<open>State\<close>

datatype node_vec =
  AdjustedPollingRateGaugeVec
| nodeAvailableGaugeVec
| nodeCapacityGaugeVec
| nodePercentageGaugeVec

record Node =
  AdjustedPollingRate :: bool
  deployType :: string
  MaxNodeQueryConcurrency :: int64
  nodeAvailable :: bool
  nodeCapacity :: bool
  nodePercentage :: bool
  sampleInterval :: int64
  scrapeFromKubelet :: bool
  kubeletReadOnlyPort :: int64
  nodeLabelSelector :: string

record ('v, 's) node_state =
  node_gauges :: "(node_vec, 'v) gauge_vars"
  node_set :: 's
  KubeletEndpoint :: "string \<rightharpoonup> string"

record ('v, 's) packages =
  nodes :: "('v, 's) node_state"
  pods :: "'v pod_state"

section \<open>metrics.go\<close>

definition node_descs :: "(node_vec \<times> desc) list" where
  "node_descs = [
     (nodeAvailableGaugeVec, \<lparr>fq_name = ''ephemeral_storage_node_available'',
       metric_help = ''Available ephemeral storage for a node'',
       variable_labels = [''node_name'']\<rparr>),
     (nodeCapacityGaugeVec, \<lparr>fq_name = ''ephemeral_storage_node_capacity'',
       metric_help = ''Capacity of ephemeral storage for a node'',
       variable_labels = [''node_name'']\<rparr>),
     (nodePercentageGaugeVec, \<lparr>fq_name = ''ephemeral_storage_node_percentage'',
       metric_help = ''Percentage of ephemeral storage used on a node'',
       variable_labels = [''node_name'']\<rparr>)]"

definition polling_rate_desc :: "node_vec \<times> desc" where
  "polling_rate_desc =
     (AdjustedPollingRateGaugeVec, \<lparr>fq_name = ''ephemeral_storage_adjusted_polling_rate'',
       metric_help = ''AdjustTime polling rate time after a Node API queries in Milliseconds'',
       variable_labels = [''node_name'']\<rparr>)"

definition node_createMetrics ::
  "('v, 'r) prom_api \<Rightarrow> Node \<Rightarrow> ('v, 's) node_state \<times> 'r \<Rightarrow> (('v, 's) node_state \<times> 'r) option" where
  "node_createMetrics P n = (\<lambda>(ns, r). do {
     (gs, r') \<leftarrow> for_each (create_gauge P)
       (node_descs @ (if AdjustedPollingRate n then [polling_rate_desc] else [])) (node_gauges ns, r);
     Some (ns\<lparr>node_gauges := gs\<rparr>, r') })"

definition node_percentage :: "f64 \<Rightarrow> f64 \<Rightarrow> f64" where
  "node_percentage availableBytes capacityBytes =
     (if Fin 0 < capacityBytes
      then math_Max (capacityBytes - availableBytes) (Fin 0) * Fin 100 / capacityBytes
      else NaN)"

definition node_SetMetrics ::
  "('v, 'r) prom_api \<Rightarrow> Node \<Rightarrow> string \<Rightarrow> f64 \<Rightarrow> f64 \<Rightarrow> ('v, 's) node_state \<Rightarrow>
    ('v, 's) node_state option" where
  "node_SetMetrics P n nodeName availableBytes capacityBytes ns = do {
     let labels = [''node_name'' \<mapsto> nodeName];
     gs \<leftarrow> when_do (nodeAvailable n) (set_gauge P nodeAvailableGaugeVec labels availableBytes) (node_gauges ns);
     gs \<leftarrow> when_do (nodeCapacity n) (set_gauge P nodeCapacityGaugeVec labels capacityBytes) gs;
     gs \<leftarrow> when_do (nodePercentage n)
       (set_gauge P nodePercentageGaugeVec labels (node_percentage availableBytes capacityBytes)) gs;
     Some (ns\<lparr>node_gauges := gs\<rparr>) }"

definition evict ::
  "('v, 'r) prom_api \<Rightarrow> 's set_api \<Rightarrow> Node \<Rightarrow> string \<Rightarrow> ('v, 's) packages \<Rightarrow> ('v, 's) packages option" where
  "evict P S n node pk = do {
     let ns = (nodes pk)\<lparr>node_set := set_remove S node (node_set (nodes pk))\<rparr>;
     let deleteLabel = [''node_name'' \<mapsto> node];
     gs \<leftarrow> for_each (delete_gauge P deleteLabel)
       [nodeAvailableGaugeVec, nodeCapacityGaugeVec, nodePercentageGaugeVec] (node_gauges ns);
     gs \<leftarrow> when_do (AdjustedPollingRate n) (delete_gauge P deleteLabel AdjustedPollingRateGaugeVec) gs;
     ps \<leftarrow> EvictPodByNode P deleteLabel (pods pk);
     Some (pk\<lparr>nodes := ns\<lparr>node_gauges := gs\<rparr>, pods := ps\<rparr>) }"

section \<open>k8s.go\<close>

record NodeAddress =
  addr_Type :: string
  addr_Address :: string

record v1_Node =
  n_Name :: string
  n_Addresses :: "NodeAddress list"
  n_KubeletPort :: "32 word"
  n_ConditionReasons :: "string list"

fun kubelet_endpoint_loop :: "int64 \<Rightarrow> 32 word \<Rightarrow> NodeAddress list \<Rightarrow> string" where
  "kubelet_endpoint_loop readOnlyPort port [] = ''''"
| "kubelet_endpoint_loop readOnlyPort port (addr # addrs) =
     (if addr_Type addr = ''InternalIP'' then
        (if word_sless 0 readOnlyPort
         then ''http://'' @ join_host_port (addr_Address addr) (itoa readOnlyPort)
         else ''https://'' @ join_host_port (addr_Address addr) (itoa (scast port)))
      else kubelet_endpoint_loop readOnlyPort port addrs)"

definition getKubeletEndpoint :: "Node \<Rightarrow> v1_Node \<Rightarrow> string" where
  "getKubeletEndpoint n node =
     kubelet_endpoint_loop (kubeletReadOnlyPort n) (n_KubeletPort node) (n_Addresses node)"

fun checkKubeletStatus :: "string list \<Rightarrow> bool" where
  "checkKubeletStatus [] = False"
| "checkKubeletStatus (reason # reasons) =
     (if reason = ''KubeletReady'' then True else checkKubeletStatus reasons)"

text \<open>One attempt of \<open>Query\<close> sees the endpoint map of its moment and the answers of the
  three clients: the API server proxy (\<open>DoRaw\<close>), and the anonymous and the authenticated HTTP
  client, whose answer is a status code and what reading the body returns.\<close>

record attempt_env =
  endpoints :: "string \<rightharpoonup> string"
  do_raw :: "string \<Rightarrow> string + string"
  client_ano :: "string \<Rightarrow> string + nat \<times> (string + string)"
  client_raw :: "string \<Rightarrow> string + nat \<times> (string + string)"

definition query_operation :: "Node \<Rightarrow> string \<Rightarrow> attempt_env \<Rightarrow> string + string" where
  "query_operation n node e =
     (if \<not> scrapeFromKubelet n \<or> deployType n \<noteq> ''Deployment'' then
        do_raw e (''/api/v1/nodes/'' @ node @ ''/proxy/stats/summary'')
      else case endpoints e node of
        None \<Rightarrow> Inl (''kubelet endpoint not found for node: '' @ node)
      | Some ep \<Rightarrow>
          if ep = '''' then Inl (''kubelet endpoint not found for node: '' @ node)
          else (case (if word_sless 0 (kubeletReadOnlyPort n) then client_ano e else client_raw e)
                       (ep @ ''/stats/summary'') of
              Inl err \<Rightarrow> Inl err
            | Inr (status, body) \<Rightarrow>
                (case body of
                   Inl err \<Rightarrow> Inl err
                 | Inr content \<Rightarrow>
                     if status \<noteq> 200
                     then Inl (''failed to scrape from kubelet endpoint: unexpected status code ''
                            @ nat_digits status @ '': '' @ content)
                     else Inr content)))"

text \<open>The exponential backoff that \<open>Query\<close> retries under: its settings that \<open>Query\<close> sets.  A
  \<open>MaxElapsedTime\<close> of zero means no limit, so \<open>backoff.Retry\<close> is a partial function of the
  policy and the attempts: \<open>None\<close> is a call that never returns.\<close>

record backoff_policy =
  MaxInterval :: int64
  MaxElapsedTime :: int64

type_synonym retry_fun = "backoff_policy \<Rightarrow> (nat \<Rightarrow> string + string) \<Rightarrow> (string + string) option"

definition query_policy :: "Node \<Rightarrow> backoff_policy" where
  "query_policy n = \<lparr>MaxInterval = Seconds 1, MaxElapsedTime = Seconds (sampleInterval n)\<rparr>"

text \<open>\<open>Query\<close>: the result is the pair of the answer and the state; a failed query evicts.
  \<open>None\<close> is a retry that never returns, or a panic of the eviction.\<close>

definition Query ::
  "('v, 'r) prom_api \<Rightarrow> 's set_api \<Rightarrow> retry_fun \<Rightarrow> Node \<Rightarrow> string \<Rightarrow> (nat \<Rightarrow> attempt_env) \<Rightarrow>
    ('v, 's) packages \<Rightarrow> ((string + string) \<times> ('v, 's) packages) option" where
  "Query P S retry n node attempts pk = do {
     answer \<leftarrow> retry (query_policy n) (\<lambda>i. query_operation n node (attempts i));
     case answer of
       Inl err \<Rightarrow> do { pk' \<leftarrow> evict P S n node pk; Some (Inl err, pk') }
     | Inr content \<Rightarrow> Some (Inr content, pk) }"

text \<open>The label selector the informer of \<open>Watch\<close> lists and watches with, empty for all nodes; and
  its handlers.\<close>

definition Watch_selector :: "Node \<Rightarrow> string" where
  "Watch_selector n = nodeLabelSelector n"

definition node_ready ::
  "'s set_api \<Rightarrow> Node \<Rightarrow> v1_Node \<Rightarrow> ('v, 's) node_state \<Rightarrow> ('v, 's) node_state" where
  "node_ready S n p ns =
     (if checkKubeletStatus (n_ConditionReasons p) then
        (let ns = ns\<lparr>node_set := set_add S (n_Name p) (node_set ns)\<rparr> in
         if scrapeFromKubelet n
         then ns\<lparr>KubeletEndpoint := (KubeletEndpoint ns)(n_Name p \<mapsto> getKubeletEndpoint n p)\<rparr>
         else ns)
      else ns)"

definition Watch_AddFunc ::
  "'s set_api \<Rightarrow> Node \<Rightarrow> v1_Node iface \<Rightarrow> ('v, 's) packages \<Rightarrow> ('v, 's) packages option" where
  "Watch_AddFunc S n obj pk =
     (case obj of Typed p \<Rightarrow> Some (pk\<lparr>nodes := node_ready S n p (nodes pk)\<rparr>) | _ \<Rightarrow> Some pk)"

definition Watch_UpdateFunc ::
  "'s set_api \<Rightarrow> Node \<Rightarrow> v1_Node iface \<Rightarrow> ('v, 's) packages \<Rightarrow> ('v, 's) packages option" where
  "Watch_UpdateFunc S n newObj pk =
     (case newObj of Typed p \<Rightarrow> Some (pk\<lparr>nodes := node_ready S n p (nodes pk)\<rparr>) | _ \<Rightarrow> Some pk)"

definition Watch_DeleteFunc ::
  "('v, 'r) prom_api \<Rightarrow> 's set_api \<Rightarrow> Node \<Rightarrow> v1_Node iface \<Rightarrow> ('v, 's) packages \<Rightarrow>
    ('v, 's) packages option" where
  "Watch_DeleteFunc P S n obj pk =
     (let deleted = (case obj of
          Typed p \<Rightarrow> Some p
        | DeletedFinalStateUnknown (Typed p) \<Rightarrow> Some p
        | _ \<Rightarrow> None)
      in case deleted of
           None \<Rightarrow> Some pk
         | Some p \<Rightarrow> do {
             pk' \<leftarrow> evict P S n (n_Name p) pk;
             Some (if scrapeFromKubelet n
                   then pk'\<lparr>nodes := (nodes pk')\<lparr>KubeletEndpoint :=
                          (KubeletEndpoint (nodes pk'))(n_Name p := None)\<rparr>\<rparr>
                   else pk') })"

section \<open>factory.go\<close>

definition node_config :: "environment \<Rightarrow> int64 \<Rightarrow> Node" where
  "node_config env interval =
     \<lparr>AdjustedPollingRate = env_bool env ''ADJUSTED_POLLING_RATE'',
      deployType = GetEnv env ''DEPLOY_TYPE'' ''DaemonSet'',
      MaxNodeQueryConcurrency = atoi (GetEnv env ''MAX_NODE_CONCURRENCY'' ''10''),
      nodeAvailable = env_bool env ''EPHEMERAL_STORAGE_NODE_AVAILABLE'',
      nodeCapacity = env_bool env ''EPHEMERAL_STORAGE_NODE_CAPACITY'',
      nodePercentage = env_bool env ''EPHEMERAL_STORAGE_NODE_PERCENTAGE'',
      sampleInterval = interval,
      scrapeFromKubelet = env_bool env ''SCRAPE_FROM_KUBELET'',
      kubeletReadOnlyPort = atoi (GetEnv env ''KUBELET_READONLY_PORT'' ''0''),
      nodeLabelSelector = GetEnv env ''NODE_LABEL_SELECTOR'' ''''\<rparr>"

definition node_NewCollector ::
  "('v, 'r) prom_api \<Rightarrow> 's set_api \<Rightarrow> environment \<Rightarrow> int64 \<Rightarrow> ('v, 's) node_state \<times> 'r \<Rightarrow>
    stop + Node \<times> ('v, 's) node_state \<times> 'r" where
  "node_NewCollector P S env interval = (\<lambda>(ns, r).
     let n = node_config env interval in
     if deployType n \<noteq> ''Deployment'' \<and> deployType n \<noteq> ''DaemonSet'' then Inl (Exit 1)
     else case node_createMetrics P n
                 (ns\<lparr>node_set := new_set S, KubeletEndpoint := Map.empty\<rparr>, r) of
       None \<Rightarrow> Inl Panic
     | Some (ns', r') \<Rightarrow>
         Inr (n,
           (if deployType n \<noteq> ''Deployment''
            then ns'\<lparr>node_set := set_add S (GetEnv env ''CURRENT_NODE_NAME'' '''') (node_set ns')\<rparr>
            else ns'), r'))"

text \<open>Whether \<open>StartWatch\<close> starts the watch goroutine.\<close>

definition StartWatch :: "Node \<Rightarrow> bool" where
  "StartWatch n \<longleftrightarrow> deployType n = ''Deployment''"

end
