(* ===== verification/NodeCollectorSpec.thy ===== *)
theory NodeCollectorSpec
  imports NodeCollector
begin

text \<open>
  What \<open>pkg/node\<close> promises: registration, the writes of \<open>SetMetrics\<close>, what an eviction
  removes from both packages, what a query does with the clients and what a failed one costs,
  and the watch handlers.
\<close>

section \<open>Readiness of both packages\<close>

definition node_vecs :: "Node \<Rightarrow> node_vec set" where
  "node_vecs n = {nodeAvailableGaugeVec, nodeCapacityGaugeVec, nodePercentageGaugeVec} \<union>
     (if AdjustedPollingRate n then {AdjustedPollingRateGaugeVec} else {})"

definition node_desc :: "node_vec \<Rightarrow> desc" where
  "node_desc k = (case map_of (polling_rate_desc # node_descs) k of
     Some d \<Rightarrow> d | None \<Rightarrow> \<lparr>fq_name = [], metric_help = [], variable_labels = []\<rparr>)"

lemma variable_labels_node_desc: "variable_labels (node_desc k) = [''node_name'']"
  by (cases k) (simp_all add: node_desc_def node_descs_def polling_rate_desc_def)

text \<open>The node vectors are made; the polling rate vector is nil unless it is enabled.\<close>

definition node_initialised :: "('v, 'r) prom_api \<Rightarrow> Node \<Rightarrow> ('v, 's) node_state \<Rightarrow> bool" where
  "node_initialised P n ns \<longleftrightarrow> initialised P node_desc (node_vecs n) (node_gauges ns) \<and>
     (\<not> AdjustedPollingRate n \<longrightarrow> node_gauges ns AdjustedPollingRateGaugeVec = None)"

definition packages_ready :: "('v, 'r) prom_api \<Rightarrow> Node \<Rightarrow> ('v, 's) packages \<Rightarrow> bool" where
  "packages_ready P n pk \<longleftrightarrow>
     node_initialised P n (nodes pk) \<and> pod_initialised P (pods pk) \<and> trackers_ok (pods pk)"

text \<open>The series of the whole exporter.\<close>

datatype vec = NodeVec node_vec | PodVec pod_vec

fun exported :: "('v, 'r) prom_api \<Rightarrow> ('v, 's) packages \<Rightarrow> vec \<Rightarrow> labels \<Rightarrow> f64 option" where
  "exported P pk (NodeVec k) ls = reading P (node_gauges (nodes pk)) k ls"
| "exported P pk (PodVec k) ls = reading P (gauges (pods pk)) k ls"

section \<open>SetMetrics\<close>

definition node_writes :: "Node \<Rightarrow> string \<Rightarrow> f64 \<Rightarrow> f64 \<Rightarrow> node_vec writes" where
  "node_writes n nodeName available capacity =
     (if nodeAvailable n then [(nodeAvailableGaugeVec, [''node_name'' \<mapsto> nodeName], available)] else []) @
     (if nodeCapacity n then [(nodeCapacityGaugeVec, [''node_name'' \<mapsto> nodeName], capacity)] else []) @
     (if nodePercentage n
      then [(nodePercentageGaugeVec, [''node_name'' \<mapsto> nodeName], node_percentage available capacity)] else [])"

lemma node_SetMetrics_eq:
  "node_SetMetrics P n nodeName available capacity ns =
     map_option (\<lambda>gs. ns\<lparr>node_gauges := gs\<rparr>)
       (write_all P (node_writes n nodeName available capacity) (node_gauges ns))"
  by (simp add: node_SetMetrics_def node_writes_def write_all_append_seq write_all_one
      seq_do_fun map_conv_bind_option comp_def Let_def write_all_if)

lemma node_writes_member: "(k, ls, x) \<in> set (node_writes n m a c) \<Longrightarrow>
    ls = [''node_name'' \<mapsto> m] \<and>
    k \<in> {nodeAvailableGaugeVec, nodeCapacityGaugeVec, nodePercentageGaugeVec}"
  by (auto simp: node_writes_def split: if_splits)

lemma node_writes_fit: "\<forall>w \<in> set (node_writes n nodeName available capacity). fits node_desc (node_vecs n) w"
proof
  fix w assume "w \<in> set (node_writes n nodeName available capacity)"
  moreover obtain k ls x where w: "w = (k, ls, x)" by (cases w)
  ultimately have "ls = [''node_name'' \<mapsto> nodeName]" "k \<in> node_vecs n"
    using node_writes_member [of k ls x n nodeName available capacity] by (auto simp: node_vecs_def)
  then show "fits node_desc (node_vecs n) w"
    by (simp add: w fits_def variable_labels_node_desc)
qed

lemma node_writes_not_polling: "(AdjustedPollingRateGaugeVec, ls, x) \<notin> set (node_writes n m a c)"
  by (auto simp: node_writes_def)

lemma set_gauge_other: "set_gauge P k ls x vars = Some vars' \<Longrightarrow> j \<noteq> k \<Longrightarrow> vars' j = vars j"
  by (auto simp: set_gauge_def split: Option.bind_splits)

lemma write_all_other:
  assumes "write_all P ws vars = Some vars'" and "\<And>ls x. (j, ls, x) \<notin> set ws"
  shows "vars' j = vars j"
  using assms(1) unfolding write_all_def
proof (rule for_each_invariant [where P = "\<lambda>v. v j = vars j"], goal_cases)
  case (2 w u u')
  obtain k ls x where w: "w = (k, ls, x)" by (cases w)
  then have "k \<noteq> j" using 2(1) assms(2) by auto
  then show ?case using 2(2,3) w set_gauge_other [of P k ls x u u' j] by simp
qed simp

context prometheus
begin

lemma node_SetMetrics_ok:
  assumes "node_initialised P n ns"
  shows "\<exists>ns'. node_SetMetrics P n m available capacity ns = Some ns' \<and> node_initialised P n ns' \<and>
    ns' = ns\<lparr>node_gauges := node_gauges ns'\<rparr> \<and>
    (\<forall>k ls. reading P (node_gauges ns') k ls =
      (case last_write (node_writes n m available capacity) k ls of
         Some x \<Rightarrow> Some x | None \<Rightarrow> reading P (node_gauges ns) k ls))"
proof -
  obtain gs where gs: "write_all P (node_writes n m available capacity) (node_gauges ns) = Some gs"
      "initialised P node_desc (node_vecs n) gs"
      "\<forall>k ls. reading P gs k ls = (case last_write (node_writes n m available capacity) k ls of
         Some x \<Rightarrow> Some x | None \<Rightarrow> reading P (node_gauges ns) k ls)"
    using write_all_ok [of node_desc "node_vecs n"] assms node_writes_fit
    by (metis (no_types, lifting) node_initialised_def)
  have "gs AdjustedPollingRateGaugeVec = node_gauges ns AdjustedPollingRateGaugeVec"
    using write_all_other [OF gs(1)] node_writes_not_polling by metis
  then show ?thesis
    using gs assms by (intro exI [of _ "ns\<lparr>node_gauges := gs\<rparr>"])
      (simp add: node_SetMetrics_eq node_initialised_def)
qed

text \<open>Evicting a node: out of the set, its series gone from both packages, its tracker gone.\<close>

lemma evict_ok:
  assumes "packages_ready P n pk"
  shows "\<exists>pk'. evict P S n node pk = Some pk' \<and> packages_ready P n pk' \<and>
    node_set (nodes pk') = set_remove S node (node_set (nodes pk)) \<and>
    KubeletEndpoint (nodes pk') = KubeletEndpoint (nodes pk) \<and>
    lookup (pods pk') = lookup (pods pk) \<and>
    scrapeMissTolerance (pods pk') = scrapeMissTolerance (pods pk) \<and>
    nodeTrackers (pods pk') = (nodeTrackers (pods pk))(node := None) \<and>
    (\<forall>k ls. exported P pk' k ls =
      (if ls ''node_name'' = Some node then None else exported P pk k ls))"
proof -
  let ?sel = "[''node_name'' \<mapsto> node]"
  let ?ks = "[nodeAvailableGaugeVec, nodeCapacityGaugeVec, nodePercentageGaugeVec]"
  have init: "initialised P node_desc (node_vecs n) (node_gauges (nodes pk))"
    and nil: "\<not> AdjustedPollingRate n \<longrightarrow> node_gauges (nodes pk) AdjustedPollingRateGaugeVec = None"
    and pinit: "pod_initialised P (pods pk)" and tr: "trackers_ok (pods pk)"
    using assms by (auto simp: packages_ready_def node_initialised_def)
  obtain g1 where g1: "for_each (delete_gauge P ?sel) ?ks (node_gauges (nodes pk)) = Some g1"
      "initialised P node_desc (node_vecs n) g1"
      "\<forall>k ls. reading P g1 k ls = (if k \<in> set ?ks \<and> ?sel \<subseteq>\<^sub>m ls then None
         else reading P (node_gauges (nodes pk)) k ls)"
    using delete_all_ok [OF init, of ?ks ?sel] by (auto simp: node_vecs_def)
  have g1_polling: "g1 AdjustedPollingRateGaugeVec = node_gauges (nodes pk) AdjustedPollingRateGaugeVec"
    using g1(1) by (auto simp: delete_gauge_def split: Option.bind_splits)
  obtain g2 where g2: "when_do (AdjustedPollingRate n) (delete_gauge P ?sel AdjustedPollingRateGaugeVec) g1 = Some g2"
      "initialised P node_desc (node_vecs n) g2"
      "\<forall>k ls. reading P g2 k ls = (if ?sel \<subseteq>\<^sub>m ls then None
         else reading P (node_gauges (nodes pk)) k ls)"
      "\<not> AdjustedPollingRate n \<longrightarrow> g2 AdjustedPollingRateGaugeVec = None"
  proof (cases "AdjustedPollingRate n")
    case True
    then have "AdjustedPollingRateGaugeVec \<in> node_vecs n" by (simp add: node_vecs_def)
    from delete_gauge_ok [OF g1(2) this, of ?sel] obtain g2 where
      d: "delete_gauge P ?sel AdjustedPollingRateGaugeVec g1 = Some g2"
        "initialised P node_desc (node_vecs n) g2"
        "\<forall>k' ls. reading P g2 k' ls =
           (if k' = AdjustedPollingRateGaugeVec \<and> ?sel \<subseteq>\<^sub>m ls then None else reading P g1 k' ls)"
      by blast
    have all: "k \<in> set ?ks \<or> k = AdjustedPollingRateGaugeVec" for k by (cases k) auto
    have "reading P g2 k ls = (if ?sel \<subseteq>\<^sub>m ls then None
         else reading P (node_gauges (nodes pk)) k ls)" for k ls
      using d(3) g1(3) all [of k] by auto
    then show thesis using that [of g2] d(1,2) True by simp
  next
    case False
    have all: "k \<in> set ?ks \<or> k = AdjustedPollingRateGaugeVec" for k by (cases k) auto
    have nil_reading: "reading P (node_gauges (nodes pk)) AdjustedPollingRateGaugeVec ls = None" for ls
      using False nil by (simp add: reading_def)
    have "reading P g1 k ls = (if ?sel \<subseteq>\<^sub>m ls then None
         else reading P (node_gauges (nodes pk)) k ls)" for k ls
      using g1(3) nil_reading [of ls] all [of k] by (auto simp: reading_def g1_polling)
    then show thesis using that [of g1] False g1(2) g1_polling nil by simp
  qed
  obtain ps where ps: "EvictPodByNode P ?sel (pods pk) = Some ps" "pod_initialised P ps"
      "\<forall>k ls. pod_reading P ps k ls = (if ?sel \<subseteq>\<^sub>m ls then None else pod_reading P (pods pk) k ls)"
      "ps = (pods pk)\<lparr>gauges := gauges ps, nodeTrackers := (nodeTrackers (pods pk))(node := None)\<rparr>"
    using EvictPodByNode_ok [OF pinit, of ?sel] by auto
  have f: "nodeTrackers ps = (nodeTrackers (pods pk))(node := None)"
      "scrapeMissTolerance ps = scrapeMissTolerance (pods pk)" "lookup ps = lookup (pods pk)"
    by (subst ps(4), simp)+
  have "seen_ok (scrapeMissTolerance (pods pk)) Map.empty" by (simp add: seen_ok_def)
  then have "trackers_ok ps"
    using tr by (auto simp: trackers_ok_def node_seen_def f)
  moreover define pk' where "pk' = pk\<lparr>nodes := (nodes pk)
      \<lparr>node_set := set_remove S node (node_set (nodes pk)), node_gauges := g2\<rparr>, pods := ps\<rparr>"
  moreover have "evict P S n node pk = Some pk'"
    using g1(1) g2(1) ps(1) by (simp add: evict_def pk'_def Let_def del: for_each.simps)
  moreover have "exported P pk' k ls =
      (if ls ''node_name'' = Some node then None else exported P pk k ls)" for k ls
    using g2(3) ps(3) by (cases k) (simp_all add: pk'_def map_le_singleton_iff)
  ultimately show ?thesis
    using g2 ps(2) f by (intro exI [of _ pk'])
      (simp add: packages_ready_def node_initialised_def pk'_def)
qed

sublocale node_eviction: eviction "\<lambda>node. evict P S n node" "packages_ready P n" "exported P"
  "\<lambda>node ls. ls ''node_name'' = Some node" for S :: "'s set_api" and n
  by unfold_locales (use evict_ok in blast)

end

section \<open>Registration and construction\<close>

definition node_metric_names :: "string set" where
  "node_metric_names = (fq_name \<circ> snd) ` set (polling_rate_desc # node_descs)"

lemma node_descs_valid: "list_all (\<lambda>(k, d). valid_desc d) (polling_rate_desc # node_descs)"
  by (simp add: node_descs_def polling_rate_desc_def valid_desc_def valid_name_def name_char_def Let_def)

lemma node_descs_distinct:
  "distinct (map (fq_name \<circ> snd) (node_descs @ [polling_rate_desc]))"
  "distinct (map fst (node_descs @ [polling_rate_desc]))"
  by (simp_all add: node_descs_def polling_rate_desc_def)

lemma node_descs_desc: "(k, d) \<in> set (polling_rate_desc # node_descs) \<Longrightarrow> d = node_desc k"
  by (auto simp: node_descs_def polling_rate_desc_def node_desc_def)

lemma node_vecs_eq:
  "node_vecs n = fst ` set (node_descs @ (if AdjustedPollingRate n then [polling_rate_desc] else []))"
  by (auto simp: node_vecs_def node_descs_def polling_rate_desc_def)

context prometheus
begin

text \<open>On a fresh registry the constructor succeeds for either deploy type, starts without a
  series, and in DaemonSet mode watches exactly the node it runs on.\<close>

lemma node_createMetrics_ok:
  assumes "node_metric_names \<inter> registered_names P r = {}"
    and nil: "node_gauges ns AdjustedPollingRateGaugeVec = None"
  shows "\<exists>ns' r'. node_createMetrics P n (ns, r) = Some (ns', r') \<and> node_initialised P n ns' \<and>
    (\<forall>k ls. reading P (node_gauges ns') k ls = None) \<and> ns' = ns\<lparr>node_gauges := node_gauges ns'\<rparr> \<and>
    registered_names P r \<subseteq> registered_names P r' \<and>
    registered_names P r' \<subseteq> registered_names P r \<union> node_metric_names"
proof -
  let ?kds = "node_descs @ (if AdjustedPollingRate n then [polling_rate_desc] else [])"
  have sub: "set ?kds \<subseteq> set (polling_rate_desc # node_descs)" by auto
  have valid: "\<forall>(k, d) \<in> set ?kds. valid_desc d"
    using node_descs_valid sub unfolding list_all_iff by blast
  have fresh: "\<forall>(k, d) \<in> set ?kds. fq_name d \<notin> registered_names P r"
  proof clarify
    fix k d assume "(k, d) \<in> set ?kds" and reg: "fq_name d \<in> registered_names P r"
    then have "(k, d) \<in> set (polling_rate_desc # node_descs)" using sub by blast
    then have "(fq_name \<circ> snd) (k, d) \<in> node_metric_names"
      unfolding node_metric_names_def by (rule imageI)
    then show False using assms(1) reg by auto
  qed
  have names: "distinct (map (fq_name \<circ> snd) ?kds)" and keys: "distinct (map fst ?kds)"
    using node_descs_distinct by (auto simp: comp_def)
  obtain gs r' where *: "for_each (create_gauge P) ?kds (node_gauges ns, r) = Some (gs, r')"
      "registered_names P r' = registered_names P r \<union> (fq_name \<circ> snd) ` set ?kds"
      "\<forall>(k, d) \<in> set ?kds. \<exists>g. gs k = Some g \<and> desc_of P g = d \<and> sample P g = Map.empty"
      "\<forall>k. k \<notin> fst ` set ?kds \<longrightarrow> gs k = node_gauges ns k"
    using create_all_ok [OF valid names fresh keys] by blast
  have made: "\<exists>g. gs k = Some g \<and> desc_of P g = node_desc k \<and> sample P g = Map.empty"
    if "k \<in> node_vecs n" for k
  proof -
    have "k \<in> fst ` set ?kds" using \<open>k \<in> node_vecs n\<close> unfolding node_vecs_eq .
    then obtain d where d: "(k, d) \<in> set ?kds" by (metis imageE prod.collapse)
    then have "d = node_desc k" using node_descs_desc sub by blast
    then show ?thesis using bspec [OF *(3) d] by simp
  qed
  have off: "\<not> AdjustedPollingRate n \<longrightarrow> gs AdjustedPollingRateGaugeVec = None"
    using *(4) nil by (auto simp: node_descs_def)
  have "reading P gs k ls = None" for k ls
  proof (cases "k \<in> node_vecs n")
    case True
    then show ?thesis using made by (fastforce simp: reading_def)
  next
    case False
    then have "k = AdjustedPollingRateGaugeVec" "\<not> AdjustedPollingRate n"
      by (cases k, auto simp: node_vecs_def split: if_splits)+
    then show ?thesis using off by (simp add: reading_def)
  qed
  moreover have "node_initialised P n (ns\<lparr>node_gauges := gs\<rparr>)"
    using made off by (auto simp: node_initialised_def initialised_def)
  moreover have "(fq_name \<circ> snd) ` set ?kds \<subseteq> node_metric_names"
    unfolding node_metric_names_def using sub by (rule image_mono)
  ultimately show ?thesis
    using *(1,2) by (intro exI [of _ "ns\<lparr>node_gauges := gs\<rparr>"] exI [of _ r'])
      (auto simp: node_createMetrics_def)
qed

lemma node_NewCollector_ok:
  assumes fresh: "node_metric_names \<inter> registered_names P r = {}"
    and nil: "node_gauges ns AdjustedPollingRateGaugeVec = None"
    and cfg: "GetEnv env ''DEPLOY_TYPE'' ''DaemonSet'' \<in> {''Deployment'', ''DaemonSet''}"
  shows "\<exists>ns' r'. node_NewCollector P S env interval (ns, r) = Inr (node_config env interval, ns', r') \<and>
    node_initialised P (node_config env interval) ns' \<and>
    (\<forall>k ls. reading P (node_gauges ns') k ls = None) \<and>
    KubeletEndpoint ns' = Map.empty \<and>
    node_set ns' = (if DeployAsDaemonSet env then set_add S (CurrentNodeName env) (new_set S) else new_set S) \<and>
    registered_names P r' \<subseteq> registered_names P r \<union> node_metric_names"
proof -
  let ?n = "node_config env interval"
  let ?ns = "ns\<lparr>node_set := new_set S, KubeletEndpoint := Map.empty\<rparr>"
  obtain ns1 r' where *: "node_createMetrics P ?n (?ns, r) = Some (ns1, r')"
      "node_initialised P ?n ns1" "\<forall>k ls. reading P (node_gauges ns1) k ls = None"
      "ns1 = ?ns\<lparr>node_gauges := node_gauges ns1\<rparr>"
      "registered_names P r' \<subseteq> registered_names P r \<union> node_metric_names"
    using node_createMetrics_ok [OF fresh, of ?ns ?n] nil by auto
  have f: "node_set ns1 = new_set S" "KubeletEndpoint ns1 = Map.empty"
    by (subst *(4), simp)+
  have dt: "deployType ?n \<noteq> ''Deployment'' \<longleftrightarrow> DeployAsDaemonSet env"
    using cfg by (auto simp: node_config_def DeployAsDaemonSet_def)
  have ok: "\<not> (deployType ?n \<noteq> ''Deployment'' \<and> deployType ?n \<noteq> ''DaemonSet'')"
    using cfg by (auto simp: node_config_def)
  show ?thesis
    using * f dt ok by (auto simp: node_NewCollector_def Let_def CurrentNodeName_def node_initialised_def)
qed

end

section \<open>Queries\<close>

text \<open>What \<open>backoff.Retry\<close> promises of an exponential backoff.  It makes at least one attempt and
  returns the result of the first successful one, or, when the policy gives up, the error of the
  last one.  With a limit on the elapsed time it returns: it succeeds or gives up.  Without one
  (\<open>MaxElapsedTime\<close> zero) it never gives up: it goes on until an attempt succeeds.\<close>

locale retrying =
  fixes retry :: retry_fun
  assumes retry_success: "retry b op = Some (Inr x) \<Longrightarrow> \<exists>i. op i = Inr x \<and> (\<forall>j < i. \<exists>e. op j = Inl e)"
    and retry_failure: "retry b op = Some (Inl err) \<Longrightarrow> \<exists>i. op i = Inl err \<and> (\<forall>j < i. \<exists>e. op j = Inl e)"
    and limited: "MaxElapsedTime b \<noteq> 0 \<Longrightarrow> retry b op \<noteq> None"
    and unlimited: "MaxElapsedTime b = 0 \<Longrightarrow> retry b op \<noteq> Some (Inl err)"
    and persistent: "op i = Inr x \<Longrightarrow> retry b op \<noteq> None"
begin

lemma first_attempt: "op 0 = Inr x \<Longrightarrow> retry b op = Some (Inr x)"
proof -
  assume op: "op 0 = Inr x"
  then obtain r where r: "retry b op = Some r" using persistent [of op 0 x b] by auto
  show ?thesis
  proof (cases r)
    case (Inl err)
    then obtain i where "op i = Inl err" "\<forall>j < i. \<exists>e. op j = Inl e" using retry_failure r by blast
    then show ?thesis using op by (cases i) auto
  next
    case (Inr y)
    then obtain i where "op i = Inr y" "\<forall>j < i. \<exists>e. op j = Inl e" using retry_success r by blast
    then show ?thesis using op r Inr by (cases i) auto
  qed
qed

lemma no_success:
  assumes "\<And>i. \<exists>e. op i = Inl e"
  shows "retry b op \<noteq> Some (Inr x)"
proof
  assume "retry b op = Some (Inr x)"
  from retry_success [OF this] obtain i where "op i = Inr x" by blast
  moreover obtain e where "op i = Inl e" using assms [of i] by blast
  ultimately show False by simp
qed

lemma never_succeeds: "(\<And>i. \<exists>e. op i = Inl e) \<Longrightarrow> MaxElapsedTime b \<noteq> 0 \<Longrightarrow> \<exists>err. retry b op = Some (Inl err)"
  using limited [of b op] no_success [of op b] by (cases "retry b op"; cases "the (retry b op)") auto

lemma goes_on_forever: "(\<And>i. \<exists>e. op i = Inl e) \<Longrightarrow> MaxElapsedTime b = 0 \<Longrightarrow> retry b op = None"
  using unlimited [of b op] no_success [of op b] by (cases "retry b op"; cases "the (retry b op)") auto

end

text \<open>A reference instance: with a limit, up to \<open>k\<close> further attempts after the first; without one,
  attempts until one succeeds.\<close>

fun retry_times :: "nat \<Rightarrow> (nat \<Rightarrow> string + string) \<Rightarrow> string + string" where
  "retry_times 0 op = op 0"
| "retry_times (Suc k) op = (case op 0 of Inr x \<Rightarrow> Inr x | Inl e \<Rightarrow> retry_times k (\<lambda>i. op (Suc i)))"

partial_function (option) retry_forever :: "nat \<Rightarrow> (nat \<Rightarrow> string + string) \<Rightarrow> string option" where
  "retry_forever i op = (case op i of Inr x \<Rightarrow> Some x | Inl e \<Rightarrow> retry_forever (Suc i) op)"

definition retry_upto :: "nat \<Rightarrow> retry_fun" where
  "retry_upto k b op =
     (if MaxElapsedTime b = 0 then map_option Inr (retry_forever 0 op) else Some (retry_times k op))"

lemma retry_times_result:
  "\<exists>i. op i = retry_times k op \<and> (\<forall>j < i. \<exists>e. op j = Inl e)"
proof (induction k op rule: retry_times.induct)
  case (1 op)
  show ?case by (rule exI [of _ 0]) simp
next
  case (2 k op)
  show ?case
  proof (cases "op 0")
    case (Inl e)
    then obtain i where "op (Suc i) = retry_times k (\<lambda>i. op (Suc i))" "\<forall>j < i. \<exists>e. op (Suc j) = Inl e"
      using 2 by blast
    then show ?thesis
      using Inl by (intro exI [of _ "Suc i"]) (auto simp: less_Suc_eq_0_disj)
  next
    case (Inr x)
    then show ?thesis by (intro exI [of _ 0]) simp
  qed
qed

text \<open>What the unlimited search returns is the first success at or after its start.\<close>

lemma retry_forever_first:
  assumes "retry_forever i op = Some x"
  shows "\<exists>k \<ge> i. op k = Inr x \<and> (\<forall>j. i \<le> j \<and> j < k \<longrightarrow> (\<exists>e. op j = Inl e))"
proof (rule retry_forever.raw_induct [where P = "\<lambda>i op x. \<exists>k \<ge> i. op k = Inr x \<and>
    (\<forall>j. i \<le> j \<and> j < k \<longrightarrow> (\<exists>e. op j = Inl e))", OF _ assms], goal_cases)
  case (1 search i op x)
  show ?case
  proof (cases "op i")
    case (Inl e)
    then obtain k where k: "k \<ge> Suc i" "op k = Inr x" "\<forall>j. Suc i \<le> j \<and> j < k \<longrightarrow> (\<exists>e. op j = Inl e)"
      using 1 by fastforce
    have "\<exists>e. op j = Inl e" if "i \<le> j" "j < k" for j
      using that k(3) Inl by (cases "j = i") auto
    then show ?thesis using k(1,2) by (intro exI [of _ k]) auto
  next
    case (Inr y)
    then show ?thesis using 1(2) by (intro exI [of _ i]) auto
  qed
qed

lemma retry_forever_returns: "op (i + k) = Inr x \<Longrightarrow> retry_forever i op \<noteq> None"
proof (induction k arbitrary: i)
  case 0
  then show ?case by (subst retry_forever.simps) simp
next
  case (Suc k)
  then show ?case by (subst retry_forever.simps) (auto split: sum.split)
qed

interpretation bounded: retrying "retry_upto k" for k
proof unfold_locales
  fix b :: backoff_policy and op :: "nat \<Rightarrow> string + string" and x err :: string
  show "\<exists>i. op i = Inr x \<and> (\<forall>j < i. \<exists>e. op j = Inl e)" if "retry_upto k b op = Some (Inr x)"
    using that retry_times_result [of op k] retry_forever_first [of 0 op x]
    by (auto simp: retry_upto_def split: if_splits)
  show "\<exists>i. op i = Inl err \<and> (\<forall>j < i. \<exists>e. op j = Inl e)" if "retry_upto k b op = Some (Inl err)"
    using that retry_times_result [of op k] by (auto simp: retry_upto_def split: if_splits)
next
  fix b :: backoff_policy and op :: "nat \<Rightarrow> string + string" and i and x :: string
  assume "op i = Inr x"
  then show "retry_upto k b op \<noteq> None"
    using retry_forever_returns [of op 0 i x] by (simp add: retry_upto_def)
qed (simp_all add: retry_upto_def)

lemma query_operation_proxy:
  "\<not> scrapeFromKubelet n \<or> deployType n \<noteq> ''Deployment'' \<Longrightarrow>
    query_operation n node e = do_raw e (''/api/v1/nodes/'' @ node @ ''/proxy/stats/summary'')"
  by (simp add: query_operation_def)

text \<open>A kubelet answer only counts with status 200, a complete body and a known address.\<close>

lemma query_operation_kubelet:
  assumes "scrapeFromKubelet n" and "deployType n = ''Deployment''"
  shows "query_operation n node e = Inr content \<longleftrightarrow>
    (\<exists>ep. endpoints e node = Some ep \<and> ep \<noteq> '''' \<and>
      (if word_sless 0 (kubeletReadOnlyPort n) then client_ano e else client_raw e)
        (ep @ ''/stats/summary'') = Inr (200, Inr content))"
  using assms by (auto simp: query_operation_def split: option.splits sum.splits prod.splits if_splits)

section \<open>The kubelet address and the watch handlers\<close>

lemma kubelet_endpoint_loop_find:
  "kubelet_endpoint_loop ro port addrs =
     (case List.find (\<lambda>a. addr_Type a = ''InternalIP'') addrs of
        None \<Rightarrow> ''''
      | Some a \<Rightarrow> if word_sless 0 ro
          then ''http://'' @ join_host_port (addr_Address a) (itoa ro)
          else ''https://'' @ join_host_port (addr_Address a) (itoa (scast port)))"
  by (induction ro port addrs rule: kubelet_endpoint_loop.induct) auto

lemma checkKubeletStatus_iff [simp]: "checkKubeletStatus reasons \<longleftrightarrow> ''KubeletReady'' \<in> set reasons"
  by (induction reasons) auto

lemma node_ready_fields [simp, frame]:
  "node_gauges (node_ready S n p ns) = node_gauges ns"
  by (simp add: node_ready_def Let_def)

context name_set
begin

lemma node_ready_set:
  "set (to_slice S (node_set (node_ready S n p ns))) =
     (if ''KubeletReady'' \<in> set (n_ConditionReasons p)
      then insert (n_Name p) (set (to_slice S (node_set ns))) else set (to_slice S (node_set ns)))"
  by (simp add: node_ready_def Let_def slice_add)

end

end
