(* ===== verification/Scrape.thy ===== *)
theory Scrape
  imports NodeCollectorSpec
begin

text \<open>
  \<open>cmd/app/main.go\<close>: one scrape of a node (\<open>setMetricsFromSummary\<close>, \<open>setMetrics\<close>), the
  start-up order (\<open>startCollectors\<close>) and the settings \<open>main\<close> reads.  The globals
  \<open>Node\<close>, \<open>Pod\<close>, \<open>sampleInterval\<close> and \<open>sampleIntervalMill\<close> are arguments; the decoder of
  the stats summary is an argument as well.
\<close>

section \<open>The stats summary\<close>

record PodSummary =
  ps_Name :: string
  ps_Namespace :: string
  ps_EphemeralStorage :: pod_figures
  ps_Containers :: "ContainerStats list"
  ps_Volumes :: "Volume list"

record Summary =
  sm_NodeName :: string
  sm_Pods :: "PodSummary list"

definition no_metrics :: "PodSummary \<Rightarrow> bool" where
  "no_metrics p \<longleftrightarrow> (let f = ps_EphemeralStorage p in
     ps_Namespace p = '''' \<or>
     f64_eq (fig_usedBytes f) (Fin 0) \<and> f64_eq (fig_availableBytes f) (Fin 0) \<and>
     f64_eq (fig_capacityBytes f) (Fin 0) \<and> f64_eq (fig_inodes f) (Fin 0) \<and>
     f64_eq (fig_inodesFree f) (Fin 0) \<and> f64_eq (fig_inodesUsed f) (Fin 0))"

text \<open>The body of the second loop over \<open>data.Pods\<close>.\<close>

definition set_pod ::
  "('v, 'r) prom_api \<Rightarrow> Node \<Rightarrow> Collector \<Rightarrow> string \<Rightarrow> PodSummary \<Rightarrow> ('v, 's) packages \<Rightarrow>
    ('v, 's) packages option" where
  "set_pod P n cr nodeName p pk =
     (if no_metrics p then Some pk
      else do {
        let f = ps_EphemeralStorage p;
        ns \<leftarrow> node_SetMetrics P n nodeName (fig_availableBytes f) (fig_capacityBytes f) (nodes pk);
        ps \<leftarrow> SetMetrics P cr (ps_Name p) (ps_Namespace p) nodeName f (ps_Volumes p) (ps_Containers p) (pods pk);
        Some (pk\<lparr>nodes := ns, pods := ps\<rparr>) })"

text \<open>The stale pods go first, then the pods of the summary are set.\<close>

definition apply_summary ::
  "('v, 'r) prom_api \<Rightarrow> (seen_map \<Rightarrow> string list) \<Rightarrow> Node \<Rightarrow> Collector \<Rightarrow> string \<Rightarrow> Summary \<Rightarrow>
    ('v, 's) packages \<Rightarrow> ('v, 's) packages option" where
  "apply_summary P ord n cr nodeName data pk = do {
     let currentPods = map ps_Name (sm_Pods data);
     ps \<leftarrow> EvictStalePods P ord nodeName currentPods (pods pk);
     for_each (set_pod P n cr nodeName) (sm_Pods data) (pk\<lparr>pods := ps\<rparr>) }"

text \<open>The error result is \<open>Inl\<close> its message; a decode error leaves the state alone.\<close>

definition setMetricsFromSummary ::
  "('v, 'r) prom_api \<Rightarrow> (seen_map \<Rightarrow> string list) \<Rightarrow> (string \<Rightarrow> string + Summary) \<Rightarrow> Node \<Rightarrow> Collector \<Rightarrow>
    string \<Rightarrow> string \<Rightarrow> ('v, 's) packages \<Rightarrow> ((string + unit) \<times> ('v, 's) packages) option" where
  "setMetricsFromSummary P ord decode n cr nodeName content pk =
     (case decode content of
        Inl err \<Rightarrow> Some (Inl (''decode stats summary: '' @ err), pk)
      | Inr data \<Rightarrow> do { pk' \<leftarrow> apply_summary P ord n cr nodeName data pk; Some (Inr (), pk') })"

text \<open>The end of \<open>setMetrics\<close>: the adjusted polling rate, in milliseconds.\<close>

definition set_polling_rate ::
  "('v, 'r) prom_api \<Rightarrow> Node \<Rightarrow> string \<Rightarrow> int64 \<Rightarrow> int64 \<Rightarrow> ('v, 's) packages \<Rightarrow>
    ('v, 's) packages option" where
  "set_polling_rate P n nodeName sampleIntervalMill elapsed pk =
     (let adjustTime = sampleIntervalMill - elapsed in
      if AdjustedPollingRate n then do {
        gs \<leftarrow> set_gauge P AdjustedPollingRateGaugeVec [''node_name'' \<mapsto> nodeName] (float64 adjustTime)
               (node_gauges (nodes pk));
        Some (pk\<lparr>nodes := (nodes pk)\<lparr>node_gauges := gs\<rparr>\<rparr>) }
      else Some pk)"

definition setMetrics ::
  "('v, 'r) prom_api \<Rightarrow> 's set_api \<Rightarrow> retry_fun \<Rightarrow>
    (seen_map \<Rightarrow> string list) \<Rightarrow> (string \<Rightarrow> string + Summary) \<Rightarrow> Node \<Rightarrow> Collector \<Rightarrow> int64 \<Rightarrow> string \<Rightarrow>
    (nat \<Rightarrow> attempt_env) \<Rightarrow> int64 \<Rightarrow> ('v, 's) packages \<Rightarrow> ('v, 's) packages option" where
  "setMetrics P S retry ord decode n cr sampleIntervalMill nodeName attempts elapsed pk = do {
     (answer, pk) \<leftarrow> Query P S retry n nodeName attempts pk;
     case answer of
       Inl err \<Rightarrow> Some pk
     | Inr content \<Rightarrow> do {
         (result, pk) \<leftarrow> setMetricsFromSummary P ord decode n cr nodeName content pk;
         case result of
           Inl err \<Rightarrow> Some pk
         | Inr _ \<Rightarrow> set_polling_rate P n nodeName sampleIntervalMill elapsed pk } }"

section \<open>Start-up\<close>

text \<open>\<open>startCollectors\<close> over any constructors, as \<open>collectorDeps\<close> allows: the node collector,
  the pod collector, and only then the node watch.\<close>

definition startCollectors ::
  "('st \<Rightarrow> stop + 'n \<times> 'st) \<Rightarrow> ('st \<Rightarrow> stop + 'p \<times> 'st) \<Rightarrow> ('n \<Rightarrow> 'st \<Rightarrow> 'st) \<Rightarrow> 'st \<Rightarrow>
    stop + ('n \<times> 'p) \<times> 'st" where
  "startCollectors newNodeCollector newPodCollector startNodeWatch st =
     (case newNodeCollector st of
        Inl e \<Rightarrow> Inl e
      | Inr (n, st1) \<Rightarrow>
          (case newPodCollector st1 of
             Inl e \<Rightarrow> Inl e
           | Inr (p, st2) \<Rightarrow> Inr ((n, p), startNodeWatch n st2)))"

text \<open>The process state during start-up: both packages, the Prometheus registry and the
  background goroutines that run.\<close>

record ('v, 's, 'r) process =
  pkgs :: "('v, 's) packages"
  registry :: 'r
  node_watch :: bool
  pod_watch :: bool

definition defaultNewNode ::
  "('v, 'r) prom_api \<Rightarrow> 's set_api \<Rightarrow> environment \<Rightarrow> int64 \<Rightarrow> ('v, 's, 'r) process \<Rightarrow>
    stop + Node \<times> ('v, 's, 'r) process" where
  "defaultNewNode P S env interval st =
     (case node_NewCollector P S env interval (nodes (pkgs st), registry st) of
        Inl e \<Rightarrow> Inl e
      | Inr (n, ns, r) \<Rightarrow> Inr (n, st\<lparr>pkgs := (pkgs st)\<lparr>nodes := ns\<rparr>, registry := r\<rparr>))"

definition defaultNewPod ::
  "('v, 'r) prom_api \<Rightarrow> environment \<Rightarrow> int64 \<Rightarrow> ('v, 's, 'r) process \<Rightarrow>
    stop + Collector \<times> ('v, 's, 'r) process" where
  "defaultNewPod P env interval st =
     (case NewCollector P env interval (pods (pkgs st), registry st) of
        Inl e \<Rightarrow> Inl e
      | Inr (cr, ps, r, watch) \<Rightarrow>
          Inr (cr, st\<lparr>pkgs := (pkgs st)\<lparr>pods := ps\<rparr>, registry := r, pod_watch := watch\<rparr>))"

definition defaultStartWatch :: "Node \<Rightarrow> ('v, 's, 'r) process \<Rightarrow> ('v, 's, 'r) process" where
  "defaultStartWatch n st = (if StartWatch n then st\<lparr>node_watch := True\<rparr> else st)"

text \<open>The settings of \<open>main\<close> and its start-up, from the zero state of a fresh process.\<close>

definition scrape_interval :: "environment \<Rightarrow> int64" where
  "scrape_interval env = parse_int (GetEnv env ''SCRAPE_INTERVAL'' ''15'')"

definition sample_interval_mill :: "environment \<Rightarrow> int64" where
  "sample_interval_mill env = scrape_interval env * 1000"

definition zero_packages :: "'s set_api \<Rightarrow> ('v, 's) packages" where
  "zero_packages S =
     \<lparr>nodes = \<lparr>node_gauges = (\<lambda>_. None), node_set = new_set S, KubeletEndpoint = Map.empty\<rparr>,
      pods = \<lparr>gauges = (\<lambda>_. None), nodeTrackers = Map.empty, scrapeMissTolerance = 0,
              lookup = Map.empty\<rparr>\<rparr>"

definition boot ::
  "('v, 'r) prom_api \<Rightarrow> 's set_api \<Rightarrow> environment \<Rightarrow> 'r \<Rightarrow>
    stop + (Node \<times> Collector) \<times> ('v, 's, 'r) process" where
  "boot P S env r =
     startCollectors (defaultNewNode P S env (scrape_interval env))
       (defaultNewPod P env (scrape_interval env)) defaultStartWatch
       \<lparr>pkgs = zero_packages S, registry = r, node_watch = False, pod_watch = False\<rparr>"

end
