(* ===== verification/ScrapeSpec.thy ===== *)
theory ScrapeSpec
  imports Scrape
begin

text \<open>
  What a scrape does to the exporter as a whole: a decoded summary is a sequence of
  gauge writes after the stale pods are gone, a summary that does not decode changes nothing,
  a query that fails costs the node its series.  And start-up: the order of \<open>startCollectors\<close>
  is what makes an early eviction safe.
\<close>

section \<open>A summary as writes\<close>

definition tag_writes :: "('k \<Rightarrow> vec) \<Rightarrow> 'k writes \<Rightarrow> vec writes" where
  "tag_writes tag ws = map (\<lambda>(k, ls, x). (tag k, ls, x)) ws"

lemma last_write_tag: "inj tag \<Longrightarrow> last_write (tag_writes tag ws) (tag k) ls = last_write ws k ls"
  by (induction ws k ls rule: last_write.induct) (auto simp: tag_writes_def inj_eq split: option.splits)

lemma last_write_other_tag: "v \<notin> range tag \<Longrightarrow> last_write (tag_writes tag ws) v ls = None"
  by (auto simp: last_write_None tag_writes_def)

lemma last_write_tags [simp]:
  "last_write (tag_writes NodeVec ws) (NodeVec k) ls = last_write ws k ls"
  "last_write (tag_writes PodVec us) (PodVec j) ls = last_write us j ls"
  "last_write (tag_writes PodVec us) (NodeVec k) ls = None"
  "last_write (tag_writes NodeVec ws) (PodVec j) ls = None"
  by (simp_all add: last_write_tag last_write_other_tag inj_def image_iff)

definition summary_pod_writes ::
  "Node \<Rightarrow> Collector \<Rightarrow> (string \<rightharpoonup> pod) \<Rightarrow> string \<Rightarrow> PodSummary \<Rightarrow> vec writes" where
  "summary_pod_writes n cr table nodeName p =
     (if no_metrics p then []
      else let f = ps_EphemeralStorage p in
        tag_writes NodeVec (node_writes n nodeName (fig_availableBytes f) (fig_capacityBytes f)) @
        tag_writes PodVec (pod_writes cr (table (ps_Name p)) (ps_Name p) (ps_Namespace p) nodeName f
          (ps_Volumes p) (ps_Containers p)))"

definition summary_writes ::
  "Node \<Rightarrow> Collector \<Rightarrow> (string \<rightharpoonup> pod) \<Rightarrow> string \<Rightarrow> PodSummary list \<Rightarrow> vec writes" where
  "summary_writes n cr table nodeName ps = concat (map (summary_pod_writes n cr table nodeName) ps)"

text \<open>What a scrape leaves alone: the node set, the endpoints, the pod table, the tolerance.\<close>

definition surroundings :: "('v, 's) packages \<Rightarrow> 's \<times> (string \<rightharpoonup> string) \<times> (string \<rightharpoonup> pod) \<times> int64" where
  "surroundings pk = (node_set (nodes pk), KubeletEndpoint (nodes pk), lookup (pods pk),
     scrapeMissTolerance (pods pk))"

lemma surroundings_eq [simp]:
  "surroundings pk = surroundings pk' \<longleftrightarrow>
     node_set (nodes pk) = node_set (nodes pk') \<and> KubeletEndpoint (nodes pk) = KubeletEndpoint (nodes pk')
     \<and> lookup (pods pk) = lookup (pods pk') \<and> scrapeMissTolerance (pods pk) = scrapeMissTolerance (pods pk')"
  by (auto simp: surroundings_def)

definition after_writes ::
  "vec writes \<Rightarrow> (vec \<Rightarrow> labels \<Rightarrow> f64 option) \<Rightarrow> vec \<Rightarrow> labels \<Rightarrow> f64 option" where
  "after_writes ws old k ls = (case last_write ws k ls of Some x \<Rightarrow> Some x | None \<Rightarrow> old k ls)"

lemma after_writes_Nil [simp]: "after_writes [] old = old"
  by (simp add: after_writes_def fun_eq_iff)

lemma after_writes_append: "after_writes (ws @ us) old = after_writes us (after_writes ws old)"
  by (auto simp: after_writes_def fun_eq_iff last_write_append split: option.splits)

lemma trackers_ok_cong:
  "nodeTrackers st' = nodeTrackers st \<Longrightarrow> scrapeMissTolerance st' = scrapeMissTolerance st \<Longrightarrow>
    trackers_ok st \<Longrightarrow> trackers_ok st'"
  by (simp add: trackers_ok_def node_seen_def)

context prometheus
begin

lemma set_pod_ok:
  fixes pk :: "('v, 's) packages"
  assumes "packages_ready P n pk"
  shows "\<exists>pk'. set_pod P n cr nodeName p pk = Some pk' \<and> packages_ready P n pk' \<and>
    surroundings pk' = surroundings pk \<and> nodeTrackers (pods pk') = nodeTrackers (pods pk) \<and>
    exported P pk' = after_writes (summary_pod_writes n cr (lookup (pods pk)) nodeName p) (exported P pk)"
proof (cases "no_metrics p")
  case True
  then show ?thesis using assms by (simp add: set_pod_def summary_pod_writes_def)
next
  case False
  let ?f = "ps_EphemeralStorage p"
  let ?ws = "node_writes n nodeName (fig_availableBytes ?f) (fig_capacityBytes ?f)"
  let ?us = "pod_writes cr (lookup (pods pk) (ps_Name p)) (ps_Name p) (ps_Namespace p) nodeName ?f
    (ps_Volumes p) (ps_Containers p)"
  have ready: "node_initialised P n (nodes pk)" "pod_initialised P (pods pk)" "trackers_ok (pods pk)"
    using assms by (auto simp: packages_ready_def)
  obtain ns where ns: "node_SetMetrics P n nodeName (fig_availableBytes ?f) (fig_capacityBytes ?f) (nodes pk) = Some ns"
      "node_initialised P n ns" "ns = (nodes pk)\<lparr>node_gauges := node_gauges ns\<rparr>"
      "\<forall>k ls. reading P (node_gauges ns) k ls =
        (case last_write ?ws k ls of Some x \<Rightarrow> Some x | None \<Rightarrow> reading P (node_gauges (nodes pk)) k ls)"
    using node_SetMetrics_ok [OF ready(1), of nodeName "fig_availableBytes ?f" "fig_capacityBytes ?f"]
    by (elim exE conjE) (rule that)
  obtain ps where ps: "SetMetrics P cr (ps_Name p) (ps_Namespace p) nodeName ?f (ps_Volumes p)
        (ps_Containers p) (pods pk) = Some ps" "pod_initialised P ps"
      "\<forall>k ls. pod_reading P ps k ls =
        (case last_write ?us k ls of Some x \<Rightarrow> Some x | None \<Rightarrow> pod_reading P (pods pk) k ls)"
      "ps = (pods pk)\<lparr>gauges := gauges ps\<rparr>"
    using SetMetrics_ok [OF ready(2), of cr "ps_Name p" "ps_Namespace p" nodeName ?f "ps_Volumes p" "ps_Containers p"]
    by (elim exE conjE) (rule that)
  have nf: "node_set ns = node_set (nodes pk)" "KubeletEndpoint ns = KubeletEndpoint (nodes pk)"
    by (subst ns(3), simp)+
  have pf: "lookup ps = lookup (pods pk)" "nodeTrackers ps = nodeTrackers (pods pk)"
      "scrapeMissTolerance ps = scrapeMissTolerance (pods pk)"
    by (subst ps(4), simp)+
  have "exported P (pk\<lparr>nodes := ns, pods := ps\<rparr>) k ls =
      after_writes (summary_pod_writes n cr (lookup (pods pk)) nodeName p) (exported P pk) k ls" for k ls
    using False ns(4) ps(3)
    by (cases k) (simp_all add: summary_pod_writes_def after_writes_def last_write_append Let_def
        split: option.splits)
  moreover have "packages_ready P n (pk\<lparr>nodes := ns, pods := ps\<rparr>)"
    using ns(2) ps(2) ready(3) pf by (simp add: packages_ready_def trackers_ok_cong)
  ultimately show ?thesis
    using False ns(1) ps(1) nf pf by (intro exI [of _ "pk\<lparr>nodes := ns, pods := ps\<rparr>"])
      (simp add: set_pod_def Let_def fun_eq_iff)
qed

lemma set_pods_ok:
  fixes pk :: "('v, 's) packages"
  assumes "packages_ready P n pk"
  shows "\<exists>pk'. for_each (set_pod P n cr nodeName) ps pk = Some pk' \<and> packages_ready P n pk' \<and>
    surroundings pk' = surroundings pk \<and> nodeTrackers (pods pk') = nodeTrackers (pods pk) \<and>
    exported P pk' = after_writes (summary_writes n cr (lookup (pods pk)) nodeName ps) (exported P pk)"
  using assms
proof (induction ps arbitrary: pk)
  case Nil
  then show ?case by (simp add: summary_writes_def)
next
  case (Cons p ps)
  obtain pk1 where 1: "set_pod P n cr nodeName p pk = Some pk1" "packages_ready P n pk1"
      "surroundings pk1 = surroundings pk" "nodeTrackers (pods pk1) = nodeTrackers (pods pk)"
      "exported P pk1 = after_writes (summary_pod_writes n cr (lookup (pods pk)) nodeName p) (exported P pk)"
    using set_pod_ok [OF Cons.prems] by blast
  obtain pk2 where 2: "for_each (set_pod P n cr nodeName) ps pk1 = Some pk2" "packages_ready P n pk2"
      "surroundings pk2 = surroundings pk1" "nodeTrackers (pods pk2) = nodeTrackers (pods pk1)"
      "exported P pk2 = after_writes (summary_writes n cr (lookup (pods pk1)) nodeName ps) (exported P pk1)"
    using Cons.IH [OF 1(2)] by blast
  have "lookup (pods pk1) = lookup (pods pk)" using 1(3) by simp
  with 1 2 show ?case
    by (intro exI [of _ pk2]) (simp add: summary_writes_def after_writes_append)
qed

end

section \<open>The stale pods, the writes, the polling rate\<close>

fun stale_series :: "string set \<Rightarrow> vec \<Rightarrow> labels \<Rightarrow> bool" where
  "stale_series dead (NodeVec k) ls = False"
| "stale_series dead (PodVec k) ls = (\<exists>p \<in> dead. ls ''pod_name'' = Some p)"

definition dropped ::
  "(vec \<Rightarrow> labels \<Rightarrow> bool) \<Rightarrow> (vec \<Rightarrow> labels \<Rightarrow> f64 option) \<Rightarrow> vec \<Rightarrow> labels \<Rightarrow> f64 option" where
  "dropped dead old k ls = (if dead k ls then None else old k ls)"

definition polling_writes :: "Node \<Rightarrow> string \<Rightarrow> int64 \<Rightarrow> int64 \<Rightarrow> vec writes" where
  "polling_writes n nodeName sampleIntervalMill elapsed =
     (if AdjustedPollingRate n
      then [(NodeVec AdjustedPollingRateGaugeVec, [''node_name'' \<mapsto> nodeName],
             float64 (sampleIntervalMill - elapsed))]
      else [])"

definition listed_pods :: "Summary \<Rightarrow> string list" where
  "listed_pods data = map ps_Name (sm_Pods data)"

definition node_stale :: "('v, 's) packages \<Rightarrow> string \<Rightarrow> Summary \<Rightarrow> string set" where
  "node_stale pk nodeName data =
     stale_pods (scrapeMissTolerance (pods pk)) (listed_pods data) (node_seen (pods pk) nodeName)"

lemma trackers_ok_finite: "trackers_ok st \<Longrightarrow> finite (dom (node_seen st m))"
  by (simp add: trackers_ok_def seen_ok_def)

lemma trackers_ok_upd:
  assumes "trackers_ok st" and "nodeTrackers st' = (nodeTrackers st)(m := t)"
    and "scrapeMissTolerance st' = scrapeMissTolerance st"
    and "\<And>seen. t = Some seen \<Longrightarrow> seen_ok (scrapeMissTolerance st) seen"
  shows "trackers_ok st'"
proof -
  have "seen_ok (scrapeMissTolerance st) Map.empty" by (simp add: seen_ok_def)
  moreover have "seen_ok (scrapeMissTolerance st) (node_seen st i)" for i
    using assms(1) by (simp add: trackers_ok_def)
  moreover have "node_seen st' i = (if i = m then (case t of None \<Rightarrow> Map.empty | Some s \<Rightarrow> s) else node_seen st i)" for i
    using assms(2) by (simp add: node_seen_def)
  ultimately show ?thesis
    using assms(1,3,4) by (cases t) (simp_all add: trackers_ok_def)
qed

context prometheus
begin

lemma evict_stale_ok:
  fixes pk :: "('v, 's) packages"
  assumes "packages_ready P n pk" and "range_order ord"
  shows "\<exists>ps. EvictStalePods P ord nodeName (listed_pods data) (pods pk) = Some ps \<and>
    packages_ready P n (pk\<lparr>pods := ps\<rparr>) \<and> surroundings (pk\<lparr>pods := ps\<rparr>) = surroundings pk \<and>
    nodeTrackers ps = (nodeTrackers (pods pk))(nodeName \<mapsto>
      stale_seen (scrapeMissTolerance (pods pk)) (listed_pods data) (node_seen (pods pk) nodeName)) \<and>
    exported P (pk\<lparr>pods := ps\<rparr>) = dropped (stale_series (node_stale pk nodeName data)) (exported P pk)"
proof -
  have ready: "node_initialised P n (nodes pk)" "pod_initialised P (pods pk)" "trackers_ok (pods pk)"
    using assms(1) by (auto simp: packages_ready_def)
  let ?tol = "scrapeMissTolerance (pods pk)"
  obtain ps where ps: "EvictStalePods P ord nodeName (listed_pods data) (pods pk) = Some ps" "pod_initialised P ps"
      "ps = (pods pk)\<lparr>gauges := gauges ps, nodeTrackers := (nodeTrackers (pods pk))
        (nodeName \<mapsto> stale_seen ?tol (listed_pods data) (node_seen (pods pk) nodeName))\<rparr>"
      "\<forall>k ls. pod_reading P ps k ls =
        (if \<exists>p \<in> stale_pods ?tol (listed_pods data) (node_seen (pods pk) nodeName). ls ''pod_name'' = Some p
         then None else pod_reading P (pods pk) k ls)"
    using EvictStalePods_ok [OF ready(2) assms(2) trackers_ok_finite [OF ready(3)], of nodeName "listed_pods data"]
    by (elim exE conjE) (rule that)
  have pf: "lookup ps = lookup (pods pk)" "scrapeMissTolerance ps = ?tol"
      "nodeTrackers ps = (nodeTrackers (pods pk))
        (nodeName \<mapsto> stale_seen ?tol (listed_pods data) (node_seen (pods pk) nodeName))"
    by (subst ps(3), simp)+
  have "trackers_ok ps"
    by (rule trackers_ok_upd [OF ready(3) pf(3,2)])
      (use ready(3) in \<open>auto simp: trackers_ok_def intro: seen_ok_stale_seen\<close>)
  moreover have "exported P (pk\<lparr>pods := ps\<rparr>) k ls =
      dropped (stale_series (node_stale pk nodeName data)) (exported P pk) k ls" for k ls
    using ps(4) by (cases k) (simp_all add: dropped_def node_stale_def)
  ultimately show ?thesis
    using ps(1,2) ready(1) pf by (intro exI [of _ ps]) (simp add: packages_ready_def fun_eq_iff)
qed

text \<open>A decoded summary.\<close>

lemma apply_summary_ok:
  fixes pk :: "('v, 's) packages"
  assumes "packages_ready P n pk" and "range_order ord"
  shows "\<exists>pk'. apply_summary P ord n cr nodeName data pk = Some pk' \<and> packages_ready P n pk' \<and>
    surroundings pk' = surroundings pk \<and>
    nodeTrackers (pods pk') = (nodeTrackers (pods pk))(nodeName \<mapsto>
      stale_seen (scrapeMissTolerance (pods pk)) (listed_pods data) (node_seen (pods pk) nodeName)) \<and>
    exported P pk' = after_writes (summary_writes n cr (lookup (pods pk)) nodeName (sm_Pods data))
      (dropped (stale_series (node_stale pk nodeName data)) (exported P pk))"
proof -
  obtain ps where ps: "EvictStalePods P ord nodeName (listed_pods data) (pods pk) = Some ps"
      "packages_ready P n (pk\<lparr>pods := ps\<rparr>)" "surroundings (pk\<lparr>pods := ps\<rparr>) = surroundings pk"
      "nodeTrackers ps = (nodeTrackers (pods pk))(nodeName \<mapsto>
        stale_seen (scrapeMissTolerance (pods pk)) (listed_pods data) (node_seen (pods pk) nodeName))"
      "exported P (pk\<lparr>pods := ps\<rparr>) = dropped (stale_series (node_stale pk nodeName data)) (exported P pk)"
    using evict_stale_ok [OF assms, of nodeName data] by (elim exE conjE) (rule that)
  obtain pk' where pk': "for_each (set_pod P n cr nodeName) (sm_Pods data) (pk\<lparr>pods := ps\<rparr>) = Some pk'"
      "packages_ready P n pk'" "surroundings pk' = surroundings (pk\<lparr>pods := ps\<rparr>)"
      "nodeTrackers (pods pk') = nodeTrackers (pods (pk\<lparr>pods := ps\<rparr>))"
      "exported P pk' = after_writes (summary_writes n cr (lookup (pods (pk\<lparr>pods := ps\<rparr>))) nodeName (sm_Pods data))
        (exported P (pk\<lparr>pods := ps\<rparr>))"
    using set_pods_ok [OF ps(2), of cr nodeName "sm_Pods data"] by (elim exE conjE) (rule that)
  have "lookup ps = lookup (pods pk)" using ps(3) by simp
  then show ?thesis
    using ps pk' by (intro exI [of _ pk']) (simp add: apply_summary_def listed_pods_def)
qed

lemma set_polling_rate_ok:
  fixes pk :: "('v, 's) packages"
  assumes "packages_ready P n pk"
  shows "\<exists>pk'. set_polling_rate P n nodeName mill elapsed pk = Some pk' \<and> packages_ready P n pk' \<and>
    surroundings pk' = surroundings pk \<and> nodeTrackers (pods pk') = nodeTrackers (pods pk) \<and>
    exported P pk' = after_writes (polling_writes n nodeName mill elapsed) (exported P pk)"
proof (cases "AdjustedPollingRate n")
  case False
  then show ?thesis using assms by (simp add: set_polling_rate_def polling_writes_def)
next
  case True
  let ?w = "(AdjustedPollingRateGaugeVec, [''node_name'' \<mapsto> nodeName], float64 (mill - elapsed))"
  have init: "initialised P node_desc (node_vecs n) (node_gauges (nodes pk))"
    using assms by (simp add: packages_ready_def node_initialised_def)
  have "fits node_desc (node_vecs n) ?w"
    using True by (simp add: fits_def node_vecs_def variable_labels_node_desc)
  from set_gauge_ok [OF init this] obtain gs where
    gs: "set_gauge P AdjustedPollingRateGaugeVec [''node_name'' \<mapsto> nodeName]
        (float64 (mill - elapsed)) (node_gauges (nodes pk)) = Some gs"
      "initialised P node_desc (node_vecs n) gs"
      "\<forall>k' ls'. reading P gs k' ls' = (if k' = AdjustedPollingRateGaugeVec \<and> ls' = [''node_name'' \<mapsto> nodeName]
        then Some (float64 (mill - elapsed)) else reading P (node_gauges (nodes pk)) k' ls')"
    by (elim exE conjE) (rule that)
  define pk' where "pk' = pk\<lparr>nodes := (nodes pk)\<lparr>node_gauges := gs\<rparr>\<rparr>"
  have "exported P pk' k ls = after_writes (polling_writes n nodeName mill elapsed) (exported P pk) k ls" for k ls
    using True gs(3) by (cases k) (simp_all add: pk'_def after_writes_def polling_writes_def)
  then show ?thesis
    using True gs(1,2) assms by (intro exI [of _ pk'])
      (simp add: set_polling_rate_def pk'_def packages_ready_def node_initialised_def Let_def fun_eq_iff)
qed

end

section \<open>setMetrics\<close>

text \<open>The answer \<open>Query\<close> works with, after the retries; \<open>None\<close> when they never end.\<close>

definition query_answer ::
  "retry_fun \<Rightarrow> Node \<Rightarrow> string \<Rightarrow> (nat \<Rightarrow> attempt_env) \<Rightarrow> (string + string) option" where
  "query_answer retry n nodeName attempts =
     retry (query_policy n) (\<lambda>i. query_operation n nodeName (attempts i))"

text \<open>The queries of a node end: the policy limits the elapsed time.\<close>

lemma query_answer_returns:
  "retrying retry \<Longrightarrow> Seconds (sampleInterval n) \<noteq> 0 \<Longrightarrow> query_answer retry n nodeName attempts \<noteq> None"
  using retrying.limited [of retry "query_policy n"] by (simp add: query_answer_def query_policy_def)

lemma setMetrics_never_returns:
  "query_answer retry n nodeName attempts = None \<Longrightarrow>
    setMetrics P S retry ord decode n cr mill nodeName attempts elapsed pk = None"
  by (simp add: setMetrics_def Query_def query_answer_def)

definition node_series :: "string \<Rightarrow> vec \<Rightarrow> labels \<Rightarrow> bool" where
  "node_series m k ls \<longleftrightarrow> ls ''node_name'' = Some m"

lemma setMetrics_undecodable:
  assumes "query_answer retry n nodeName attempts = Some (Inr content)" and "decode content = Inl err"
  shows "setMetrics P S retry ord decode n cr mill nodeName attempts elapsed pk = Some pk"
  using assms by (simp add: setMetrics_def Query_def query_answer_def setMetricsFromSummary_def)

context prometheus
begin

lemma Query_failed:
  fixes pk :: "('v, 's) packages"
  assumes "packages_ready P n pk" and "query_answer retry n nodeName attempts = Some (Inl err)"
  shows "\<exists>pk'. Query P S retry n nodeName attempts pk = Some (Inl err, pk') \<and> packages_ready P n pk' \<and>
    node_set (nodes pk') = set_remove S nodeName (node_set (nodes pk)) \<and>
    KubeletEndpoint (nodes pk') = KubeletEndpoint (nodes pk) \<and>
    lookup (pods pk') = lookup (pods pk) \<and>
    scrapeMissTolerance (pods pk') = scrapeMissTolerance (pods pk) \<and>
    nodeTrackers (pods pk') = (nodeTrackers (pods pk))(nodeName := None) \<and>
    exported P pk' = dropped (node_series nodeName) (exported P pk)"
  using evict_ok [OF assms(1), of S nodeName] assms(2)
  by (auto simp: Query_def query_answer_def dropped_def node_series_def fun_eq_iff)

lemma setMetrics_unreachable:
  fixes pk :: "('v, 's) packages"
  assumes "packages_ready P n pk" and "query_answer retry n nodeName attempts = Some (Inl err)"
  shows "\<exists>pk'. setMetrics P S retry ord decode n cr mill nodeName attempts elapsed pk = Some pk' \<and>
    packages_ready P n pk' \<and>
    node_set (nodes pk') = set_remove S nodeName (node_set (nodes pk)) \<and>
    KubeletEndpoint (nodes pk') = KubeletEndpoint (nodes pk) \<and>
    lookup (pods pk') = lookup (pods pk) \<and>
    scrapeMissTolerance (pods pk') = scrapeMissTolerance (pods pk) \<and>
    nodeTrackers (pods pk') = (nodeTrackers (pods pk))(nodeName := None) \<and>
    exported P pk' = dropped (node_series nodeName) (exported P pk)"
  using Query_failed [OF assms, of S] by (auto simp: setMetrics_def)

lemma setMetrics_scraped:
  fixes pk :: "('v, 's) packages"
  assumes "packages_ready P n pk" and "range_order ord"
    and "query_answer retry n nodeName attempts = Some (Inr content)" and "decode content = Inr data"
  shows "\<exists>pk'. setMetrics P S retry ord decode n cr mill nodeName attempts elapsed pk = Some pk' \<and>
    packages_ready P n pk' \<and> surroundings pk' = surroundings pk \<and>
    nodeTrackers (pods pk') = (nodeTrackers (pods pk))(nodeName \<mapsto>
      stale_seen (scrapeMissTolerance (pods pk)) (listed_pods data) (node_seen (pods pk) nodeName)) \<and>
    exported P pk' = after_writes
      (summary_writes n cr (lookup (pods pk)) nodeName (sm_Pods data) @ polling_writes n nodeName mill elapsed)
      (dropped (stale_series (node_stale pk nodeName data)) (exported P pk))"
proof -
  obtain pk1 where 1: "apply_summary P ord n cr nodeName data pk = Some pk1" "packages_ready P n pk1"
      "surroundings pk1 = surroundings pk"
      "nodeTrackers (pods pk1) = (nodeTrackers (pods pk))(nodeName \<mapsto>
        stale_seen (scrapeMissTolerance (pods pk)) (listed_pods data) (node_seen (pods pk) nodeName))"
      "exported P pk1 = after_writes (summary_writes n cr (lookup (pods pk)) nodeName (sm_Pods data))
        (dropped (stale_series (node_stale pk nodeName data)) (exported P pk))"
    using apply_summary_ok [OF assms(1,2), of cr nodeName data] by (elim exE conjE) (rule that)
  obtain pk2 where 2: "set_polling_rate P n nodeName mill elapsed pk1 = Some pk2" "packages_ready P n pk2"
      "surroundings pk2 = surroundings pk1" "nodeTrackers (pods pk2) = nodeTrackers (pods pk1)"
      "exported P pk2 = after_writes (polling_writes n nodeName mill elapsed) (exported P pk1)"
    using set_polling_rate_ok [OF 1(2), of nodeName mill elapsed] by (elim exE conjE) (rule that)
  from 1(1) 2(1) assms(3,4)
  have "setMetrics P S retry ord decode n cr mill nodeName attempts elapsed pk = Some pk2"
    by (simp add: setMetrics_def Query_def query_answer_def setMetricsFromSummary_def)
  with 1(2-5) 2(2-5) show ?thesis
    by (intro exI [of _ pk2]) (simp add: after_writes_append)
qed

end

context prometheus
begin

lemma setMetrics_total:
  fixes pk :: "('v, 's) packages"
  assumes "packages_ready P n pk" and "range_order ord" and "query_answer retry n nodeName attempts \<noteq> None"
  shows "\<exists>pk'. setMetrics P S retry ord decode n cr mill nodeName attempts elapsed pk = Some pk' \<and>
    packages_ready P n pk'"
proof -
  obtain answer where answer: "query_answer retry n nodeName attempts = Some answer" using assms(3) by auto
  show ?thesis
  proof (cases answer)
    case (Inl err)
    with answer show ?thesis using setMetrics_unreachable [OF assms(1), of retry nodeName attempts err S] by blast
  next
    case (Inr content)
    with answer have q: "query_answer retry n nodeName attempts = Some (Inr content)" by simp
    show ?thesis
    proof (cases "decode content")
      case (Inl err)
      then show ?thesis
        using assms(1) setMetrics_undecodable [where decode = decode, OF q Inl] by blast
    next
      case (Inr data)
      then show ?thesis
        using setMetrics_scraped [where decode = decode, OF assms(1,2) q Inr] by blast
    qed
  qed
qed

end

section \<open>Start-up\<close>

lemma metric_names_disjoint: "pod_metric_names \<inter> node_metric_names = {}"
  by (simp add: pod_metric_names_def node_metric_names_def pod_descs_unfold node_descs_def
      polling_rate_desc_def)

lemma zero_packages_trackers: "node_seen (pods (zero_packages S)) m = Map.empty"
  by (simp add: zero_packages_def node_seen_def)

text \<open>The environment the constructors accept.\<close>

definition env_ok :: "environment \<Rightarrow> bool" where
  "env_ok env \<longleftrightarrow>
     GetEnv env ''DEPLOY_TYPE'' ''DaemonSet'' \<in> {''Deployment'', ''DaemonSet''} \<and>
     \<not> (DeployAsDaemonSet env \<and> CurrentNodeName env = '''')"

context prometheus
begin

lemma boot_ok:
  fixes S :: "'s set_api"
  assumes "env_ok env" and "registered_names P r \<inter> (pod_metric_names \<union> node_metric_names) = {}"
  shows "\<exists>st. boot P S env r =
      Inr ((node_config env (scrape_interval env), collector_config env (scrape_interval env)), st) \<and>
    packages_ready P (node_config env (scrape_interval env)) (pkgs st) \<and>
    (\<forall>k ls. exported P (pkgs st) k ls = None) \<and>
    nodeTrackers (pods (pkgs st)) = Map.empty \<and> lookup (pods (pkgs st)) = Map.empty \<and>
    scrapeMissTolerance (pods (pkgs st)) = miss_tolerance env \<and>
    KubeletEndpoint (nodes (pkgs st)) = Map.empty \<and>
    node_set (nodes (pkgs st)) =
      (if DeployAsDaemonSet env then set_add S (CurrentNodeName env) (new_set S) else new_set S) \<and>
    (node_watch st \<longleftrightarrow> \<not> DeployAsDaemonSet env) \<and>
    (pod_watch st \<longleftrightarrow> env_bool env ''EPHEMERAL_STORAGE_CONTAINER_LIMIT_PERCENTAGE''
      \<or> env_bool env ''EPHEMERAL_STORAGE_CONTAINER_VOLUME_LIMITS_PERCENTAGE'')"
proof -
  let ?i = "scrape_interval env"
  let ?z = "zero_packages S :: ('v, 's) packages"
  have fresh: "node_metric_names \<inter> registered_names P r = {}"
    and cfg: "GetEnv env ''DEPLOY_TYPE'' ''DaemonSet'' \<in> {''Deployment'', ''DaemonSet''}"
    and cfg': "\<not> (DeployAsDaemonSet env \<and> CurrentNodeName env = '''')"
    using assms by (auto simp: env_ok_def)
  have nil: "node_gauges (nodes ?z) AdjustedPollingRateGaugeVec = None"
    by (simp add: zero_packages_def)
  obtain ns r1 where n: "node_NewCollector P S env ?i (nodes ?z, r) = Inr (node_config env ?i, ns, r1)"
      "node_initialised P (node_config env ?i) ns" "\<forall>k ls. reading P (node_gauges ns) k ls = None"
      "KubeletEndpoint ns = Map.empty"
      "node_set ns = (if DeployAsDaemonSet env then set_add S (CurrentNodeName env) (new_set S) else new_set S)"
      "registered_names P r1 \<subseteq> registered_names P r \<union> node_metric_names"
    using node_NewCollector_ok [OF fresh nil cfg, of S ?i] by (elim exE conjE) (rule that)
  have fresh1: "pod_metric_names \<inter> registered_names P r1 = {}"
    using n(6) assms(2) metric_names_disjoint by blast
  obtain ps r2 where p: "NewCollector P env ?i (pods ?z, r1) = Inr (collector_config env ?i, ps, r2,
        env_bool env ''EPHEMERAL_STORAGE_CONTAINER_LIMIT_PERCENTAGE''
        \<or> env_bool env ''EPHEMERAL_STORAGE_CONTAINER_VOLUME_LIMITS_PERCENTAGE'')"
      "pod_initialised P ps" "\<forall>k ls. pod_reading P ps k ls = None" "lookup ps = Map.empty"
      "nodeTrackers ps = nodeTrackers (pods ?z)" "scrapeMissTolerance ps = miss_tolerance env"
    using NewCollector_ok [OF fresh1 cfg', of ?i "pods ?z"] by (elim exE conjE) (rule that)
  have watch: "StartWatch (node_config env ?i) \<longleftrightarrow> \<not> DeployAsDaemonSet env"
    using cfg by (auto simp: StartWatch_def node_config_def DeployAsDaemonSet_def)
  have "trackers_ok ps"
    using miss_tolerance_pos [of env] p(5,6)
    by (simp add: trackers_ok_def node_seen_def seen_ok_def zero_packages_def)
  moreover have "exported P (pk\<lparr>nodes := ns, pods := ps\<rparr>) k ls = None" for pk k ls
    using n(3) p(3) by (cases k) simp_all
  moreover have "nodeTrackers ps = Map.empty" using p(5) by (simp add: zero_packages_def)
  ultimately show ?thesis
    using n(1,2,4,5) p(1,2,4,6) watch
    by (simp add: boot_def startCollectors_def defaultNewNode_def defaultNewPod_def
        defaultStartWatch_def packages_ready_def)
qed

end

text \<open>Before the pod vectors exist an eviction panics: the watch must not start earlier.\<close>

lemma for_each_delete_nil:
  "ks \<noteq> [] \<Longrightarrow> for_each (delete_gauge P sel) ks (\<lambda>_. None) = None"
  by (cases ks) (simp_all add: delete_gauge_def)

lemma evict_before_pods:
  assumes "gauges (pods pk) = (\<lambda>_. None)"
  shows "evict P S n node pk = None"
  using assms
  by (simp add: evict_def EvictPodByNode_def EvictPodByNode_order_def delete_gauge_def Let_def
      del: for_each.simps(2) split: Option.bind_splits)
    (auto simp: delete_gauge_def split: Option.bind_splits)

end
