(* ===== verification/WorkerPool.thy ===== *)
theory WorkerPool
  imports GoTime
begin

text \<open>
  The pool of \<open>panjf2000/ants\<close>, as the scrape loop uses it.  A constructor is a function of the
  size and the expiry duration; it returns an error, or the number of workers the pool admits,
  \<open>None\<close> for no limit.  The locale states the package's documented behaviour: a negative expiry
  is \<open>ErrInvalidPoolExpiry\<close>, a size that is not positive makes an unlimited pool, and a positive
  one that fits into 32 bits, the width the package keeps its capacity in, is the capacity.
\<close>

type_synonym pool_size = "nat option"

type_synonym pool_constructor = "int64 \<Rightarrow> int64 \<Rightarrow> string + pool_size"

locale worker_pool =
  fixes new_pool :: pool_constructor
  assumes invalid_expiry: "sint expiry < 0 \<Longrightarrow> \<exists>err. new_pool sz expiry = Inl err"
    and unlimited: "0 \<le> sint expiry \<Longrightarrow> sint sz \<le> 0 \<Longrightarrow> new_pool sz expiry = Inr None"
    and limited: "0 \<le> sint expiry \<Longrightarrow> 0 < sint sz \<Longrightarrow> sint sz < 2 ^ 31 \<Longrightarrow>
      new_pool sz expiry = Inr (Some (nat (sint sz)))"
    and made: "0 \<le> sint expiry \<Longrightarrow> \<exists>p. new_pool sz expiry = Inr p"

text \<open>\<open>p, _ := NewPoolWithFunc(...)\<close>: the error is dropped, and the pool is nil.\<close>

definition made_pool :: "pool_constructor \<Rightarrow> int64 \<Rightarrow> int64 \<Rightarrow> pool_size option" where
  "made_pool new_pool sz expiry = (case new_pool sz expiry of Inl err \<Rightarrow> None | Inr p \<Rightarrow> Some p)"

text \<open>The pool takes one more job; \<open>Invoke\<close> waits until it does.\<close>

definition pool_free :: "pool_size \<Rightarrow> nat \<Rightarrow> bool" where
  "pool_free p running = (case p of None \<Rightarrow> True | Some capacity \<Rightarrow> running < capacity)"

context worker_pool
begin

lemma made_pool_nil: "made_pool new_pool sz expiry = None \<longleftrightarrow> sint expiry < 0"
  using invalid_expiry [of expiry sz] made [of expiry sz]
  by (cases "sint expiry < 0") (auto simp: made_pool_def)

text \<open>A pool that was made takes a job when it is idle.\<close>

lemma made_pool_free:
  "made_pool new_pool sz expiry = Some p \<Longrightarrow> sint sz < 2 ^ 31 \<Longrightarrow> pool_free p 0"
  using invalid_expiry [of expiry sz] unlimited [of expiry sz] limited [of expiry sz]
  by (cases "sint expiry < 0"; cases "sint sz \<le> 0") (auto simp: made_pool_def pool_free_def)

lemma made_pool_capacity:
  "made_pool new_pool sz expiry = Some (Some capacity) \<Longrightarrow> sint sz < 2 ^ 31 \<Longrightarrow>
    capacity = nat (sint sz)"
  using invalid_expiry [of expiry sz] unlimited [of expiry sz] limited [of expiry sz]
  by (cases "sint expiry < 0"; cases "sint sz \<le> 0") (auto simp: made_pool_def)

lemma made_pool_unlimited:
  "made_pool new_pool sz expiry = Some None \<Longrightarrow> sint sz < 2 ^ 31 \<Longrightarrow> sint sz \<le> 0"
  using invalid_expiry [of expiry sz] limited [of expiry sz]
  by (cases "sint expiry < 0"; cases "sint sz \<le> 0") (auto simp: made_pool_def)

end

text \<open>The reference instance.\<close>

definition ants_pool :: pool_constructor where
  "ants_pool sz expiry =
     (if sint expiry < 0 then Inl ''invalid expiry for pool''
      else Inr (if sint sz \<le> 0 then None else Some (nat (sint sz))))"

interpretation ants: worker_pool ants_pool
  by unfold_locales (simp_all add: ants_pool_def)

end
