(* ===== verification/System.thy ===== *)
theory System
  imports ScrapeSpec WorkerPool
begin

text \<open>
  The running exporter: the scrape loop of \<open>getMetrics\<close> with its pool of workers, the node
  watch and the pod watch, interleaved.  \<open>getMetrics\<close> first waits for the initial pod list or
  for its timeout and then makes the pool.  A worker runs \<open>setMetrics\<close> in four kinds of steps
  (fetch and decode, evict the stale pods, set one pod, adjust the polling rate); a handler call
  of a watch, the entry of one pod of the initial list and the list's end are one step each.  Between two steps any other
  goroutine may run.

  \<open>perform\<close> executes one action, \<open>None\<close> being a panic; \<open>enabled\<close> is the guard under which
  the code runs it to its end: the condition the code waits for, and, for a query, that its retries
  end (a worker whose retries do not end stays where it is); \<open>executes\<close> is the relation between the start and the end of a schedule.
\<close>

section \<open>State and steps\<close>

record ('v, 'r, 's, 'q) deployment =
  prom :: "('v, 'r) prom_api"
  sets :: "'s set_api"
  backoff :: retry_fun
  map_order :: "seen_map \<Rightarrow> string list"
  decoder :: "string \<Rightarrow> string + Summary"
  approximate :: "'q \<Rightarrow> f64"
  new_pool :: pool_constructor
  node_cfg :: Node
  pod_cfg :: Collector
  interval :: int64
  interval_mill :: int64

text \<open>A worker is at one of these points of \<open>setMetrics\<close>.\<close>

datatype job =
  Fetching string
| Evicting string Summary
| Setting string "PodSummary list"
| Adjusting string

fun job_node :: "job \<Rightarrow> string" where
  "job_node (Fetching m) = m"
| "job_node (Evicting m data) = m"
| "job_node (Setting m ps) = m"
| "job_node (Adjusting m) = m"

text \<open>\<open>getMetrics\<close> waits, or loops with the pool it made, \<open>None\<close> being the nil pool.\<close>

datatype loop_state = Waiting | Looping "pool_size option"

text \<open>\<open>listing\<close>: the wait group's counter is not zero, because the initial list is not done.\<close>

record ('v, 's) world =
  packs :: "('v, 's) packages"
  pending :: "string list"
  workers :: "job list"
  scrape_loop :: loop_state
  listing :: bool

datatype 'q action =
  InitDone
| InitTimeout int64
| StartRound
| Invoke
| Work nat "nat \<Rightarrow> attempt_env" int64
| NodeAdded "v1_Node iface"
| NodeUpdated "v1_Node iface"
| NodeDeleted "v1_Node iface"
| PodListed "'q v1_Pod"
| ListDone
| PodUpdated "'q v1_Pod iface"
| PodDeleted "'q v1_Pod iface"

text \<open>One step of a worker; \<open>None\<close> as the next point is the end of the job.\<close>

fun work ::
  "('v, 'r, 's, 'q) deployment \<Rightarrow> (nat \<Rightarrow> attempt_env) \<Rightarrow> int64 \<Rightarrow> job \<Rightarrow> ('v, 's) packages \<Rightarrow>
    (job option \<times> ('v, 's) packages) option" where
  "work s attempts elapsed (Fetching m) pk = do {
     (answer, pk') \<leftarrow> Query (prom s) (sets s) (backoff s) (node_cfg s) m attempts pk;
     Some (case answer of
         Inl err \<Rightarrow> (None, pk')
       | Inr content \<Rightarrow>
           (case decoder s content of Inl err \<Rightarrow> (None, pk') | Inr data \<Rightarrow> (Some (Evicting m data), pk'))) }"
| "work s attempts elapsed (Evicting m data) pk = do {
     ps \<leftarrow> EvictStalePods (prom s) (map_order s) m (listed_pods data) (pods pk);
     Some (Some (Setting m (sm_Pods data)), pk\<lparr>pods := ps\<rparr>) }"
| "work s attempts elapsed (Setting m []) pk = Some (Some (Adjusting m), pk)"
| "work s attempts elapsed (Setting m (p # ps)) pk = do {
     pk' \<leftarrow> set_pod (prom s) (node_cfg s) (pod_cfg s) m p pk;
     Some (Some (Setting m ps), pk') }"
| "work s attempts elapsed (Adjusting m) pk = do {
     pk' \<leftarrow> set_polling_rate (prom s) (node_cfg s) m (interval_mill s) elapsed pk;
     Some (None, pk') }"

definition next_workers :: "nat \<Rightarrow> job option \<Rightarrow> job list \<Rightarrow> job list" where
  "next_workers i j ws = (case j of None \<Rightarrow> take i ws @ drop (Suc i) ws | Some j' \<Rightarrow> ws[i := j'])"

definition init_timeout :: "int64 \<Rightarrow> int64" where
  "init_timeout d = Seconds (d * 2)"

definition pool_of :: "('v, 'r, 's, 'q) deployment \<Rightarrow> pool_size option" where
  "pool_of s = made_pool (new_pool s) (MaxNodeQueryConcurrency (node_cfg s)) (Seconds (interval s))"

definition watches_pods :: "Collector \<Rightarrow> bool" where
  "watches_pods cr \<longleftrightarrow> cr_containerLimitsPercentage cr \<or> cr_containerVolumeLimitsPercentage cr"

text \<open>A worker's step ends unless it is a query whose retries never do.\<close>

fun step_ends :: "('v, 'r, 's, 'q) deployment \<Rightarrow> (nat \<Rightarrow> attempt_env) \<Rightarrow> job \<Rightarrow> bool" where
  "step_ends s attempts (Fetching m) = (query_answer (backoff s) (node_cfg s) m attempts \<noteq> None)"
| "step_ends s attempts j = True"

text \<open>\<open>InitTimeout waited\<close>: the timer of the initial wait fires after \<open>waited\<close>.\<close>

fun enabled :: "('v, 'r, 's, 'q) deployment \<Rightarrow> 'q action \<Rightarrow> ('v, 's) world \<Rightarrow> bool" where
  "enabled s InitDone w = (scrape_loop w = Waiting \<and> \<not> listing w)"
| "enabled s (InitTimeout waited) w =
     (scrape_loop w = Waiting \<and> word_sle (init_timeout (interval s)) waited)"
| "enabled s StartRound w = (scrape_loop w \<noteq> Waiting \<and> pending w = [])"
| "enabled s Invoke w =
     (pending w \<noteq> [] \<and>
      (case scrape_loop w of
         Waiting \<Rightarrow> False
       | Looping None \<Rightarrow> True
       | Looping (Some p) \<Rightarrow> pool_free p (length (workers w))))"
| "enabled s (Work i attempts elapsed) w =
     (i < length (workers w) \<and> step_ends s attempts (workers w ! i))"
| "enabled s (NodeAdded obj) w = StartWatch (node_cfg s)"
| "enabled s (NodeUpdated obj) w = StartWatch (node_cfg s)"
| "enabled s (NodeDeleted obj) w = StartWatch (node_cfg s)"
| "enabled s (PodListed p) w = listing w"
| "enabled s ListDone w = listing w"
| "enabled s (PodUpdated obj) w = (watches_pods (pod_cfg s) \<and> \<not> listing w)"
| "enabled s (PodDeleted obj) w = (watches_pods (pod_cfg s) \<and> \<not> listing w)"

fun perform :: "('v, 'r, 's, 'q) deployment \<Rightarrow> 'q action \<Rightarrow> ('v, 's) world \<Rightarrow> ('v, 's) world option" where
  "perform s InitDone w = Some (w\<lparr>scrape_loop := Looping (pool_of s)\<rparr>)"
| "perform s (InitTimeout waited) w = Some (w\<lparr>scrape_loop := Looping (pool_of s)\<rparr>)"
| "perform s StartRound w = Some (w\<lparr>pending := to_slice (sets s) (node_set (nodes (packs w)))\<rparr>)"
| "perform s Invoke w =
     (if scrape_loop w = Looping None then None
      else Some (w\<lparr>pending := tl (pending w), workers := workers w @ [Fetching (hd (pending w))]\<rparr>))"
| "perform s (Work i attempts elapsed) w = do {
     (j, pk) \<leftarrow> work s attempts elapsed (workers w ! i) (packs w);
     Some (w\<lparr>packs := pk, workers := next_workers i j (workers w)\<rparr>) }"
| "perform s (NodeAdded obj) w = do {
     pk \<leftarrow> Watch_AddFunc (sets s) (node_cfg s) obj (packs w); Some (w\<lparr>packs := pk\<rparr>) }"
| "perform s (NodeUpdated obj) w = do {
     pk \<leftarrow> Watch_UpdateFunc (sets s) (node_cfg s) obj (packs w); Some (w\<lparr>packs := pk\<rparr>) }"
| "perform s (NodeDeleted obj) w = do {
     pk \<leftarrow> Watch_DeleteFunc (prom s) (sets s) (node_cfg s) obj (packs w); Some (w\<lparr>packs := pk\<rparr>) }"
| "perform s (PodListed p) w =
     Some (w\<lparr>packs := (packs w)\<lparr>pods := getPodData (approximate s) (pod_cfg s) p (pods (packs w))\<rparr>\<rparr>)"
| "perform s ListDone w = Some (w\<lparr>listing := False\<rparr>)"
| "perform s (PodUpdated obj) w = do {
     st \<leftarrow> podWatch_UpdateFunc (approximate s) (pod_cfg s) obj (pods (packs w));
     Some (w\<lparr>packs := (packs w)\<lparr>pods := st\<rparr>\<rparr>) }"
| "perform s (PodDeleted obj) w = do {
     st \<leftarrow> podWatch_DeleteFunc (prom s) obj (pods (packs w));
     Some (w\<lparr>packs := (packs w)\<lparr>pods := st\<rparr>\<rparr>) }"

inductive executes ::
  "('v, 'r, 's, 'q) deployment \<Rightarrow> ('v, 's) world \<Rightarrow> 'q action list \<Rightarrow> ('v, 's) world \<Rightarrow> bool"
  for s w0 where
  start: "executes s w0 [] w0"
| act: "executes s w0 as w \<Longrightarrow> enabled s a w \<Longrightarrow> perform s a w = Some w' \<Longrightarrow> executes s w0 (as @ [a]) w'"

inductive_cases executes_snocE: "executes s w0 (as @ [a]) w'"

text \<open>An invariant of the steps holds at the end of every schedule.\<close>

lemma executes_invariant:
  assumes "executes s w0 as w" and "I w0"
    and "\<And>a w w'. a \<in> set as \<Longrightarrow> I w \<Longrightarrow> enabled s a w \<Longrightarrow> perform s a w = Some w' \<Longrightarrow> I w'"
  shows "I w"
  using assms by (induction rule: executes.induct) auto

text \<open>The world a process starts its goroutines from.\<close>

definition started :: "('v, 's, 'r) process \<Rightarrow> ('v, 's) world" where
  "started st = \<lparr>packs = pkgs st, pending = [], workers = [], scrape_loop = Waiting, listing = pod_watch st\<rparr>"

definition deployment_ok :: "('v, 'r, 's, 'q) deployment \<Rightarrow> bool" where
  "deployment_ok s \<longleftrightarrow> prometheus (prom s) \<and> name_set (sets s) \<and> range_order (map_order s) \<and>
     worker_pool (new_pool s) \<and> retrying (backoff s)"

abbreviation world_ready :: "('v, 'r, 's, 'q) deployment \<Rightarrow> ('v, 's) world \<Rightarrow> bool" where
  "world_ready s w \<equiv> packages_ready (prom s) (node_cfg s) (packs w)"

abbreviation series :: "('v, 'r, 's, 'q) deployment \<Rightarrow> ('v, 's) world \<Rightarrow> vec \<Rightarrow> labels \<Rightarrow> f64 option" where
  "series s w \<equiv> exported (prom s) (packs w)"

section \<open>What a step writes\<close>

fun job_writes :: "('v, 'r, 's, 'q) deployment \<Rightarrow> (string \<rightharpoonup> pod) \<Rightarrow> int64 \<Rightarrow> job \<Rightarrow> vec writes" where
  "job_writes s table elapsed (Setting m (p # ps)) = summary_pod_writes (node_cfg s) (pod_cfg s) table m p"
| "job_writes s table elapsed (Adjusting m) = polling_writes (node_cfg s) m (interval_mill s) elapsed"
| "job_writes s table elapsed job = []"

fun action_writes :: "('v, 'r, 's, 'q) deployment \<Rightarrow> ('v, 's) world \<Rightarrow> 'q action \<Rightarrow> vec writes" where
  "action_writes s w (Work i attempts elapsed) =
     job_writes s (lookup (pods (packs w))) elapsed (workers w ! i)"
| "action_writes s w a = []"

end
