(* ===== verification/SystemSpec.thy ===== *)
theory SystemSpec
  imports System
begin

text \<open>
  Safety of the running exporter, over every schedule: no step panics, the miss counters stay
  in bounds, every series carries the labels of its vector, and the nodes that are scraped or
  shown are nodes the watch announced.  And the sequential schedule of a worker is \<open>setMetrics\<close>.
\<close>

section \<open>One step\<close>

definition grows ::
  "(vec \<Rightarrow> labels \<Rightarrow> f64 option) \<Rightarrow> vec writes \<Rightarrow> (vec \<Rightarrow> labels \<Rightarrow> f64 option) \<Rightarrow> bool" where
  "grows old ws new \<longleftrightarrow> (\<forall>k ls x. new k ls = Some x \<longrightarrow> old k ls = Some x \<or> (k, ls, x) \<in> set ws)"

lemma grows_refl [intro, simp]: "grows old ws old"
  by (simp add: grows_def)

lemma grows_after_writes [intro, simp]: "grows old ws (after_writes ws old)"
  by (auto simp: grows_def after_writes_def dest: last_write_Some split: option.splits)

lemma grows_dropped [intro, simp]: "grows old ws (dropped dead old)"
  by (simp add: grows_def dropped_def)

lemma growsD: "grows old ws new \<Longrightarrow> new k ls = Some x \<Longrightarrow> old k ls = Some x \<or> (k, ls, x) \<in> set ws"
  by (simp add: grows_def)

context prometheus
begin

lemma work_ok:
  fixes s :: "('v, 'r, 's, 'q) deployment" and pk :: "('v, 's) packages"
  assumes P: "prom s = P" and ord: "range_order (map_order s)"
    and ready: "packages_ready P (node_cfg s) pk" and ends: "step_ends s attempts j"
  shows "\<exists>j' pk'. work s attempts elapsed j pk = Some (j', pk') \<and> packages_ready P (node_cfg s) pk' \<and>
    scrapeMissTolerance (pods pk') = scrapeMissTolerance (pods pk) \<and>
    lookup (pods pk') = lookup (pods pk) \<and>
    (\<forall>i. j' = Some i \<longrightarrow> job_node i = job_node j) \<and>
    (node_set (nodes pk') = node_set (nodes pk) \<or>
     node_set (nodes pk') = set_remove (sets s) (job_node j) (node_set (nodes pk))) \<and>
    grows (exported P pk) (job_writes s (lookup (pods pk)) elapsed j) (exported P pk')"
proof (cases j)
  case (Fetching m)
  obtain answer where answer: "query_answer (backoff s) (node_cfg s) m attempts = Some answer"
    using ends Fetching by auto
  show ?thesis
  proof (cases answer)
    case (Inl err)
    then show ?thesis
      using Query_failed [OF ready, of "backoff s" m attempts err "sets s"] answer Fetching by (auto simp: P)
  next
    case (Inr content)
    then show ?thesis
      using answer Fetching ready by (auto simp: P Query_def query_answer_def split: sum.splits)
  qed
next
  case (Evicting m data)
  then show ?thesis
    using evict_stale_ok [OF ready ord, of m data] by (auto simp: P)
next
  case (Setting m ps)
  show ?thesis
  proof (cases ps)
    case Nil
    then show ?thesis using Setting ready by simp
  next
    case (Cons p qs)
    then show ?thesis
      using Setting set_pod_ok [OF ready, of "pod_cfg s" m p] by (auto simp: P)
  qed
next
  case (Adjusting m)
  then show ?thesis
    using set_polling_rate_ok [OF ready, of m "interval_mill s" elapsed] by (auto simp: P)
qed

end

lemma node_ready_frame [simp]:
  "node_initialised P n (node_ready S n p ns) \<longleftrightarrow> node_initialised P n ns"
  by (simp add: node_initialised_def)

lemma exported_nodes_cong:
  "node_gauges ns = node_gauges (nodes pk) \<Longrightarrow> exported P (pk\<lparr>nodes := ns\<rparr>) = exported P pk"
proof (intro ext)
  fix k ls assume "node_gauges ns = node_gauges (nodes pk)"
  then show "exported P (pk\<lparr>nodes := ns\<rparr>) k ls = exported P pk k ls" by (cases k) simp_all
qed

lemma exported_pods_cong:
  "gauges ps = gauges (pods pk) \<Longrightarrow> exported P (pk\<lparr>pods := ps\<rparr>) = exported P pk"
proof (intro ext)
  fix k ls assume "gauges ps = gauges (pods pk)"
  then show "exported P (pk\<lparr>pods := ps\<rparr>) k ls = exported P pk k ls" by (cases k) simp_all
qed

lemma node_ready_packages:
  "packages_ready P n (pk\<lparr>nodes := node_ready S n p (nodes pk)\<rparr>) = packages_ready P n pk"
  "exported P (pk\<lparr>nodes := node_ready S n p (nodes pk)\<rparr>) = exported P pk"
  by (simp_all add: packages_ready_def exported_nodes_cong)

lemma getPodData_packages:
  assumes "gauges ps = gauges (pods pk)" "nodeTrackers ps = nodeTrackers (pods pk)"
    "scrapeMissTolerance ps = scrapeMissTolerance (pods pk)"
  shows "packages_ready P n (pk\<lparr>pods := ps\<rparr>) = packages_ready P n pk"
    and "exported P (pk\<lparr>pods := ps\<rparr>) = exported P pk"
  using assms by (simp_all add: packages_ready_def exported_pods_cong trackers_ok_def node_seen_def)

text \<open>The node a delete event of the informer names.\<close>

fun deleted_object :: "'a iface \<Rightarrow> 'a option" where
  "deleted_object (Typed p) = Some p"
| "deleted_object (DeletedFinalStateUnknown (Typed p)) = Some p"
| "deleted_object obj = None"

context prometheus
begin

lemma Watch_DeleteFunc_ok:
  fixes pk :: "('v, 's) packages"
  assumes "packages_ready P n pk"
  shows "\<exists>pk'. Watch_DeleteFunc P S n obj pk = Some pk' \<and> packages_ready P n pk' \<and>
    (case deleted_object obj of
       None \<Rightarrow> pk' = pk
     | Some p \<Rightarrow>
         node_set (nodes pk') = set_remove S (n_Name p) (node_set (nodes pk)) \<and>
         KubeletEndpoint (nodes pk') = (if scrapeFromKubelet n
           then (KubeletEndpoint (nodes pk))(n_Name p := None) else KubeletEndpoint (nodes pk)) \<and>
         lookup (pods pk') = lookup (pods pk) \<and>
         scrapeMissTolerance (pods pk') = scrapeMissTolerance (pods pk) \<and>
         nodeTrackers (pods pk') = (nodeTrackers (pods pk))(n_Name p := None) \<and>
         exported P pk' = dropped (node_series (n_Name p)) (exported P pk))"
proof (cases "deleted_object obj")
  case None
  then show ?thesis
    using assms by (cases obj rule: deleted_object.cases) (auto simp: Watch_DeleteFunc_def)
next
  case (Some p)
  obtain pk1 where e: "evict P S n (n_Name p) pk = Some pk1" "packages_ready P n pk1"
      "node_set (nodes pk1) = set_remove S (n_Name p) (node_set (nodes pk))"
      "KubeletEndpoint (nodes pk1) = KubeletEndpoint (nodes pk)"
      "lookup (pods pk1) = lookup (pods pk)"
      "scrapeMissTolerance (pods pk1) = scrapeMissTolerance (pods pk)"
      "nodeTrackers (pods pk1) = (nodeTrackers (pods pk))(n_Name p := None)"
      "\<forall>k ls. exported P pk1 k ls = (if ls ''node_name'' = Some (n_Name p) then None else exported P pk k ls)"
    using evict_ok [OF assms, of S "n_Name p"] by (elim exE conjE) (rule that)
  define pk' where "pk' = (if scrapeFromKubelet n
    then pk1\<lparr>nodes := (nodes pk1)\<lparr>KubeletEndpoint := (KubeletEndpoint (nodes pk1))(n_Name p := None)\<rparr>\<rparr>
    else pk1)"
  have run: "Watch_DeleteFunc P S n obj pk = Some pk'"
    using Some e(1) by (cases obj rule: deleted_object.cases) (simp_all add: Watch_DeleteFunc_def pk'_def)
  have ready: "packages_ready P n pk'"
    using e(2) by (simp add: pk'_def packages_ready_def node_initialised_def)
  have "exported P pk' = exported P pk1" by (simp add: pk'_def exported_nodes_cong)
  moreover have "exported P pk1 = dropped (node_series (n_Name p)) (exported P pk)"
    using e(8) by (simp add: fun_eq_iff dropped_def node_series_def)
  ultimately show ?thesis
    using run ready Some e(3-7) by (intro exI [of _ pk']) (simp add: pk'_def)
qed

lemma podWatch_DeleteFunc_total:
  fixes pk :: "('v, 's) packages"
  assumes "packages_ready P n pk"
  shows "\<exists>st. podWatch_DeleteFunc P obj (pods pk) = Some st \<and> packages_ready P n (pk\<lparr>pods := st\<rparr>) \<and>
    scrapeMissTolerance st = scrapeMissTolerance (pods pk) \<and>
    (case deleted_object obj of
       None \<Rightarrow> st = pods pk
     | Some p \<Rightarrow> lookup st = (lookup (pods pk))(p_Name p := None) \<and>
         exported P (pk\<lparr>pods := st\<rparr>) = dropped (stale_series {p_Name p}) (exported P pk))"
proof (cases "deleted_object obj")
  case None
  then show ?thesis
    using assms by (cases obj rule: deleted_object.cases) (auto simp: podWatch_DeleteFunc_def)
next
  case (Some p)
  then have obj: "obj = Typed p \<or> obj = DeletedFinalStateUnknown (Typed p)"
    by (cases obj rule: deleted_object.cases) auto
  have init: "pod_initialised P (pods pk)" and tr: "trackers_ok (pods pk)"
    using assms by (auto simp: packages_ready_def)
  obtain st where st: "podWatch_DeleteFunc P obj (pods pk) = Some st" "pod_initialised P st"
      "st = (pods pk)\<lparr>gauges := gauges st, lookup := (lookup (pods pk))(p_Name p := None)\<rparr>"
      "\<forall>k ls. pod_reading P st k ls =
        (if ls ''pod_name'' = Some (p_Name p) then None else pod_reading P (pods pk) k ls)"
    using podWatch_DeleteFunc_ok [OF init obj] by (elim exE conjE) (rule that)
  have f: "lookup st = (lookup (pods pk))(p_Name p := None)" "nodeTrackers st = nodeTrackers (pods pk)"
      "scrapeMissTolerance st = scrapeMissTolerance (pods pk)"
    by (subst st(3), simp)+
  have "exported P (pk\<lparr>pods := st\<rparr>) k ls = dropped (stale_series {p_Name p}) (exported P pk) k ls" for k ls
    using st(4) by (cases k) (simp_all add: dropped_def)
  then show ?thesis
    using Some st(1,2) f tr assms
    by (intro exI [of _ st]) (simp add: packages_ready_def trackers_ok_cong [OF f(2,3)] fun_eq_iff)
qed

end

text \<open>Under its guard no action panics; it keeps the packages ready, and every series it leaves
  was there before or is one of its writes.\<close>

lemma deployment_okD:
  assumes "deployment_ok s"
  shows "prometheus (prom s)" and "name_set (sets s)" and "range_order (map_order s)"
    and "worker_pool (new_pool s)" and "retrying (backoff s)"
  using assms by (simp_all add: deployment_ok_def)

lemma perform_ok:
  assumes ok: "deployment_ok s" and ready: "world_ready s w" and "enabled s a w"
    and "scrape_loop w \<noteq> Looping None \<or> a \<noteq> Invoke"
  shows "\<exists>w'. perform s a w = Some w' \<and> world_ready s w' \<and>
    scrapeMissTolerance (pods (packs w')) = scrapeMissTolerance (pods (packs w)) \<and>
    grows (series s w) (action_writes s w a) (series s w')"
proof (cases a)
  case (Work i attempts elapsed)
  show ?thesis
    using prometheus.work_ok [OF deployment_okD(1) [OF ok] refl deployment_okD(3) [OF ok] ready,
        of attempts "workers w ! i" elapsed] Work assms(3)
    by auto
next
  case (NodeAdded obj)
  then show ?thesis
    using ready by (cases obj) (simp_all add: Watch_AddFunc_def node_ready_packages)
next
  case (NodeUpdated obj)
  then show ?thesis
    using ready by (cases obj) (simp_all add: Watch_UpdateFunc_def node_ready_packages)
next
  case (NodeDeleted obj)
  then show ?thesis
    using prometheus.Watch_DeleteFunc_ok [OF deployment_okD(1) [OF ok] ready, of "sets s" obj]
    by (auto split: option.splits)
next
  case (PodListed p)
  then show ?thesis
    using ready by (simp add: getPodData_packages frame)
next
  case (PodUpdated obj)
  then show ?thesis
    using ready by (cases obj) (simp_all add: podWatch_UpdateFunc_def getPodData_packages)
next
  case (PodDeleted obj)
  then show ?thesis
    using prometheus.podWatch_DeleteFunc_total [OF deployment_okD(1) [OF ok] ready, of obj]
    by (auto split: option.splits)
qed (use assms(4) ready in simp_all)

lemma perform_step:
  assumes "deployment_ok s" and "world_ready s w" and "enabled s a w" and run: "perform s a w = Some w'"
  shows "world_ready s w'"
    and "scrapeMissTolerance (pods (packs w')) = scrapeMissTolerance (pods (packs w))"
    and "grows (series s w) (action_writes s w a) (series s w')"
proof -
  have "scrape_loop w \<noteq> Looping None \<or> a \<noteq> Invoke" using run by auto
  from perform_ok [OF assms(1-3) this] run
  show "world_ready s w'" "scrapeMissTolerance (pods (packs w')) = scrapeMissTolerance (pods (packs w))"
    "grows (series s w) (action_writes s w a) (series s w')" by simp_all
qed

lemma executes_ready:
  assumes "executes s w0 as w" and "deployment_ok s" and "world_ready s w0"
  shows "world_ready s w \<and>
    scrapeMissTolerance (pods (packs w)) = scrapeMissTolerance (pods (packs w0))"
proof (rule executes_invariant [OF assms(1)], goal_cases)
  case 1
  then show ?case using assms(3) by simp
next
  case (2 a w w')
  then show ?case using perform_step(1,2) [OF assms(2), of w a w'] by simp
qed

section \<open>Labels of the series\<close>

fun vec_desc :: "vec \<Rightarrow> desc" where
  "vec_desc (NodeVec k) = node_desc k"
| "vec_desc (PodVec k) = pod_desc k"

text \<open>A write carries the labels its vector declares and is for the worker's node.\<close>

definition write_for :: "string \<Rightarrow> vec \<times> labels \<times> f64 \<Rightarrow> bool" where
  "write_for m = (\<lambda>(k, ls, x). dom ls = set (variable_labels (vec_desc k)) \<and> ls ''node_name'' = Some m)"

lemma write_for_I:
  "dom ls = set (variable_labels (vec_desc k)) \<Longrightarrow> ls ''node_name'' = Some m \<Longrightarrow> write_for m (k, ls, x)"
  by (simp add: write_for_def)

lemma node_writes_for: "(k, ls, x) \<in> set (node_writes n m a c) \<Longrightarrow> write_for m (NodeVec k, ls, x)"
  using node_writes_member [of k ls x n m a c]
  by (intro write_for_I) (simp_all add: variable_labels_node_desc)

lemma pod_writes_for:
  "(k, ls, x) \<in> set (pod_writes cr r p ns m f vs cs) \<Longrightarrow> write_for m (PodVec k, ls, x)"
  using pod_writes_labels(1,4) [of k ls x cr r p ns m f vs cs] by (intro write_for_I) simp_all

lemma summary_pod_writes_for:
  "w \<in> set (summary_pod_writes n cr table m p) \<Longrightarrow> write_for m w"
  by (auto simp: summary_pod_writes_def tag_writes_def Let_def
      intro: node_writes_for pod_writes_for split: if_splits)

lemma polling_writes_for: "w \<in> set (polling_writes n m mill elapsed) \<Longrightarrow> write_for m w"
  by (auto simp: polling_writes_def variable_labels_node_desc intro!: write_for_I split: if_splits)

lemma job_writes_for: "w \<in> set (job_writes s table elapsed j) \<Longrightarrow> write_for (job_node j) w"
  by (cases "(s, table, elapsed, j)" rule: job_writes.cases)
    (simp_all add: summary_pod_writes_for polling_writes_for)

lemma action_writes_for:
  "wr \<in> set (action_writes s w a) \<Longrightarrow> enabled s a w \<Longrightarrow> \<exists>j \<in> set (workers w). write_for (job_node j) wr"
  by (cases a) (auto dest: job_writes_for intro!: bexI [OF _ nth_mem])

section \<open>Nodes in play\<close>

definition scraping :: "('v, 'r, 's, 'q) deployment \<Rightarrow> ('v, 's) world \<Rightarrow> string set" where
  "scraping s w = set (to_slice (sets s) (node_set (nodes (packs w)))) \<union> set (pending w) \<union>
     job_node ` set (workers w)"

definition shown :: "('v, 'r, 's, 'q) deployment \<Rightarrow> ('v, 's) world \<Rightarrow> string set" where
  "shown s w = {m. \<exists>k ls. series s w k ls \<noteq> None \<and> ls ''node_name'' = Some m}"

text \<open>The node an action announces as ready.\<close>

definition ready_name :: "v1_Node \<Rightarrow> string set" where
  "ready_name p = (if ''KubeletReady'' \<in> set (n_ConditionReasons p) then {n_Name p} else {})"

fun announced :: "'q action \<Rightarrow> string set" where
  "announced (NodeAdded (Typed p)) = ready_name p"
| "announced (NodeUpdated (Typed p)) = ready_name p"
| "announced a = {}"

lemma workers_next:
  "i < length ws \<Longrightarrow> (\<And>j'. j = Some j' \<Longrightarrow> job_node j' = job_node (ws ! i)) \<Longrightarrow>
    job_node ` set (next_workers i j ws) \<subseteq> job_node ` set ws"
proof (cases j)
  case None
  then show ?thesis
    by (auto simp: next_workers_def dest: in_set_takeD in_set_dropD)
next
  case (Some j')
  assume "i < length ws" and same: "\<And>j'. j = Some j' \<Longrightarrow> job_node j' = job_node (ws ! i)"
  then have "job_node j' \<in> job_node ` set ws" using Some by (simp add: same)
  moreover have "set (ws[i := j']) \<subseteq> insert j' (set ws)" by (rule set_update_subset_insert)
  ultimately show ?thesis using Some by (auto simp: next_workers_def)
qed

text \<open>Only an announcement brings a node into play.\<close>

definition slice_of :: "('v, 'r, 's, 'q) deployment \<Rightarrow> ('v, 's) packages \<Rightarrow> string set" where
  "slice_of s pk = set (to_slice (sets s) (node_set (nodes pk)))"

lemma scraping_packs:
  assumes "slice_of s pk \<subseteq> slice_of s (packs w) \<union> A"
  shows "scraping s (w\<lparr>packs := pk\<rparr>) \<subseteq> scraping s w \<union> A"
  using assms by (auto simp: scraping_def slice_of_def)

lemma slice_removed:
  assumes "name_set (sets s)"
    and "node_set (nodes pk') = node_set (nodes pk) \<or>
      node_set (nodes pk') = set_remove (sets s) m (node_set (nodes pk))"
  shows "slice_of s pk' \<subseteq> slice_of s pk"
  using assms(2) name_set.slice_remove [OF assms(1)] by (auto simp: slice_of_def)

lemma slice_node_ready:
  assumes "name_set (sets s)"
  shows "slice_of s (pk\<lparr>nodes := node_ready (sets s) n p (nodes pk)\<rparr>) \<subseteq>
    slice_of s pk \<union> ready_name p"
  using name_set.node_ready_set [OF assms, of n p "nodes pk"] by (auto simp: slice_of_def ready_name_def)

lemma perform_scraping:
  assumes ok: "deployment_ok s" and ready: "world_ready s w" and en: "enabled s a w"
    and run: "perform s a w = Some w'"
  shows "scraping s w' \<subseteq> scraping s w \<union> announced a"
proof (cases a)
  case StartRound
  then show ?thesis using run by (auto simp: scraping_def)
next
  case Invoke
  then obtain m ms where "pending w = m # ms" using en by (cases "pending w") auto
  then show ?thesis using run Invoke by (auto simp: scraping_def split: if_splits)
next
  case (Work i attempts elapsed)
  have ends: "step_ends s attempts (workers w ! i)" using en Work by simp
  obtain j' pk' where step: "work s attempts elapsed (workers w ! i) (packs w) = Some (j', pk')"
      "\<forall>j. j' = Some j \<longrightarrow> job_node j = job_node (workers w ! i)"
      "node_set (nodes pk') = node_set (nodes (packs w)) \<or>
       node_set (nodes pk') = set_remove (sets s) (job_node (workers w ! i)) (node_set (nodes (packs w)))"
    using prometheus.work_ok [OF deployment_okD(1) [OF ok] refl deployment_okD(3) [OF ok] ready,
        of attempts "workers w ! i" elapsed, OF ends]
    by (elim exE conjE) (rule that)
  have w': "w' = w\<lparr>packs := pk', workers := next_workers i j' (workers w)\<rparr>"
    using run Work step(1) by simp
  have "slice_of s pk' \<subseteq> slice_of s (packs w)"
    using slice_removed [OF deployment_okD(2) [OF ok] step(3)] .
  moreover have "job_node ` set (next_workers i j' (workers w)) \<subseteq> job_node ` set (workers w)"
    by (rule workers_next) (use en Work step(2) in auto)
  ultimately show ?thesis by (auto simp: w' scraping_def slice_of_def)
next
  case (NodeAdded obj)
  show ?thesis
  proof (cases obj)
    case (Typed p)
    have "w' = w\<lparr>packs := (packs w)\<lparr>nodes := node_ready (sets s) (node_cfg s) p (nodes (packs w))\<rparr>\<rparr>"
      using run NodeAdded Typed by (simp add: Watch_AddFunc_def)
    then show ?thesis
      unfolding NodeAdded Typed
      using scraping_packs [OF slice_node_ready [OF deployment_okD(2) [OF ok]]]
      by (simp only: announced.simps)
  qed (use run NodeAdded in \<open>simp_all add: Watch_AddFunc_def\<close>)
next
  case (NodeUpdated obj)
  show ?thesis
  proof (cases obj)
    case (Typed p)
    have "w' = w\<lparr>packs := (packs w)\<lparr>nodes := node_ready (sets s) (node_cfg s) p (nodes (packs w))\<rparr>\<rparr>"
      using run NodeUpdated Typed by (simp add: Watch_UpdateFunc_def)
    then show ?thesis
      unfolding NodeUpdated Typed
      using scraping_packs [OF slice_node_ready [OF deployment_okD(2) [OF ok]]]
      by (simp only: announced.simps)
  qed (use run NodeUpdated in \<open>simp_all add: Watch_UpdateFunc_def\<close>)
next
  case (NodeDeleted obj)
  obtain pk' where del: "Watch_DeleteFunc (prom s) (sets s) (node_cfg s) obj (packs w) = Some pk'"
      "case deleted_object obj of None \<Rightarrow> pk' = packs w
       | Some p \<Rightarrow> node_set (nodes pk') = set_remove (sets s) (n_Name p) (node_set (nodes (packs w)))"
    using prometheus.Watch_DeleteFunc_ok [OF deployment_okD(1) [OF ok] ready, of "sets s" obj]
    by (auto split: option.splits)
  have "slice_of s pk' \<subseteq> slice_of s (packs w) \<union> {}"
    using del(2) slice_removed [OF deployment_okD(2) [OF ok], of pk' "packs w"]
    by (auto split: option.splits)
  then show ?thesis
    using run NodeDeleted del(1) scraping_packs [of s pk' w "{}"] by simp
next
  case (PodUpdated obj)
  then show ?thesis using run by (cases obj) (auto simp: podWatch_UpdateFunc_def scraping_def)
next
  case (PodDeleted obj)
  then show ?thesis using run by (auto simp: scraping_def split: Option.bind_splits)
next
  case (PodListed p)
  then show ?thesis using run by (auto simp: scraping_def)
qed (use run in \<open>auto simp: scraping_def\<close>)

lemma perform_shown:
  assumes "deployment_ok s" and "world_ready s w" and en: "enabled s a w"
    and run: "perform s a w = Some w'"
  shows "shown s w' \<subseteq> shown s w \<union> job_node ` set (workers w)"
proof
  fix m assume "m \<in> shown s w'"
  then obtain k ls x where x: "series s w' k ls = Some x" "ls ''node_name'' = Some m"
    by (auto simp: shown_def)
  have "grows (series s w) (action_writes s w a) (series s w')"
    by (rule perform_step(3) [OF assms(1-3) run])
  from growsD [OF this x(1)] show "m \<in> shown s w \<union> job_node ` set (workers w)"
  proof
    assume "series s w k ls = Some x"
    then show ?thesis using x(2) by (auto simp: shown_def)
  next
    assume "(k, ls, x) \<in> set (action_writes s w a)"
    from action_writes_for [OF this en] show ?thesis using x(2) by (auto simp: write_for_def)
  qed
qed

lemma executes_scraping:
  assumes "executes s w0 as w" and ok: "deployment_ok s" and ready: "world_ready s w0"
  shows "scraping s w \<subseteq> scraping s w0 \<union> \<Union> (announced ` set as)"
proof -
  have "world_ready s w \<and> scraping s w \<subseteq> scraping s w0 \<union> \<Union> (announced ` set as)"
  proof (rule executes_invariant [OF assms(1)], goal_cases)
    case 1
    then show ?case using ready by auto
  next
    case (2 a w w')
    have "world_ready s w'" using perform_step(1) [OF ok, of w a] 2 by blast
    moreover have "announced a \<subseteq> \<Union> (announced ` set as)" using 2(1) by auto
    ultimately show ?case using perform_scraping [OF ok, of w a w'] 2 by blast
  qed
  then show ?thesis by blast
qed

lemma nodes_in_play:
  assumes "executes s w0 as w" and ok: "deployment_ok s" and ready: "world_ready s w0"
  shows "scraping s w \<union> shown s w \<subseteq> scraping s w0 \<union> shown s w0 \<union> \<Union> (announced ` set as)"
proof -
  have "world_ready s w \<and>
      scraping s w \<union> shown s w \<subseteq> scraping s w0 \<union> shown s w0 \<union> \<Union> (announced ` set as)"
  proof (rule executes_invariant [OF assms(1)], goal_cases)
    case 1
    then show ?case using ready by auto
  next
    case (2 a w w')
    have "world_ready s w'" using perform_step(1) [OF ok, of w a] 2 by blast
    moreover have "job_node ` set (workers w) \<subseteq> scraping s w" by (auto simp: scraping_def)
    moreover have "announced a \<subseteq> \<Union> (announced ` set as)" using 2(1) by auto
    ultimately show ?case
      using perform_scraping [OF ok, of w a w'] perform_shown [OF ok, of w a w'] 2 by blast
  qed
  then show ?thesis by blast
qed

text \<open>What every write satisfies, every series satisfies.\<close>

lemma executes_series:
  assumes "executes s w0 as w" and ok: "deployment_ok s" and "world_ready s w0"
    and base: "\<And>k ls x. series s w0 k ls = Some x \<Longrightarrow> Q (k, ls, x)"
    and writes: "\<And>table elapsed j wr. wr \<in> set (job_writes s table elapsed j) \<Longrightarrow> Q wr"
    and x: "series s w k ls = Some x"
  shows "Q (k, ls, x)"
proof -
  have "world_ready s w \<and> (\<forall>k ls x. series s w k ls = Some x \<longrightarrow> Q (k, ls, x))"
  proof (rule executes_invariant [OF assms(1)], goal_cases)
    case 1
    then show ?case using assms(3) base by auto
  next
    case (2 a w w')
    have ready': "world_ready s w'" and g: "grows (series s w) (action_writes s w a) (series s w')"
      using perform_step(1,3) [OF ok, of w a] 2 by blast+
    have "Q wr" if "wr \<in> set (action_writes s w a)" for wr
      using that writes by (cases a) auto
    with ready' show ?case using 2(2) growsD [OF g] by blast
  qed
  then show ?thesis using x by blast
qed

text \<open>A limit percentage is never above 100.\<close>

definition limit_series :: "vec \<Rightarrow> labels \<Rightarrow> bool" where
  "limit_series k ls \<longleftrightarrow> k = PodVec containerPercentageVolumeLimitsVec \<or>
     k = PodVec containerPercentageLimitsVec \<and> ls ''source'' = Some ''container''"

definition capped :: "vec \<times> labels \<times> f64 \<Rightarrow> bool" where
  "capped = (\<lambda>(k, ls, x). limit_series k ls \<longrightarrow> \<not> Fin 100 < x)"

lemma capped_node [simp]: "capped (NodeVec k, ls, x)"
  by (simp add: capped_def limit_series_def)

lemma math_Min_capped: "\<not> Fin c < math_Min a (Fin c)"
  by (cases a) (auto simp: math_Min_def is_zero_def)

lemma fs_writes_capped:
  "(k, ls, x) \<in> set (fs_writes a b c d e g h ino labels fs) \<Longrightarrow>
    containerPercentageLimitsVec \<notin> {a, b, c, d, e, g, h} \<Longrightarrow>
    containerPercentageVolumeLimitsVec \<notin> {a, b, c, d, e, g, h} \<Longrightarrow> capped (PodVec k, ls, x)"
  using fs_writes_labels [of k ls x a b c d e g h ino labels fs]
  by (auto simp: capped_def limit_series_def)

lemma volume_limit_writes_capped:
  "(k, ls, x) \<in> set (volume_limit_writes p ns m vs r) \<Longrightarrow> capped (PodVec k, ls, x)"
  by (auto simp: volume_limit_writes_def volume_limit_percentage_def Let_def capped_def math_Min_capped
      split: if_splits)

lemma container_limit_write_capped:
  "(k, ls, x) = container_limit_write p ns m f c \<Longrightarrow> capped (PodVec k, ls, x)"
  by (auto simp: container_limit_write_def container_limit_percentage_def Let_def capped_def
      limit_series_def math_Min_capped split: if_splits)

lemma pod_writes_capped:
  "(k, ls, x) \<in> set (pod_writes cr r p ns m f vs cs) \<Longrightarrow> capped (PodVec k, ls, x)"
  unfolding pod_writes_def
  by (auto simp: volume_limit_writes_capped container_limit_write_capped rootfs_writes_def logs_writes_def
      dest!: fs_writes_capped split: if_splits)
    (auto simp: capped_def limit_series_def volume_usage_writes_def split: if_splits)

lemma job_writes_capped: "wr \<in> set (job_writes s table elapsed j) \<Longrightarrow> capped wr"
  by (cases "(s, table, elapsed, j)" rule: job_writes.cases)
    (auto simp: summary_pod_writes_def tag_writes_def polling_writes_def Let_def pod_writes_capped
      split: if_splits)

text \<open>The loop: nothing is scraped before the initial wait is over, then the pool is the one the
  configuration makes, and it is never over its size.\<close>

definition loop_ok :: "('v, 'r, 's, 'q) deployment \<Rightarrow> ('v, 's) world \<Rightarrow> bool" where
  "loop_ok s w \<longleftrightarrow> (case scrape_loop w of
       Waiting \<Rightarrow> pending w = [] \<and> workers w = []
     | Looping p \<Rightarrow> p = pool_of s \<and>
         (case p of
            None \<Rightarrow> workers w = []
          | Some None \<Rightarrow> True
          | Some (Some capacity) \<Rightarrow> length (workers w) \<le> capacity))"

lemma loop_ok_started [simp]: "loop_ok s (started st)"
  by (simp add: loop_ok_def started_def)

lemma length_next_workers: "length (next_workers i j ws) \<le> length ws"
  by (cases j) (auto simp: next_workers_def)

lemma perform_same_loop:
  assumes "perform s a w = Some w'" and "a \<notin> {InitDone, StartRound, Invoke}" and "\<And>t. a \<noteq> InitTimeout t"
  shows "scrape_loop w' = scrape_loop w" and "pending w' = pending w"
    and "length (workers w') \<le> length (workers w)"
  using assms by (cases a; auto simp: length_next_workers split: Option.bind_splits if_splits)+

lemma loop_ok_fewer:
  "loop_ok s w \<Longrightarrow> scrape_loop w' = scrape_loop w \<Longrightarrow> pending w' = pending w \<Longrightarrow>
    length (workers w') \<le> length (workers w) \<Longrightarrow> loop_ok s w'"
  by (auto simp: loop_ok_def split: loop_state.splits option.splits)

lemma perform_loop_ok:
  assumes en: "enabled s a w" and run: "perform s a w = Some w'" and "loop_ok s w"
  shows "loop_ok s w'"
proof -
  consider "a = InitDone \<or> (\<exists>t. a = InitTimeout t)" | "a = StartRound" | "a = Invoke"
    | "a \<notin> {InitDone, StartRound, Invoke}" "\<And>t. a \<noteq> InitTimeout t" by blast
  then show ?thesis
  proof cases
    case 4
    from loop_ok_fewer [OF assms(3) perform_same_loop [OF run this]] show ?thesis .
  next
    case 3
    then show ?thesis
      using assms by (auto simp: loop_ok_def pool_free_def split: loop_state.splits option.splits if_splits)
  qed (use assms in \<open>auto simp: loop_ok_def split: loop_state.splits option.splits\<close>)
qed

lemma executes_loop_ok: "executes s w0 as w \<Longrightarrow> loop_ok s w0 \<Longrightarrow> loop_ok s w"
  by (erule executes_invariant) (auto intro: perform_loop_ok)

lemma workers_bounded:
  assumes "deployment_ok s" and "loop_ok s w" and "0 < sint (MaxNodeQueryConcurrency (node_cfg s))"
    and "sint (MaxNodeQueryConcurrency (node_cfg s)) < 2 ^ 31"
  shows "int (length (workers w)) \<le> sint (MaxNodeQueryConcurrency (node_cfg s))"
proof -
  note pool = worker_pool.made_pool_capacity worker_pool.made_pool_unlimited
  note pool = pool [OF deployment_okD(4) [OF assms(1)]]
  show ?thesis
    using assms(2,3,4) pool(1) [of "MaxNodeQueryConcurrency (node_cfg s)" "Seconds (interval s)"]
      pool(2) [of "MaxNodeQueryConcurrency (node_cfg s)" "Seconds (interval s)"]
    by (fastforce simp: loop_ok_def pool_of_def split: loop_state.splits option.splits)
qed

text \<open>Without the node watch nothing is announced.\<close>

lemma executes_enabled:
  "executes s w0 as w \<Longrightarrow> a \<in> set as \<Longrightarrow> \<exists>u. enabled s a u"
  by (induction rule: executes.induct) auto

lemma no_watch_no_news:
  assumes "executes s w0 as w" and "\<not> StartWatch (node_cfg s)"
  shows "\<Union> (announced ` set as) = {}"
proof -
  have "announced a = {}" if "a \<in> set as" for a
    using executes_enabled [OF assms(1) that] assms(2) by (cases a) auto
  then show ?thesis by blast
qed

section \<open>Eviction is final unless a scrape of the node is under way\<close>

lemma shown_dropped:
  "series s w' = dropped (node_series m) (series s w) \<Longrightarrow> m \<notin> shown s w'"
  by (auto simp: shown_def dropped_def node_series_def)

lemma node_deleted_gone:
  assumes ok: "deployment_ok s" and "world_ready s w" and run: "perform s (NodeDeleted obj) w = Some w'"
    and p: "deleted_object obj = Some p"
    and idle: "n_Name p \<notin> set (pending w) \<union> job_node ` set (workers w)"
  shows "n_Name p \<notin> scraping s w' \<union> shown s w'"
proof -
  obtain pk' where del: "Watch_DeleteFunc (prom s) (sets s) (node_cfg s) obj (packs w) = Some pk'"
      "node_set (nodes pk') = set_remove (sets s) (n_Name p) (node_set (nodes (packs w)))"
      "exported (prom s) pk' = dropped (node_series (n_Name p)) (series s w)"
    using prometheus.Watch_DeleteFunc_ok [OF deployment_okD(1) [OF ok] assms(2), of "sets s" obj] p
    by auto
  have w': "w' = w\<lparr>packs := pk'\<rparr>" using run del(1) by simp
  then have "n_Name p \<notin> shown s w'" using del(3) shown_dropped [of s w' "n_Name p" w] by simp
  moreover have "n_Name p \<notin> scraping s w'"
    using idle name_set.slice_remove [OF deployment_okD(2) [OF ok]] by (auto simp: w' scraping_def del(2))
  ultimately show ?thesis by simp
qed

lemma other_workers:
  assumes "j \<in> set (next_workers i None ws)" and "i < length ws"
  obtains k where "k < length ws" "k \<noteq> i" "ws ! k = j"
proof -
  have "j \<in> set (take i ws) \<or> j \<in> set (drop (Suc i) ws)" using assms(1) by (simp add: next_workers_def)
  then show thesis
  proof
    assume "j \<in> set (take i ws)"
    then obtain k where "k < i" "take i ws ! k = j" using assms(2) by (auto simp: in_set_conv_nth)
    then show thesis using assms(2) by (intro that [of k]) simp_all
  next
    assume "j \<in> set (drop (Suc i) ws)"
    then obtain k where "k < length ws - Suc i" "drop (Suc i) ws ! k = j" by (auto simp: in_set_conv_nth)
    then show thesis using assms(2) by (intro that [of "Suc i + k"]) simp_all
  qed
qed

lemma fetch_failed_gone:
  assumes ok: "deployment_ok s" and ready: "world_ready s w"
    and i: "i < length (workers w)" "workers w ! i = Fetching m"
    and run: "perform s (Work i attempts elapsed) w = Some w'"
    and fail: "query_answer (backoff s) (node_cfg s) m attempts = Some (Inl err)"
    and idle: "m \<notin> set (pending w)"
      "\<And>j. j < length (workers w) \<Longrightarrow> j \<noteq> i \<Longrightarrow> job_node (workers w ! j) \<noteq> m"
  shows "m \<notin> scraping s w' \<union> shown s w'"
proof -
  obtain pk' where q: "Query (prom s) (sets s) (backoff s) (node_cfg s) m attempts (packs w) = Some (Inl err, pk')"
      "node_set (nodes pk') = set_remove (sets s) m (node_set (nodes (packs w)))"
      "exported (prom s) pk' = dropped (node_series m) (series s w)"
    using prometheus.Query_failed [OF deployment_okD(1) [OF ok] ready fail, of "sets s"] by auto
  have w': "w' = w\<lparr>packs := pk', workers := next_workers i None (workers w)\<rparr>"
    using run i(2) q(1) by simp
  have "job_node j \<noteq> m" if "j \<in> set (next_workers i None (workers w))" for j
    using other_workers [OF that i(1)] idle(2) by blast
  then have "m \<notin> job_node ` set (next_workers i None (workers w))" by blast
  moreover have "m \<notin> shown s w'" using q(3) shown_dropped [of s w' m w] by (simp add: w')
  moreover have "m \<notin> set (to_slice (sets s) (node_set (nodes pk')))"
    using name_set.slice_remove [OF deployment_okD(2) [OF ok]] by (simp add: q(2))
  ultimately show ?thesis using idle(1) by (auto simp: w' scraping_def)
qed

section \<open>A worker alone runs setMetrics\<close>

lemma executes_trans:
  assumes "executes s w1 bs w2" and "executes s w0 as w1"
  shows "executes s w0 (as @ bs) w2"
  using assms
proof (induction rule: executes.induct)
  case start
  then show ?case by simp
next
  case (act bs w a w')
  then show ?case using executes.act [of s w0 "as @ bs" w a w'] by simp
qed

lemma executes_one: "enabled s a w \<Longrightarrow> perform s a w = Some w' \<Longrightarrow> executes s w [a] w'"
  using executes.act [OF executes.start, of s a w w'] by simp

definition can_reach :: "('v, 'r, 's, 'q) deployment \<Rightarrow> ('v, 's) world \<Rightarrow> ('v, 's) world \<Rightarrow> bool" where
  "can_reach s w w' \<longleftrightarrow> (\<exists>as. executes s w as w')"

lemma can_reach_trans [trans]: "can_reach s w0 w1 \<Longrightarrow> can_reach s w1 w2 \<Longrightarrow> can_reach s w0 w2"
  unfolding can_reach_def using executes_trans by blast

lemma can_reach_refl: "can_reach s w w"
  unfolding can_reach_def using executes.start by blast

lemma can_reach_step: "enabled s a w \<Longrightarrow> perform s a w = Some w' \<Longrightarrow> can_reach s w w'"
  unfolding can_reach_def using executes_one by blast

abbreviation at_job :: "('v, 's) world \<Rightarrow> ('v, 's) packages \<Rightarrow> job list \<Rightarrow> ('v, 's) world" where
  "at_job w pk js \<equiv> w\<lparr>packs := pk, workers := js\<rparr>"

lemma step_returned: "work s attempts elapsed j pk = Some r \<Longrightarrow> step_ends s attempts j"
  by (cases j) (auto simp: Query_def query_answer_def split: Option.bind_splits)

lemma worker_moves:
  assumes "work s attempts elapsed j pk = Some (Some j', pk')"
  shows "can_reach s (at_job w pk (j # ws)) (at_job w pk' (j' # ws))"
  by (rule can_reach_step [of s "Work 0 attempts elapsed"])
    (simp_all add: assms next_workers_def step_returned [OF assms])

lemma worker_ends:
  assumes "work s attempts elapsed j pk = Some (None, pk')"
  shows "can_reach s (at_job w pk (j # ws)) (at_job w pk' ws)"
  by (rule can_reach_step [of s "Work 0 attempts elapsed"])
    (simp_all add: assms next_workers_def step_returned [OF assms])

lemma worker_pods:
  assumes "for_each (set_pod (prom s) (node_cfg s) (pod_cfg s) m) ps pk = Some pk'"
  shows "can_reach s (at_job w pk (Setting m ps # ws)) (at_job w pk' (Adjusting m # ws))"
  using assms
proof (induction ps arbitrary: pk)
  case Nil
  then show ?case by (intro worker_moves) simp
next
  case (Cons p ps)
  then obtain pk1 where pk1: "set_pod (prom s) (node_cfg s) (pod_cfg s) m p pk = Some pk1"
      "for_each (set_pod (prom s) (node_cfg s) (pod_cfg s) m) ps pk1 = Some pk'"
    by (auto split: Option.bind_splits)
  have "can_reach s (at_job w pk (Setting m (p # ps) # ws)) (at_job w pk1 (Setting m ps # ws))"
    by (rule worker_moves) (simp add: pk1(1))
  also have "can_reach s \<dots> (at_job w pk' (Adjusting m # ws))"
    using pk1(2) by (rule Cons.IH)
  finally show ?case .
qed

definition scrape_node ::
  "('v, 'r, 's, 'q) deployment \<Rightarrow> (string \<Rightarrow> nat \<Rightarrow> attempt_env) \<Rightarrow> (string \<Rightarrow> int64) \<Rightarrow> string \<Rightarrow>
    ('v, 's) packages \<Rightarrow> ('v, 's) packages option" where
  "scrape_node s attempts elapsed m =
     setMetrics (prom s) (sets s) (backoff s) (map_order s) (decoder s) (node_cfg s) (pod_cfg s)
       (interval_mill s) m (attempts m) (elapsed m)"

lemma scrape_node_sequential:
  assumes run: "scrape_node s attempts elapsed m pk0 = Some pk"
  shows "can_reach s (at_job w pk0 (Fetching m # ws)) (at_job w pk ws)"
proof -
  obtain answer pk1 where q: "Query (prom s) (sets s) (backoff s) (node_cfg s) m (attempts m) pk0 = Some (answer, pk1)"
    using run by (auto simp: scrape_node_def setMetrics_def split: Option.bind_splits)
  note run = run [unfolded scrape_node_def setMetrics_def q, simplified]
  consider (failed) err where "answer = Inl err" | (undecoded) content err where "answer = Inr content" "decoder s content = Inl err"
    | (decoded) content data where "answer = Inr content" "decoder s content = Inr data"
    by (cases answer; metis sum.exhaust)
  then show ?thesis
  proof cases
    case failed
    with run q show ?thesis by (intro worker_ends [of s "attempts m"]) simp
  next
    case undecoded
    with run q show ?thesis
      by (intro worker_ends [of s "attempts m"]) (simp add: setMetricsFromSummary_def)
  next
    case decoded
    obtain ps pk2 where e: "EvictStalePods (prom s) (map_order s) m (listed_pods data) (pods pk1) = Some ps"
        "for_each (set_pod (prom s) (node_cfg s) (pod_cfg s) m) (sm_Pods data) (pk1\<lparr>pods := ps\<rparr>) = Some pk2"
        "set_polling_rate (prom s) (node_cfg s) m (interval_mill s) (elapsed m) pk2 = Some pk"
      using run decoded
      by (auto simp: setMetricsFromSummary_def apply_summary_def listed_pods_def split: Option.bind_splits)
    have "can_reach s (at_job w pk0 (Fetching m # ws)) (at_job w pk1 (Evicting m data # ws))"
      by (rule worker_moves [of s "attempts m"]) (simp add: q decoded)
    also have "can_reach s \<dots> (at_job w (pk1\<lparr>pods := ps\<rparr>) (Setting m (sm_Pods data) # ws))"
      by (rule worker_moves) (simp add: e(1))
    also have "can_reach s \<dots> (at_job w pk2 (Adjusting m # ws))"
      using e(2) by (rule worker_pods)
    also have "can_reach s \<dots> (at_job w pk ws)"
      by (rule worker_ends [of s _ "elapsed m"]) (simp add: e(3))
    finally show ?thesis .
  qed
qed

text \<open>A round whose workers run one after the other scrapes every node of the set, in order.\<close>

lemma pending_sequential:
  assumes "for_each (scrape_node s attempts elapsed) ms pk = Some pk'"
    and loop: "scrape_loop w = Looping (Some p)" "pool_free p 0"
  shows "can_reach s (w\<lparr>packs := pk, pending := ms, workers := []\<rparr>) (w\<lparr>packs := pk', pending := [], workers := []\<rparr>)"
  using assms(1)
proof (induction ms arbitrary: pk)
  case Nil
  then show ?case by (simp add: can_reach_refl)
next
  case (Cons m ms)
  then obtain pk1 where pk1: "scrape_node s attempts elapsed m pk = Some pk1"
      "for_each (scrape_node s attempts elapsed) ms pk1 = Some pk'"
    by (auto split: Option.bind_splits)
  let ?w = "w\<lparr>packs := pk, pending := ms, workers := []\<rparr>"
  have "can_reach s (w\<lparr>packs := pk, pending := m # ms, workers := []\<rparr>) (at_job ?w pk [Fetching m])"
    by (rule can_reach_step [of s Invoke]) (simp_all add: loop)
  also have "can_reach s \<dots> (at_job ?w pk1 [])"
    using pk1(1) by (rule scrape_node_sequential)
  also have "at_job ?w pk1 [] = w\<lparr>packs := pk1, pending := ms, workers := []\<rparr>"
    by (rule world.equality) simp_all
  also note Cons.IH [OF pk1(2)]
  finally show ?case .
qed

lemma round_sequential:
  assumes "for_each (scrape_node s attempts elapsed) (to_slice (sets s) (node_set (nodes (packs w)))) (packs w) = Some pk'"
    and loop: "scrape_loop w = Looping (Some p)" "pool_free p 0" and "pending w = []" "workers w = []"
  shows "can_reach s w (w\<lparr>packs := pk'\<rparr>)"
proof -
  have "can_reach s w (w\<lparr>pending := to_slice (sets s) (node_set (nodes (packs w)))\<rparr>)"
    by (rule can_reach_step [of s StartRound]) (simp_all add: assms(2,4))
  also have "w\<lparr>pending := to_slice (sets s) (node_set (nodes (packs w)))\<rparr> =
      w\<lparr>packs := packs w, pending := to_slice (sets s) (node_set (nodes (packs w))), workers := []\<rparr>"
    using assms(5) by (intro world.equality) simp_all
  also note pending_sequential [OF assms(1) loop]
  also have "w\<lparr>packs := pk', pending := [], workers := []\<rparr> = w\<lparr>packs := pk'\<rparr>"
    using assms(4,5) by (intro world.equality) simp_all
  finally show ?thesis .
qed

text \<open>Such a round exists from every ready world, when the interval limits the retries.\<close>

lemma scrape_nodes_total:
  assumes ok: "deployment_ok s" and "packages_ready (prom s) (node_cfg s) pk"
    and limit: "Seconds (sampleInterval (node_cfg s)) \<noteq> 0"
  shows "\<exists>pk'. for_each (scrape_node s attempts elapsed) ms pk = Some pk' \<and>
    packages_ready (prom s) (node_cfg s) pk'"
  using assms(2)
  by (rule for_each_total)
    (use prometheus.setMetrics_total [OF deployment_okD(1) [OF ok] _ deployment_okD(3) [OF ok]
        query_answer_returns [OF deployment_okD(5) [OF ok] limit]]
      in \<open>auto simp: scrape_node_def\<close>)

section \<open>The exporter after start-up\<close>

text \<open>A process started on deployment \<open>s\<close>: \<open>main\<close> has run \<open>startCollectors\<close> in environment
  \<open>env\<close> on a registry without the exporter's names.\<close>

definition starts ::
  "('v, 'r, 's, 'q) deployment \<Rightarrow> environment \<Rightarrow> 'r \<Rightarrow> ('v, 's, 'r) process \<Rightarrow> bool" where
  "starts s env r st \<longleftrightarrow> deployment_ok s \<and> env_ok env \<and>
     registered_names (prom s) r \<inter> (pod_metric_names \<union> node_metric_names) = {} \<and>
     boot (prom s) (sets s) env r = Inr ((node_cfg s, pod_cfg s), st) \<and>
     interval s = scrape_interval env \<and> interval_mill s = sample_interval_mill env"

lemma startsD:
  assumes "starts s env r st"
  shows "deployment_ok s" and "node_cfg s = node_config env (scrape_interval env)"
    and "pod_cfg s = collector_config env (scrape_interval env)"
    and "world_ready s (started st)" and "series s (started st) = (\<lambda>_ _. None)"
    and "scrapeMissTolerance (pods (packs (started st))) = miss_tolerance env"
    and "scraping s (started st) = (if DeployAsDaemonSet env then {CurrentNodeName env} else {})"
    and "shown s (started st) = {}" and "workers (started st) = []"
    and "StartWatch (node_cfg s) \<longleftrightarrow> \<not> DeployAsDaemonSet env"
    and "lookup (pods (packs (started st))) = Map.empty"
    and "listing (started st) \<longleftrightarrow> watches_pods (pod_cfg s)"
    and "interval s = scrape_interval env"
proof -
  have ok: "deployment_ok s" and env: "env_ok env"
    and fresh: "registered_names (prom s) r \<inter> (pod_metric_names \<union> node_metric_names) = {}"
    and boot: "boot (prom s) (sets s) env r = Inr ((node_cfg s, pod_cfg s), st)"
    and "interval s = scrape_interval env"
    using assms by (auto simp: starts_def)
  note sets = name_set.slice_new [OF deployment_okD(2) [OF ok]] name_set.slice_add [OF deployment_okD(2) [OF ok]]
  have b: "node_cfg s = node_config env (scrape_interval env)"
      "pod_cfg s = collector_config env (scrape_interval env)"
      "world_ready s (started st)" "\<forall>k ls. series s (started st) k ls = None"
      "scrapeMissTolerance (pods (packs (started st))) = miss_tolerance env"
      "lookup (pods (packs (started st))) = Map.empty"
      "node_set (nodes (packs (started st))) =
        (if DeployAsDaemonSet env then set_add (sets s) (CurrentNodeName env) (new_set (sets s)) else new_set (sets s))"
      "listing (started st) \<longleftrightarrow> watches_pods (pod_cfg s)"
    using prometheus.boot_ok [OF deployment_okD(1) [OF ok] env fresh, of "sets s"] boot
    by (auto simp: started_def watches_pods_def collector_config_def)
  have "GetEnv env ''DEPLOY_TYPE'' ''DaemonSet'' \<in> {''Deployment'', ''DaemonSet''}"
    using env by (simp add: env_ok_def)
  then show "StartWatch (node_cfg s) \<longleftrightarrow> \<not> DeployAsDaemonSet env"
    by (auto simp: b(1) StartWatch_def node_config_def DeployAsDaemonSet_def)
  show "scraping s (started st) = (if DeployAsDaemonSet env then {CurrentNodeName env} else {})"
    using b(7) sets by (auto simp: scraping_def started_def)
  show "series s (started st) = (\<lambda>_ _. None)" using b(4) by (simp add: fun_eq_iff)
  show "shown s (started st) = {}" using b(4) by (simp add: shown_def)
  show "deployment_ok s" by (rule ok)
  show "node_cfg s = node_config env (scrape_interval env)"
    and "pod_cfg s = collector_config env (scrape_interval env)" and "world_ready s (started st)"
    and "scrapeMissTolerance (pods (packs (started st))) = miss_tolerance env"
    and "lookup (pods (packs (started st))) = Map.empty"
    and "listing (started st) \<longleftrightarrow> watches_pods (pod_cfg s)"
    by (rule b)+
  show "interval s = scrape_interval env" by fact
qed (simp add: started_def)

text \<open>The pool of a started exporter: it is nil exactly for an interval of negative duration, and
  otherwise takes a job whenever it is idle, if its size fits into 32 bits.\<close>

lemma started_pool:
  assumes "starts s env r st"
  shows "pool_of s = None \<longleftrightarrow> sint (Seconds (scrape_interval env)) < 0"
    and "pool_of s = Some p \<Longrightarrow> sint (MaxNodeQueryConcurrency (node_cfg s)) < 2 ^ 31 \<Longrightarrow> pool_free p 0"
  using worker_pool.made_pool_nil [OF deployment_okD(4) [OF startsD(1) [OF assms]]]
    worker_pool.made_pool_free [OF deployment_okD(4) [OF startsD(1) [OF assms]]] startsD(13) [OF assms]
  by (auto simp: pool_of_def)

text \<open>An interval of positive duration limits the retries of a query.\<close>

lemma started_interval:
  "starts s env r st \<Longrightarrow> sampleInterval (node_cfg s) = scrape_interval env"
  by (simp add: startsD(2) node_config_def)

lemma started_retries_limited:
  assumes "starts s env r st" and "0 < sint (Seconds (scrape_interval env))"
  shows "Seconds (sampleInterval (node_cfg s)) \<noteq> 0"
proof
  assume "Seconds (sampleInterval (node_cfg s)) = 0"
  then have "sint (Seconds (scrape_interval env)) = 0" by (simp add: started_interval [OF assms(1)])
  then show False using assms(2) by simp
qed

lemma looping_pool:
  assumes "executes s (started st) as w" and "scrape_loop w = Looping p"
  shows "p = pool_of s"
  using executes_loop_ok [OF assms(1) loop_ok_started] assms(2) by (simp add: loop_ok_def)

lemma pool_not_nil:
  assumes "starts s env r st" and "0 \<le> sint (Seconds (scrape_interval env))" and "executes s (started st) as w"
  shows "scrape_loop w \<noteq> Looping None"
proof
  assume "scrape_loop w = Looping None"
  then have "pool_of s = None" using looping_pool [OF assms(3)] by metis
  then show False using started_pool(1) [OF assms(1)] assms(2) by simp
qed

lemma started_round:
  assumes "starts s env r st" and "0 \<le> sint (Seconds (scrape_interval env))" and "executes s (started st) as w"
    and "scrape_loop w \<noteq> Waiting" and "pending w = []" and "workers w = []"
    and "for_each (scrape_node s attempts elapsed) (to_slice (sets s) (node_set (nodes (packs w)))) (packs w) = Some pk'"
    and "sint (MaxNodeQueryConcurrency (node_cfg s)) < 2 ^ 31"
  shows "can_reach s w (w\<lparr>packs := pk'\<rparr>)"
proof -
  obtain q where q: "scrape_loop w = Looping q" using assms(4) by (cases "scrape_loop w") auto
  moreover obtain p where p: "q = Some p" using q pool_not_nil [OF assms(1-3)] by (cases q) auto
  ultimately have loop: "scrape_loop w = Looping (Some p)" by simp
  moreover have "pool_of s = Some p" using looping_pool [OF assms(3) loop] by simp
  ultimately show ?thesis
    using round_sequential [OF assms(7) loop _ assms(5,6)] started_pool(2) [OF assms(1) _ assms(8)] by blast
qed

end
