(* ===== verification/Demo.thy ===== *)
theory Demo
  imports SystemSpec
begin

text \<open>
  A concrete exporter, on the reference instances of the libraries: the inputs at which the
  witnesses apply the properties.
\<close>

definition demo_env :: environment where
  "demo_env = [''DEPLOY_TYPE'' \<mapsto> ''Deployment'',
     ''EPHEMERAL_STORAGE_POD_USAGE'' \<mapsto> ''true'',
     ''EPHEMERAL_STORAGE_NODE_AVAILABLE'' \<mapsto> ''true'',
     ''EPHEMERAL_STORAGE_CONTAINER_LIMIT_PERCENTAGE'' \<mapsto> ''true'',
     ''ADJUSTED_POLLING_RATE'' \<mapsto> ''true'']"

definition daemon_env :: environment where
  "daemon_env = [''CURRENT_NODE_NAME'' \<mapsto> ''node-a'', ''EPHEMERAL_STORAGE_POD_USAGE'' \<mapsto> ''true'']"

lemma env_ok_demo [simp]: "env_ok demo_env" "env_ok daemon_env"
  by (simp_all add: env_ok_def demo_env_def daemon_env_def DeployAsDaemonSet_def CurrentNodeName_def GetEnv_def)

definition booted :: "environment \<Rightarrow> (Node \<times> Collector) \<times> (mem_vec, string list, string list) process" where
  "booted env = (case boot mem_prom list_set env [] of Inr x \<Rightarrow> x | Inl e \<Rightarrow> undefined)"

text \<open>The stats summary of one pod, and a decoder that knows one document.\<close>

definition demo_pod :: PodSummary where
  "demo_pod = \<lparr>ps_Name = ''web'', ps_Namespace = ''default'',
     ps_EphemeralStorage = \<lparr>fig_usedBytes = Fin 4096, fig_availableBytes = Fin 8192,
       fig_capacityBytes = Fin 16384, fig_inodes = Fin 64, fig_inodesFree = Fin 32,
       fig_inodesUsed = Fin 32\<rparr>,
     ps_Containers = [], ps_Volumes = []\<rparr>"

definition demo_summary :: Summary where
  "demo_summary = \<lparr>sm_NodeName = ''node-a'', sm_Pods = [demo_pod]\<rparr>"

definition demo_decoder :: "string \<Rightarrow> string + Summary" where
  "demo_decoder content =
     (if content = ''summary'' then Inr demo_summary else Inl ''unexpected end of JSON input'')"

definition demo_deployment ::
  "environment \<Rightarrow> (mem_vec, string list, string list, int) deployment" where
  "demo_deployment env = \<lparr>prom = mem_prom, sets = list_set, backoff = retry_upto 2,
     map_order = sorted_keys, decoder = demo_decoder, approximate = float_of_int, new_pool = ants_pool,
     node_cfg = node_config env (scrape_interval env), pod_cfg = collector_config env (scrape_interval env),
     interval = scrape_interval env, interval_mill = sample_interval_mill env\<rparr>"

definition demo_world :: "environment \<Rightarrow> (mem_vec, string list) world" where
  "demo_world env = started (snd (booted env))"

text \<open>Attempts every client answers, and attempts every client fails.\<close>

definition answering :: "string \<Rightarrow> nat \<Rightarrow> attempt_env" where
  "answering content i = \<lparr>endpoints = Map.empty, do_raw = (\<lambda>_. Inr content),
     client_ano = (\<lambda>_. Inr (200, Inr content)), client_raw = (\<lambda>_. Inr (200, Inr content))\<rparr>"

definition failing :: "nat \<Rightarrow> attempt_env" where
  "failing i = \<lparr>endpoints = Map.empty, do_raw = (\<lambda>_. Inl ''timeout''),
     client_ano = (\<lambda>_. Inl ''timeout''), client_raw = (\<lambda>_. Inl ''timeout'')\<rparr>"

definition demo_node :: v1_Node where
  "demo_node = \<lparr>n_Name = ''node-a'',
     n_Addresses = [\<lparr>addr_Type = ''Hostname'', addr_Address = ''node-a''\<rparr>,
                    \<lparr>addr_Type = ''InternalIP'', addr_Address = ''10.0.0.7''\<rparr>],
     n_KubeletPort = 10250, n_ConditionReasons = [''KubeletHasSufficientMemory'', ''KubeletReady'']\<rparr>"

text \<open>A pod package whose vectors exist and hold one series.\<close>

definition demo_pods :: "mem_vec pod_state" where
  "demo_pods = \<lparr>gauges = (\<lambda>k. Some \<lparr>mem_desc = pod_desc k,
       mem_rows = (if k = podGaugeVec then [pod_labels ''default'' ''web'' ''node-a'' \<mapsto> Fin 4096] else Map.empty)\<rparr>),
     nodeTrackers = Map.empty, scrapeMissTolerance = 2, lookup = Map.empty\<rparr>"

lemma mem_prom_prometheus: "prometheus mem_prom"
  by (rule mem.prometheus_axioms)

lemma list_set_name_set: "name_set list_set"
  by (rule list.name_set_axioms)

lemma demo_deployment_ok [simp]: "deployment_ok (demo_deployment env)"
  by (simp add: deployment_ok_def demo_deployment_def mem_prom_prometheus list_set_name_set
      range_order_sorted_keys ants.worker_pool_axioms bounded.retrying_axioms)

lemma demo_pods_initialised [simp]: "pod_initialised mem_prom demo_pods"
  by (simp add: initialised_def demo_pods_def mem_prom_def)

lemma demo_pods_trackers [simp]: "trackers_ok demo_pods"
  by (simp add: trackers_ok_def demo_pods_def node_seen_def seen_ok_def)

text \<open>The booted exporter satisfies the premises of the properties over schedules.\<close>

lemma booted_boot:
  assumes "env_ok env"
  shows "boot mem_prom list_set env [] = Inr (booted env)"
    and "fst (booted env) = (node_config env (scrape_interval env), collector_config env (scrape_interval env))"
    and "packages_ready mem_prom (node_config env (scrape_interval env)) (pkgs (snd (booted env)))"
    and "exported mem_prom (pkgs (snd (booted env))) = (\<lambda>_ _. None)"
    and "node_set (nodes (pkgs (snd (booted env)))) =
      (if DeployAsDaemonSet env then [CurrentNodeName env] else [])"
proof -
  have fresh: "registered_names mem_prom [] \<inter> (pod_metric_names \<union> node_metric_names) = {}"
    by (simp add: mem_prom_def)
  obtain st where st: "boot mem_prom list_set env [] =
        Inr ((node_config env (scrape_interval env), collector_config env (scrape_interval env)), st)"
      "packages_ready mem_prom (node_config env (scrape_interval env)) (pkgs st)"
      "\<forall>k ls. exported mem_prom (pkgs st) k ls = None"
      "node_set (nodes (pkgs st)) =
        (if DeployAsDaemonSet env then set_add list_set (CurrentNodeName env) (new_set list_set) else new_set list_set)"
    using mem.boot_ok [OF assms fresh, of list_set] by (elim exE conjE) (rule that)
  then have b: "booted env = ((node_config env (scrape_interval env), collector_config env (scrape_interval env)), st)"
    by (simp add: booted_def)
  show "boot mem_prom list_set env [] = Inr (booted env)"
    and "fst (booted env) = (node_config env (scrape_interval env), collector_config env (scrape_interval env))"
    and "packages_ready mem_prom (node_config env (scrape_interval env)) (pkgs (snd (booted env)))"
    and "exported mem_prom (pkgs (snd (booted env))) = (\<lambda>_ _. None)"
    and "node_set (nodes (pkgs (snd (booted env)))) =
      (if DeployAsDaemonSet env then [CurrentNodeName env] else [])"
    using st by (simp_all add: b fun_eq_iff list_set_def)
qed

lemma demo_world_ready:
  "env_ok env \<Longrightarrow> world_ready (demo_deployment env) (demo_world env)"
  using booted_boot(3) by (simp add: demo_deployment_def demo_world_def started_def)

text \<open>The demo's pod as the API server lists it, and its entry in the lookup table.\<close>

definition demo_v1_container :: "int v1_Container" where
  "demo_v1_container = \<lparr>c_Name = ''nginx'',
     c_VolumeMounts = [\<lparr>vm_Name = ''cache'', vm_MountPath = ''/cache''\<rparr>, \<lparr>vm_Name = ''conf'', vm_MountPath = ''/etc''\<rparr>],
     c_Limits = [(''cpu'', 2), (''ephemeral-storage'', 8192)]\<rparr>"

definition demo_v1_pod :: "int v1_Pod" where
  "demo_v1_pod = \<lparr>p_Name = ''web'', p_Namespace = ''default'', p_Phase = ''Running'',
     p_Volumes = Some [\<lparr>v_Name = ''cache'', v_EmptyDir = Some (Some 4096)\<rparr>, \<lparr>v_Name = ''conf'', v_EmptyDir = None\<rparr>],
     p_Containers = [demo_v1_container]\<rparr>"

definition demo_entry :: pod where
  "demo_entry = \<lparr>pod_containers = [\<lparr>ct_name = ''nginx'', ct_limit = Fin 8192, ct_emptyDirVolumes = None\<rparr>]\<rparr>"

lemma demo_collector:
  "cr_podUsage (collector_config demo_env i)" "\<not> cr_inodes (collector_config demo_env i)"
  "cr_containerLimitsPercentage (collector_config demo_env i)"
  "\<not> cr_containerVolumeUsage (collector_config demo_env i)"
  "\<not> cr_containerVolumeLimitsPercentage (collector_config demo_env i)"
  "\<not> cr_containerRootfsUsage (collector_config demo_env i)"
  "\<not> cr_containerLogsUsage (collector_config demo_env i)"
  "\<not> cr_listPodsWithCache (collector_config demo_env i)"
  "\<not> cr_deployAsDaemonSet (collector_config demo_env i)"
  by (simp_all add: collector_config_def env_bool_def demo_env_def GetEnv_def parse_bool_def ParseBool_def
      DeployAsDaemonSet_def)

lemma demo_fields [simp]:
  "prom (demo_deployment env) = mem_prom" "sets (demo_deployment env) = list_set"
  "backoff (demo_deployment env) = retry_upto 2" "decoder (demo_deployment env) = demo_decoder"
  "interval_mill (demo_deployment env) = sample_interval_mill env"
  "map_order (demo_deployment env) = sorted_keys" "approximate (demo_deployment env) = float_of_int"
  "new_pool (demo_deployment env) = ants_pool" "interval (demo_deployment env) = scrape_interval env"
  "node_cfg (demo_deployment env) = node_config env (scrape_interval env)"
  "pod_cfg (demo_deployment env) = collector_config env (scrape_interval env)"
  by (simp_all add: demo_deployment_def)

lemma demo_interval: "scrape_interval demo_env = 15" "scrape_interval daemon_env = 15"
  by (auto simp: scrape_interval_def GetEnv_def demo_env_def daemon_env_def parse_int_def parse_uint_def digit_val_def)

text \<open>The demo's retries are limited.\<close>

lemma demo_limit:
  assumes "env \<in> {demo_env, daemon_env}"
  shows "Seconds (scrape_interval env) \<noteq> 0"
proof
  assume "Seconds (scrape_interval env) = 0"
  then have "sint (Seconds (scrape_interval env)) = 0" by simp
  moreover have "scrape_interval env = 15" using assms demo_interval by auto
  ultimately show False by (simp add: Seconds_def)
qed

lemma demo_pool:
  assumes "env \<in> {demo_env, daemon_env}"
  shows "pool_of (demo_deployment env) = Some (Some 10)" and "sint (MaxNodeQueryConcurrency (node_config env i)) = 10" and "sint (Seconds (scrape_interval env)) = 15000000000"
proof -
  have i: "scrape_interval env = 15"
    using assms demo_interval by auto
  then show "sint (Seconds (scrape_interval env)) = 15000000000" by (simp add: Seconds_def)
  have max: "MaxNodeQueryConcurrency (node_config env j) = 10" for j
    using assms by (auto simp: node_config_def demo_env_def daemon_env_def atoi_def parse_int_def parse_uint_def digit_val_def)
  then show "pool_of (demo_deployment env) = Some (Some 10)"
    by (simp add: pool_of_def made_pool_def ants_pool_def i Seconds_def)
  show "sint (MaxNodeQueryConcurrency (node_config env i)) = 10" by (simp add: max)
qed

end
