(* ===== verification/PodProperties.thy ===== *)
theory PodProperties
  imports Demo
begin

text \<open>
  The properties of the pod package, each with a witness on the concrete exporter of \<open>Demo\<close>
  where it has hypotheses.
\<close>

section \<open>Scrape-driven eviction\<close>

lemma node_seen_None_tracker:
  "node_seen st n p = None \<Longrightarrow> tracker_misses (t, node_seen st n) p = None"
  by (simp add: tracker_misses_def)

lemma tracker_inv_node: "trackers_ok st \<Longrightarrow> tracker_inv (scrapeMissTolerance st, node_seen st n)"
  by (simp add: trackers_ok_def tracker_inv_def)

text \<open>C12: over any history of scrapes of a node (newest first), the counter of a pod is the
  number of scrapes since the pod was last listed, until the tolerance is reached and the pod is
  forgotten; the run never panics, and the counters of other nodes are untouched.\<close>

theorem miss_counter_history:
  assumes "prometheus P" and "range_order ord" and "pod_initialised P st" and "trackers_ok st"
    and new: "node_seen st n p = None"
  shows "\<exists>st'. run_scrapes P ord n (rev hist) st = Some st' \<and>
    map_option sint (node_seen st' n p) =
      (case missed_since hist p of
         Some k \<Rightarrow> if k < sint (scrapeMissTolerance st) then Some k else None
       | None \<Rightarrow> None) \<and>
    (\<forall>m. m \<noteq> n \<longrightarrow> nodeTrackers st' m = nodeTrackers st m)"
proof -
  obtain st' where st': "run_scrapes P ord n (rev hist) st = Some st'"
      "(scrapeMissTolerance st, node_seen st' n) =
        node_tracker.run hist (scrapeMissTolerance st, node_seen st n)"
      "\<forall>m. m \<noteq> n \<longrightarrow> nodeTrackers st' m = nodeTrackers st m"
    using prometheus.run_scrapes_ok [OF assms(1,3,2,4), of n hist] by blast
  have "tracker_misses (node_tracker.run hist (scrapeMissTolerance st, node_seen st n)) p =
      (case missed_since hist p of
         Some k \<Rightarrow> if k < sint (scrapeMissTolerance st) then Some k else None | None \<Rightarrow> None)"
    using node_tracker.run_misses [OF tracker_inv_node [OF assms(4)] node_seen_None_tracker [OF new], of hist]
    unfolding fst_conv .
  then have "map_option sint (node_seen st' n p) =
      (case missed_since hist p of
         Some k \<Rightarrow> if k < sint (scrapeMissTolerance st) then Some k else None | None \<Rightarrow> None)"
    unfolding st'(2) [symmetric] tracker_misses_def snd_conv .
  with st'(1,3) show ?thesis by blast
qed

lemma miss_counter_history_witness:
  "\<exists>st'. run_scrapes mem_prom sorted_keys ''node-a'' (rev [[], [''web'']]) demo_pods = Some st' \<and>
    map_option sint (node_seen st' ''node-a'' ''web'') = Some 1"
  using miss_counter_history [OF mem_prom_prometheus range_order_sorted_keys demo_pods_initialised
      demo_pods_trackers, of "''node-a''" "''web''" "[[], [''web'']]"]
  by (force simp: demo_pods_def node_seen_def)

text \<open>C3: a scrape takes away a pod's series exactly when the pod has then been missing from
  as many consecutive scrapes as the tolerance says, neither earlier nor later.\<close>

theorem pod_evicted_exactly_at_tolerance:
  assumes "prometheus P" and "range_order ord" and "pod_initialised P st" and "trackers_ok st"
    and new: "node_seen st n p = None"
    and run: "run_scrapes P ord n (rev hist) st = Some st1"
    and scrape: "EvictStalePods P ord n cur st1 = Some st2"
    and x: "ls ''pod_name'' = Some p" "pod_reading P st1 k ls = Some x"
  shows "pod_reading P st2 k ls = None \<longleftrightarrow>
    missed_since (cur # hist) p = Some (sint (scrapeMissTolerance st))"
proof -
  have st1: "pod_initialised P st1" "trackers_ok st1" "scrapeMissTolerance st1 = scrapeMissTolerance st"
      "(scrapeMissTolerance st, node_seen st1 n) =
        node_tracker.run hist (scrapeMissTolerance st, node_seen st n)"
    using prometheus.run_scrapes_ok [OF assms(1,3,2,4), of n hist] run by auto
  have "pod_reading P st2 k ls = None \<longleftrightarrow>
      p \<in> stale_pods (scrapeMissTolerance st) cur (node_seen st1 n)"
    using prometheus.EvictStalePods_ok [OF assms(1) st1(1) assms(2) trackers_ok_finite [OF st1(2)], of n cur]
      scrape x st1(3) by auto
  also have "\<dots> \<longleftrightarrow> p \<in> tracker_evicts cur (node_tracker.run hist (scrapeMissTolerance st, node_seen st n))"
    unfolding st1(4) [symmetric] tracker_evicts_def fst_conv snd_conv ..
  also have "\<dots> \<longleftrightarrow> missed_since (cur # hist) p = Some (sint (scrapeMissTolerance st))"
    using node_tracker.run_evicts [OF tracker_inv_node [OF assms(4)] node_seen_None_tracker [OF new]]
    by simp
  finally show ?thesis .
qed

text \<open>The first two scrapes of the demo, computed.\<close>

lemma demo_scrapes:
  "run_scrapes mem_prom sorted_keys ''node-a'' (rev [[], [''web'']]) demo_pods =
     Some (demo_pods\<lparr>nodeTrackers := [''node-a'' \<mapsto> [''web'' \<mapsto> 1]]\<rparr>)"
  by (simp add: run_scrapes_def EvictStalePods_def stale_step_def sorted_keys_def demo_pods_def
      word_sle_eq)

lemma pod_evicted_exactly_at_tolerance_witness:
  "\<exists>st1 st2. run_scrapes mem_prom sorted_keys ''node-a'' (rev [[], [''web'']]) demo_pods = Some st1 \<and>
    EvictStalePods mem_prom sorted_keys ''node-a'' [] st1 = Some st2 \<and>
    pod_reading mem_prom st1 podGaugeVec (pod_labels ''default'' ''web'' ''node-a'') = Some (Fin 4096) \<and>
    pod_reading mem_prom st2 podGaugeVec (pod_labels ''default'' ''web'' ''node-a'') = None"
proof -
  let ?st1 = "demo_pods\<lparr>nodeTrackers := [''node-a'' \<mapsto> [''web'' \<mapsto> 1 :: int64]]\<rparr>"
  have r: "pod_reading mem_prom ?st1 podGaugeVec (pod_labels ''default'' ''web'' ''node-a'') = Some (Fin 4096)"
    by (simp add: reading_def demo_pods_def mem_prom_def)
  have "pod_initialised mem_prom ?st1" by simp
  moreover have "finite (dom (node_seen ?st1 ''node-a''))" by (simp add: node_seen_def)
  ultimately obtain st2 where st2: "EvictStalePods mem_prom sorted_keys ''node-a'' [] ?st1 = Some st2"
    using mem.EvictStalePods_ok [OF _ range_order_sorted_keys] by blast
  have "node_seen demo_pods ''node-a'' ''web'' = None"
    by (simp add: node_seen_def demo_pods_def)
  moreover have "missed_since ([] # [[], [''web'']]) ''web'' = Some (sint (scrapeMissTolerance demo_pods))"
    by (simp add: demo_pods_def)
  ultimately have "pod_reading mem_prom st2 podGaugeVec (pod_labels ''default'' ''web'' ''node-a'') = None"
    using pod_evicted_exactly_at_tolerance [OF mem_prom_prometheus range_order_sorted_keys
        demo_pods_initialised demo_pods_trackers _ demo_scrapes st2 _ r]
    by (simp add: pod_labels_def)
  then show ?thesis using demo_scrapes st2 r by blast
qed

text \<open>C22: one call of \<open>EvictStalePods\<close>.  Listed pods are reset to zero, the others count one
  more miss and are forgotten at the tolerance; exactly the series of the forgotten pods are
  deleted; nothing else of the package changes, and the counters stay in \<open>[0, tolerance)\<close>, so
  \<open>misses++\<close> cannot overflow.\<close>

theorem EvictStalePods_exact:
  assumes "prometheus P" and "range_order ord" and "pod_initialised P st" and "trackers_ok st"
  shows "\<exists>st'. EvictStalePods P ord n cur st = Some st' \<and> trackers_ok st' \<and>
    (\<forall>p. node_seen st' n p =
      (if p \<in> set cur then Some 0
       else case node_seen st n p of
         None \<Rightarrow> None
       | Some misses \<Rightarrow>
           if sint (scrapeMissTolerance st) \<le> sint misses + 1 then None else Some (misses + 1))) \<and>
    (\<forall>k ls. pod_reading P st' k ls =
      (if \<exists>p misses. ls ''pod_name'' = Some p \<and> p \<notin> set cur \<and> node_seen st n p = Some misses \<and>
           sint (scrapeMissTolerance st) \<le> sint misses + 1
       then None else pod_reading P st k ls)) \<and>
    (\<forall>m. m \<noteq> n \<longrightarrow> nodeTrackers st' m = nodeTrackers st m) \<and> lookup st' = lookup st"
proof -
  let ?tol = "scrapeMissTolerance st"
  have seen: "seen_ok ?tol (node_seen st n)" using assms(4) by (simp add: trackers_ok_def)
  have reach: "word_sle ?tol (misses + 1) \<longleftrightarrow> sint ?tol \<le> sint misses + 1"
    if "node_seen st n p = Some misses" for p misses
    using seen_ok_below_tolerance [OF seen that] by (simp add: word_sle_eq)
  obtain st' where st': "EvictStalePods P ord n cur st = Some st'"
      "st' = st\<lparr>gauges := gauges st', nodeTrackers := (nodeTrackers st)(n \<mapsto> stale_seen ?tol cur (node_seen st n))\<rparr>"
      "\<forall>k ls. pod_reading P st' k ls =
        (if \<exists>p \<in> stale_pods ?tol cur (node_seen st n). ls ''pod_name'' = Some p
         then None else pod_reading P st k ls)"
    using prometheus.EvictStalePods_ok [OF assms(1,3,2) trackers_ok_finite [OF assms(4)], of n cur]
    by (elim exE conjE) (rule that)
  have f: "nodeTrackers st' = (nodeTrackers st)(n \<mapsto> stale_seen ?tol cur (node_seen st n))"
      "scrapeMissTolerance st' = ?tol" "lookup st' = lookup st"
    by (subst st'(2), simp)+
  have "trackers_ok st'"
    using assms(4) by (intro trackers_ok_upd [OF assms(4) f(1,2)])
      (auto simp: trackers_ok_def intro: seen_ok_stale_seen)
  moreover have "node_seen st' n p = (if p \<in> set cur then Some 0
       else case node_seen st n p of
         None \<Rightarrow> None
       | Some misses \<Rightarrow> if sint ?tol \<le> sint misses + 1 then None else Some (misses + 1))" for p
    using reach [of p] by (auto simp: node_seen_def f stale_seen_def split: option.splits)
  moreover have "(\<exists>p \<in> stale_pods ?tol cur (node_seen st n). ls ''pod_name'' = Some p) \<longleftrightarrow>
      (\<exists>p misses. ls ''pod_name'' = Some p \<and> p \<notin> set cur \<and> node_seen st n p = Some misses \<and>
         sint ?tol \<le> sint misses + 1)" for ls
    using reach by (auto simp: stale_pods_def)
  ultimately show ?thesis
    using st'(1,3) f by (intro exI [of _ st']) simp
qed

lemma EvictStalePods_exact_witness:
  "\<exists>st'. EvictStalePods mem_prom sorted_keys ''node-a'' [''web''] demo_pods = Some st' \<and>
    node_seen st' ''node-a'' ''web'' = Some 0"
  using EvictStalePods_exact [OF mem_prom_prometheus range_order_sorted_keys demo_pods_initialised
      demo_pods_trackers, of "''node-a''" "[''web'']"]
  by force

text \<open>C23: Go visits the entries of the miss map in an arbitrary order; any two orders leave the
  same counters and the same series.\<close>

theorem EvictStalePods_any_order:
  assumes "prometheus P" and "range_order ord" and "range_order ord'"
    and "pod_initialised P st" and "trackers_ok st"
  shows "\<exists>st1 st2. EvictStalePods P ord n cur st = Some st1 \<and> EvictStalePods P ord' n cur st = Some st2 \<and>
    nodeTrackers st1 = nodeTrackers st2 \<and> pod_reading P st1 = pod_reading P st2"
proof -
  note ok = prometheus.EvictStalePods_ok [OF assms(1,4) _ trackers_ok_finite [OF assms(5)], of _ n cur]
  obtain st1 where st1: "EvictStalePods P ord n cur st = Some st1"
      "st1 = st\<lparr>gauges := gauges st1, nodeTrackers := (nodeTrackers st)
        (n \<mapsto> stale_seen (scrapeMissTolerance st) cur (node_seen st n))\<rparr>"
      "\<forall>k ls. pod_reading P st1 k ls =
        (if \<exists>p \<in> stale_pods (scrapeMissTolerance st) cur (node_seen st n). ls ''pod_name'' = Some p
         then None else pod_reading P st k ls)"
    using ok [OF assms(2)] by (elim exE conjE) (rule that)
  obtain st2 where st2: "EvictStalePods P ord' n cur st = Some st2"
      "st2 = st\<lparr>gauges := gauges st2, nodeTrackers := (nodeTrackers st)
        (n \<mapsto> stale_seen (scrapeMissTolerance st) cur (node_seen st n))\<rparr>"
      "\<forall>k ls. pod_reading P st2 k ls =
        (if \<exists>p \<in> stale_pods (scrapeMissTolerance st) cur (node_seen st n). ls ''pod_name'' = Some p
         then None else pod_reading P st k ls)"
    using ok [OF assms(3)] by (elim exE conjE) (rule that)
  have "nodeTrackers st1 = nodeTrackers st2" by (subst st1(2), subst st2(2)) simp
  moreover have "pod_reading P st1 = pod_reading P st2" using st1(3) st2(3) by (simp add: fun_eq_iff)
  ultimately show ?thesis using st1(1) st2(1) by blast
qed

definition reversed_keys :: "seen_map \<Rightarrow> string list" where
  "reversed_keys m = rev (sorted_keys m)"

lemma EvictStalePods_any_order_witness:
  "\<exists>st1 st2. EvictStalePods mem_prom sorted_keys ''node-a'' [''web'', ''db''] demo_pods = Some st1 \<and>
    EvictStalePods mem_prom reversed_keys ''node-a'' [''web'', ''db''] demo_pods = Some st2 \<and>
    nodeTrackers st1 = nodeTrackers st2"
proof -
  have "range_order reversed_keys"
    using range_order_sorted_keys by (simp add: range_order_def reversed_keys_def)
  then show ?thesis
    using EvictStalePods_any_order [OF mem_prom_prometheus range_order_sorted_keys _ demo_pods_initialised
        demo_pods_trackers, of reversed_keys "''node-a''" "[''web'', ''db'']"]
    by blast
qed

section \<open>SetMetrics and the direct evictions\<close>

text \<open>C19: \<open>SetMetrics\<close> is a sequence of gauge writes computed from the configuration, the
  pod's entry in the lookup table and the figures: it never panics, every series ends at the
  last value written to it, and a series without a write keeps its value.\<close>

theorem SetMetrics_refines_writes:
  assumes "prometheus P" and "pod_initialised P st"
  shows "\<exists>st'. SetMetrics P cr p ns n f volumes containers st = Some st' \<and> pod_initialised P st' \<and>
    st' = st\<lparr>gauges := gauges st'\<rparr> \<and>
    (\<forall>k ls. pod_reading P st' k ls =
      (case last_write (pod_writes cr (lookup st p) p ns n f volumes containers) k ls of
         Some x \<Rightarrow> Some x | None \<Rightarrow> pod_reading P st k ls))"
  using prometheus.SetMetrics_ok [OF assms, of cr p ns n f volumes containers] by blast

lemma SetMetrics_refines_writes_witness:
  "\<exists>st'. SetMetrics mem_prom (collector_config demo_env 15) ''web'' ''default'' ''node-a''
      (ps_EphemeralStorage demo_pod) [] [] demo_pods = Some st' \<and>
    pod_reading mem_prom st' podGaugeVec (pod_labels ''default'' ''web'' ''node-a'') = Some (Fin 4096)"
proof -
  have on: "cr_podUsage (collector_config demo_env 15)" "\<not> cr_inodes (collector_config demo_env 15)"
    by (simp_all add: collector_config_def env_bool_def demo_env_def GetEnv_def parse_bool_def ParseBool_def)
  show ?thesis
    using SetMetrics_refines_writes [OF mem_prom_prometheus demo_pods_initialised,
        of "collector_config demo_env 15" "''web''" "''default''" "''node-a''" "ps_EphemeralStorage demo_pod" "[]" "[]"]
    by (auto simp: pod_writes_def on last_write_append demo_pod_def
        dest!: spec [where x = podGaugeVec] split: option.splits)
qed

text \<open>The metrics a configuration turns on.\<close>

fun metric_enabled :: "Collector \<Rightarrow> pod_vec \<Rightarrow> bool" where
  "metric_enabled cr podGaugeVec = cr_podUsage cr"
| "metric_enabled cr inodesGaugeVec = cr_inodes cr"
| "metric_enabled cr inodesFreeGaugeVec = cr_inodes cr"
| "metric_enabled cr inodesUsedGaugeVec = cr_inodes cr"
| "metric_enabled cr containerVolumeUsageVec = cr_containerVolumeUsage cr"
| "metric_enabled cr containerPercentageLimitsVec = cr_containerLimitsPercentage cr"
| "metric_enabled cr containerPercentageVolumeLimitsVec = cr_containerVolumeLimitsPercentage cr"
| "metric_enabled cr containerRootfsInodesVec = (cr_containerRootfsUsage cr \<and> cr_inodes cr)"
| "metric_enabled cr containerRootfsInodesFreeVec = (cr_containerRootfsUsage cr \<and> cr_inodes cr)"
| "metric_enabled cr containerRootfsInodesUsedVec = (cr_containerRootfsUsage cr \<and> cr_inodes cr)"
| "metric_enabled cr containerLogsInodesVec = (cr_containerLogsUsage cr \<and> cr_inodes cr)"
| "metric_enabled cr containerLogsInodesFreeVec = (cr_containerLogsUsage cr \<and> cr_inodes cr)"
| "metric_enabled cr containerLogsInodesUsedVec = (cr_containerLogsUsage cr \<and> cr_inodes cr)"
| "metric_enabled cr containerRootfsUsedBytesVec = cr_containerRootfsUsage cr"
| "metric_enabled cr containerRootfsAvailableBytesVec = cr_containerRootfsUsage cr"
| "metric_enabled cr containerRootfsCapacityBytesVec = cr_containerRootfsUsage cr"
| "metric_enabled cr containerRootfsUsagePercentageVec = cr_containerRootfsUsage cr"
| "metric_enabled cr containerLogsUsedBytesVec = cr_containerLogsUsage cr"
| "metric_enabled cr containerLogsAvailableBytesVec = cr_containerLogsUsage cr"
| "metric_enabled cr containerLogsCapacityBytesVec = cr_containerLogsUsage cr"
| "metric_enabled cr containerLogsUsagePercentageVec = cr_containerLogsUsage cr"

lemma fs_writes_inodes: "(k, ls, x) \<in> set (fs_writes a b c d e g h ino labels fs) \<Longrightarrow>
    k \<in> {a, b, c, d} \<or> k \<in> {e, g, h} \<and> ino"
  by (auto simp: fs_writes_def split: if_splits)

lemma pod_writes_enabled:
  "(k, ls, x) \<in> set (pod_writes cr r p ns n f vs cs) \<Longrightarrow> metric_enabled cr k"
  unfolding pod_writes_def
  by (auto simp: volume_usage_writes_def volume_limit_writes_def container_limit_write_def Let_def
      rootfs_writes_def logs_writes_def split: if_splits dest!: fs_writes_inodes)

text \<open>C20: \<open>SetMetrics\<close> only changes series of its own pod, namespace and node, at the labels their
  vector was declared with, and only of metrics that the configuration enables.\<close>

theorem SetMetrics_only_own_series:
  assumes "prometheus P" and "pod_initialised P st"
    and "SetMetrics P cr p ns n f volumes containers st = Some st'"
    and changed: "pod_reading P st' k ls \<noteq> pod_reading P st k ls"
  shows "ls ''pod_name'' = Some p \<and> ls ''pod_namespace'' = Some ns \<and> ls ''node_name'' = Some n \<and>
    dom ls = set (variable_labels (pod_desc k)) \<and> metric_enabled cr k"
proof -
  have "pod_reading P st' k ls =
      (case last_write (pod_writes cr (lookup st p) p ns n f volumes containers) k ls of
         Some x \<Rightarrow> Some x | None \<Rightarrow> pod_reading P st k ls)"
    using prometheus.SetMetrics_ok [OF assms(1,2), of cr p ns n f volumes containers] assms(3) by auto
  then obtain x where "last_write (pod_writes cr (lookup st p) p ns n f volumes containers) k ls = Some x"
    using changed by (auto split: option.splits)
  from last_write_Some [OF this] show ?thesis by (blast dest: pod_writes_labels pod_writes_enabled)
qed

text \<open>A pod package without a series.\<close>

definition empty_pods :: "mem_vec pod_state" where
  "empty_pods = demo_pods\<lparr>gauges := (\<lambda>k. Some \<lparr>mem_desc = pod_desc k, mem_rows = Map.empty\<rparr>)\<rparr>"

lemma empty_pods_ok [simp]: "pod_initialised mem_prom empty_pods" "pod_reading mem_prom empty_pods k ls = None"
  by (simp_all add: empty_pods_def initialised_def mem_prom_def reading_def)

lemma SetMetrics_only_own_series_witness:
  "\<exists>st'. SetMetrics mem_prom (collector_config demo_env 15) ''web'' ''default'' ''node-a''
      (ps_EphemeralStorage demo_pod) [] [] empty_pods = Some st' \<and>
    (\<forall>k ls. pod_reading mem_prom st' k ls \<noteq> None \<longrightarrow>
      ls ''pod_name'' = Some ''web'' \<and> k \<noteq> inodesGaugeVec)"
proof -
  obtain st' where st': "SetMetrics mem_prom (collector_config demo_env 15) ''web'' ''default'' ''node-a''
      (ps_EphemeralStorage demo_pod) [] [] empty_pods = Some st'"
    using mem.SetMetrics_ok [of empty_pods] by force
  have "ls ''pod_name'' = Some ''web'' \<and> k \<noteq> inodesGaugeVec" if "pod_reading mem_prom st' k ls \<noteq> None" for k ls
    using SetMetrics_only_own_series [OF mem_prom_prometheus empty_pods_ok(1) st', of k ls] that demo_collector(2)
    by auto
  then show ?thesis using st' by blast
qed

lemma last_write_None_if: "(\<And>x. (k, ls, x) \<notin> set ws) \<Longrightarrow> last_write ws k ls = None"
  by (simp add: last_write_None)

text \<open>The writes of the blocks before the pod gauges are for other vectors.\<close>

lemma last_write_blocks:
  assumes "k \<in> pod_level"
  shows "last_write (volume_usage_writes p ns n vs r) k ls = None"
    and "last_write (volume_limit_writes p ns n vs r) k ls = None"
    and "last_write (map (container_limit_write p ns n f) cs) k ls = None"
    and "last_write (concat (map (rootfs_writes ino p ns n) css)) k ls = None"
    and "last_write (concat (map (logs_writes ino p ns n) css)) k ls = None"
  by (rule last_write_None_if; use assms in \<open>auto simp: volume_usage_writes_def volume_limit_writes_def
      container_limit_write_def Let_def rootfs_writes_def logs_writes_def pod_level_def
      split: if_splits dest!: fs_writes_labels\<close>)+

text \<open>After \<open>SetMetrics\<close> the pod's own gauges read the figures of the summary, where the
  configuration enables them.\<close>

theorem SetMetrics_pod_gauges:
  assumes "prometheus P" and "pod_initialised P st"
    and run: "SetMetrics P cr p ns n f volumes containers st = Some st'"
  shows "(cr_podUsage cr \<longrightarrow>
      pod_reading P st' podGaugeVec (pod_labels ns p n) = Some (fig_usedBytes f)) \<and>
    (cr_inodes cr \<longrightarrow>
      pod_reading P st' inodesGaugeVec (pod_labels ns p n) = Some (fig_inodes f) \<and>
      pod_reading P st' inodesFreeGaugeVec (pod_labels ns p n) = Some (fig_inodesFree f) \<and>
      pod_reading P st' inodesUsedGaugeVec (pod_labels ns p n) = Some (fig_inodesUsed f))"
proof -
  have st': "pod_reading P st' k ls =
      (case last_write (pod_writes cr (lookup st p) p ns n f volumes containers) k ls of
         Some x \<Rightarrow> Some x | None \<Rightarrow> pod_reading P st k ls)" for k ls
    using prometheus.SetMetrics_ok [OF assms(1,2), of cr p ns n f volumes containers] run by auto
  show ?thesis
    unfolding st' pod_writes_def by (simp add: last_write_append)
qed

lemma SetMetrics_pod_gauges_witness:
  "\<exists>st'. SetMetrics mem_prom (collector_config demo_env 15) ''web'' ''default'' ''node-a''
      (ps_EphemeralStorage demo_pod) [] [] empty_pods = Some st' \<and>
    pod_reading mem_prom st' podGaugeVec (pod_labels ''default'' ''web'' ''node-a'') = Some (Fin 4096)"
proof -
  obtain st' where st': "SetMetrics mem_prom (collector_config demo_env 15) ''web'' ''default'' ''node-a''
      (ps_EphemeralStorage demo_pod) [] [] empty_pods = Some st'"
    using mem.SetMetrics_ok [of empty_pods] by force
  show ?thesis
    using st' SetMetrics_pod_gauges [OF mem_prom_prometheus empty_pods_ok(1) st'] demo_collector(1)
    by (simp add: demo_pod_def)
qed

text \<open>After \<open>SetMetrics\<close> the write of a container's limit percentage is the last one to its
  series, and no other write goes to a limit series of that container.\<close>

lemma container_limit_row:
  assumes "prometheus P" and "pod_initialised P st"
    and run: "SetMetrics P cr p ns n f volumes containers st = Some st'"
    and on: "cr_containerLimitsPercentage cr"
    and entry: "lookup st p = Some pr" "c \<in> set (pod_containers pr)" "distinct (map ct_name (pod_containers pr))"
    and result: "container_limit_percentage (ct_limit c) (fig_usedBytes f) (fig_availableBytes f)
      (fig_capacityBytes f) = (x, source)"
  shows "pod_reading P st' containerPercentageLimitsVec
      ((container_labels ns p n (ct_name c))(''source'' \<mapsto> source')) =
      (if source' = source then Some x else pod_reading P st containerPercentageLimitsVec
        ((container_labels ns p n (ct_name c))(''source'' \<mapsto> source')))"
proof -
  let ?k = containerPercentageLimitsVec
  let ?ls = "(container_labels ns p n (ct_name c))(''source'' \<mapsto> source')"
  let ?ws = "pod_writes cr (lookup st p) p ns n f volumes containers"
  have writes: "(?k, ls, y) \<in> set ?ws \<longleftrightarrow>
      (\<exists>d \<in> set (pod_containers pr). (?k, ls, y) = container_limit_write p ns n f d)" for ls y
    unfolding pod_writes_def using on entry(1)
    by (auto simp: volume_usage_writes_def volume_limit_writes_def result_containers_def rootfs_writes_def
        logs_writes_def split: if_splits dest!: fs_writes_labels)
  have own: "(?k, (container_labels ns p n (ct_name c))(''source'' \<mapsto> source), x) = container_limit_write p ns n f c"
    using result by (simp add: container_limit_write_def Let_def)
  have unique: "y = x \<and> source' = source" if y: "(?k, ?ls, y) \<in> set ?ws" for y
  proof -
    obtain d where d: "d \<in> set (pod_containers pr)" "(?k, ?ls, y) = container_limit_write p ns n f d"
      using y unfolding writes by blast
    then have "ct_name d = ct_name c"
      by (auto simp: container_limit_write_def container_labels_def Let_def fun_eq_iff
          dest!: spec [where x = "''container''"])
    then have "d = c" using d(1) entry(2,3) by (meson distinct_map inj_onD)
    then have "(?k, ?ls, y) = (?k, (container_labels ns p n (ct_name c))(''source'' \<mapsto> source), x)"
      unfolding d(2) own by simp
    then have eq: "?ls = (container_labels ns p n (ct_name c))(''source'' \<mapsto> source)" "y = x"
      by (auto simp only: prod.inject)
    from fun_cong [OF eq(1), of "''source''"] eq(2) show ?thesis by simp
  qed
  have "last_write ?ws ?k ?ls = (if source' = source then Some x else None)"
  proof (cases "source' = source")
    case True
    have "(?k, (container_labels ns p n (ct_name c))(''source'' \<mapsto> source), x) \<in> set ?ws"
      using own entry(2) unfolding writes by blast
    then have "(?k, ?ls, x) \<in> set ?ws" using True by simp
    from last_write_unique [OF this] have "last_write ?ws ?k ?ls = Some x" using unique by blast
    then show ?thesis using True by simp
  next
    case False
    then have "(?k, ?ls, y) \<notin> set ?ws" for y using unique by blast
    then show ?thesis using False by (simp add: last_write_None_if)
  qed
  then show ?thesis
    using prometheus.SetMetrics_ok [OF assms(1,2), of cr p ns n f volumes containers] run by auto
qed

text \<open>C21: the limit percentage of every container of the pod's entry after \<open>SetMetrics\<close>, provided the
  container names of the entry are distinct (as Kubernetes requires).  A container with a limit
  shows, in the series with source \<open>container\<close>, the bytes the pod uses times 1.024 (as a binary64
  number) in percent of the limit, capped at 100.  A container without one shows, in the series with
  source \<open>node\<close>, the used share of the node, not capped, and NaN when the node's capacity is not
  positive.  The series of the other source stays as it was.\<close>

theorem SetMetrics_container_limits:
  assumes "prometheus P" and "pod_initialised P st"
    and "SetMetrics P cr p ns n f volumes containers st = Some st'"
    and "cr_containerLimitsPercentage cr"
    and "lookup st p = Some pr" "c \<in> set (pod_containers pr)" "distinct (map ct_name (pod_containers pr))"
  shows "pod_reading P st' containerPercentageLimitsVec
      ((container_labels ns p n (ct_name c))(''source'' \<mapsto> ''container'')) =
      (if f64_eq (ct_limit c) (Fin 0)
       then pod_reading P st containerPercentageLimitsVec
         ((container_labels ns p n (ct_name c))(''source'' \<mapsto> ''container''))
       else Some (math_Min (fig_usedBytes f * f64_round False (1024 / 1000) / ct_limit c * Fin 100) (Fin 100))) \<and>
    pod_reading P st' containerPercentageLimitsVec
      ((container_labels ns p n (ct_name c))(''source'' \<mapsto> ''node'')) =
      (if f64_eq (ct_limit c) (Fin 0)
       then Some (if Fin 0 < fig_capacityBytes f
         then math_Max (fig_capacityBytes f - fig_availableBytes f) (Fin 0) * Fin 100 / fig_capacityBytes f
         else NaN)
       else pod_reading P st containerPercentageLimitsVec
         ((container_labels ns p n (ct_name c))(''source'' \<mapsto> ''node'')))"
proof -
  note row = container_limit_row [OF assms]
  consider (limit) "\<not> f64_eq (ct_limit c) (Fin 0)" | (node) "f64_eq (ct_limit c) (Fin 0)" by blast
  then show ?thesis
  proof cases
    case limit
    have "container_limit_percentage (ct_limit c) (fig_usedBytes f) (fig_availableBytes f) (fig_capacityBytes f) =
        (math_Min (fig_usedBytes f * f64_round False (1024 / 1000) / ct_limit c * Fin 100) (Fin 100), ''container'')"
      using limit by (simp add: container_limit_percentage_def bibyte_factor_def Let_def)
    then show ?thesis using row limit by simp
  next
    case node
    have "container_limit_percentage (ct_limit c) (fig_usedBytes f) (fig_availableBytes f) (fig_capacityBytes f) =
        ((if Fin 0 < fig_capacityBytes f
         then math_Max (fig_capacityBytes f - fig_availableBytes f) (Fin 0) * Fin 100 / fig_capacityBytes f
         else NaN), ''node'')"
      using node by (simp add: container_limit_percentage_def)
    then show ?thesis using row node by simp
  qed
qed

lemma bibyte_factor_eq: "bibyte_factor = Fin (1152921504606847 / 1125899906842624)"
  unfolding bibyte_factor_def
  by (subst f64_round_normal [where e = 0]) (simp_all add: rne_numeral)

text \<open>Used 1000 bytes of 2048 with the factor 1.024: exactly half.\<close>

lemma bibyte_thousand: "Fin 1000 * f64_round False (1024 / 1000) = Fin 1024"
  unfolding bibyte_factor_eq [unfolded bibyte_factor_def] times_f64_def
  by (simp, subst f64_round_normal [where e = 10]) (simp_all add: rne_numeral)

lemma half_percentage: "Fin 1024 / Fin 2048 * Fin 100 = Fin 50"
proof -
  have "Fin 1024 / Fin 2048 = Fin (1 / 2)" "Fin (1 / 2) * Fin 100 = Fin 50"
    by (simp_all add: times_f64_def divide_f64_def is_zero_def f64_round_normal [where e = "- 1"]
        f64_round_normal [where e = 5] rne_numeral)
  then show ?thesis by simp
qed

lemma SetMetrics_container_limits_witness:
  "\<exists>st'. SetMetrics mem_prom (collector_config demo_env 15) ''web'' ''default'' ''node-a''
      ((ps_EphemeralStorage demo_pod)\<lparr>fig_usedBytes := Fin 1000\<rparr>) [] []
      (empty_pods\<lparr>lookup := [''web'' \<mapsto> \<lparr>pod_containers = [\<lparr>ct_name = ''nginx'', ct_limit = Fin 2048, ct_emptyDirVolumes = None\<rparr>]\<rparr>]\<rparr>)
      = Some st' \<and>
    pod_reading mem_prom st' containerPercentageLimitsVec
      ((container_labels ''default'' ''web'' ''node-a'' ''nginx'')(''source'' \<mapsto> ''container'')) = Some (Fin 50)"
proof -
  let ?c = "\<lparr>ct_name = ''nginx'', ct_limit = Fin 2048, ct_emptyDirVolumes = None\<rparr>"
  let ?st = "empty_pods\<lparr>lookup := [''web'' \<mapsto> \<lparr>pod_containers = [?c]\<rparr>]\<rparr>"
  let ?f = "(ps_EphemeralStorage demo_pod)\<lparr>fig_usedBytes := Fin 1000\<rparr>"
  have init: "pod_initialised mem_prom ?st" by simp
  obtain st' where st': "SetMetrics mem_prom (collector_config demo_env 15) ''web'' ''default'' ''node-a''
      ?f [] [] ?st = Some st'"
    using mem.SetMetrics_ok [OF init] by force
  have "\<not> f64_eq (Fin 2048) (Fin 0)" by (simp add: f64_eq_def)
  then have "pod_reading mem_prom st' containerPercentageLimitsVec
      ((container_labels ''default'' ''web'' ''node-a'' ''nginx'')(''source'' \<mapsto> ''container'')) =
      Some (math_Min (Fin 50) (Fin 100))"
    using SetMetrics_container_limits [OF mem_prom_prometheus init st' demo_collector(3), of "\<lparr>pod_containers = [?c]\<rparr>" ?c]
    by (simp add: bibyte_thousand [simplified] half_percentage)
  moreover have "math_Min (Fin 50) (Fin 100) = Fin 50" by (simp add: math_Min_def is_zero_def)
  ultimately show ?thesis using st' by simp
qed

text \<open>Evicting a pod deletes its series from all 21 vectors, whatever namespace, node or
  container they are of, keeps every other series, and changes nothing else.\<close>

theorem evictPodByName_exact:
  assumes "prometheus P" and "pod_initialised P st"
  shows "\<exists>st'. evictPodByName P p st = Some st' \<and> pod_initialised P st' \<and>
    st' = st\<lparr>gauges := gauges st'\<rparr> \<and>
    (\<forall>k ls. pod_reading P st' k ls =
      (if ls ''pod_name'' = Some p then None else pod_reading P st k ls))"
  using prometheus.evictPodByName_ok [OF assms, of p] by blast

lemma evictPodByName_exact_witness:
  "\<exists>st'. evictPodByName mem_prom ''web'' demo_pods = Some st' \<and>
    pod_reading mem_prom st' podGaugeVec (pod_labels ''default'' ''web'' ''node-a'') = None"
  using evictPodByName_exact [OF mem_prom_prometheus demo_pods_initialised, of "''web''"]
  by (auto simp: pod_labels_def)

text \<open>Evicting the pods of a node deletes exactly the series labelled with that node from
  all 21 vectors and forgets the node's miss counters.\<close>

theorem EvictPodByNode_exact:
  assumes "prometheus P" and "pod_initialised P st"
  shows "\<exists>st'. EvictPodByNode P [''node_name'' \<mapsto> n] st = Some st' \<and> pod_initialised P st' \<and>
    st' = st\<lparr>gauges := gauges st', nodeTrackers := (nodeTrackers st)(n := None)\<rparr> \<and>
    (\<forall>k ls. pod_reading P st' k ls =
      (if ls ''node_name'' = Some n then None else pod_reading P st k ls))"
  using prometheus.EvictPodByNode_ok [OF assms, of "[''node_name'' \<mapsto> n]"]
  unfolding map_le_singleton_iff fun_upd_same option.case by blast

lemma EvictPodByNode_exact_witness:
  "\<exists>st'. EvictPodByNode mem_prom [''node_name'' \<mapsto> ''node-b''] demo_pods = Some st' \<and>
    pod_reading mem_prom st' podGaugeVec (pod_labels ''default'' ''web'' ''node-a'') = Some (Fin 4096)"
  using EvictPodByNode_exact [OF mem_prom_prometheus demo_pods_initialised, of "''node-b''"]
  by (auto simp: pod_labels_def reading_def demo_pods_def mem_prom_def)

text \<open>Evicting several pods commutes: any two sequences over the same pods run without a
  panic and leave the same series.\<close>

theorem evictions_commute:
  assumes "prometheus P" and "pod_initialised P st" and "set ps = set qs"
  shows "\<exists>s1 s2. for_each (evictPodByName P) ps st = Some s1 \<and>
    for_each (evictPodByName P) qs st = Some s2 \<and> pod_reading P s1 = pod_reading P s2"
proof -
  obtain s1 s2 where s: "for_each (evictPodByName P) ps st = Some s1" "for_each (evictPodByName P) qs st = Some s2"
    using prometheus.evict_pods_ok [OF assms(1,2)] by metis
  then show ?thesis
    using prometheus.evict_pods_commute [OF assms] by blast
qed

lemma evictions_commute_witness:
  "\<exists>s1 s2. for_each (evictPodByName mem_prom) [''web'', ''db''] demo_pods = Some s1 \<and>
    for_each (evictPodByName mem_prom) [''db'', ''web'', ''db''] demo_pods = Some s2 \<and>
    pod_reading mem_prom s1 = pod_reading mem_prom s2"
  by (rule evictions_commute [OF mem_prom_prometheus demo_pods_initialised]) auto

section \<open>Percentages\<close>

lemma bibyte_factor_pos: "Fin 0 < bibyte_factor" "is_finite bibyte_factor"
  by (simp_all add: bibyte_factor_eq)

text \<open>The percentage of a positive container limit is a number in \<open>[0, 100]\<close> and is labelled
  as the container's; without a limit the percentage is the node's used share, labelled so, and
  in \<open>[0, 100]\<close> for every whole capacity up to \<open>2^46\<close> bytes (64 TiB).\<close>

theorem container_limit_percentage_range:
  assumes "Fin 0 < limit" and "is_finite limit" and "Fin 0 \<le> used"
    and "Fin 0 \<le> available" and "0 < capacity" and "capacity \<le> 2 ^ 46"
  shows "snd (container_limit_percentage limit used available (Fin (of_int capacity))) = ''container'' \<and>
    Fin 0 \<le> fst (container_limit_percentage limit used available (Fin (of_int capacity))) \<and>
    fst (container_limit_percentage limit used available (Fin (of_int capacity))) \<le> Fin 100 \<and>
    snd (container_limit_percentage (Fin 0) used available (Fin (of_int capacity))) = ''node'' \<and>
    Fin 0 \<le> fst (container_limit_percentage (Fin 0) used available (Fin (of_int capacity))) \<and>
    fst (container_limit_percentage (Fin 0) used available (Fin (of_int capacity))) \<le> Fin 100"
proof -
  obtain l where l: "limit = Fin l" "0 < l" using assms(1,2) by (rule f64_pos_cases)
  have "Fin 0 \<le> used * bibyte_factor / limit * Fin 100"
    using assms(1-3) bibyte_factor_pos by (intro times_nonneg divide_nonneg) simp_all
  then show ?thesis
    using l math_Min_range [of "used * bibyte_factor / limit * Fin 100" 100]
      used_share_range [OF assms(5,6,4)] assms(5)
    by (simp add: container_limit_percentage_def f64_eq_def is_zero_def Let_def)
qed

lemma container_limit_percentage_range_witness:
  "Fin 0 \<le> fst (container_limit_percentage (Fin 8192) (Fin 4096) (Fin 8192) (Fin (of_int 16384)))"
  using container_limit_percentage_range [of "Fin 8192" "Fin 4096" "Fin 8192" 16384] by simp

text \<open>The percentage of a positive emptyDir size limit is in \<open>[0, 100]\<close> for every usage that
  is not negative.\<close>

theorem volume_limit_percentage_range:
  assumes "0 \<le> sint usedBytes" and "Fin 0 < limit" and "is_finite limit"
  shows "Fin 0 \<le> volume_limit_percentage usedBytes limit \<and> volume_limit_percentage usedBytes limit \<le> Fin 100"
proof -
  have "Fin 0 \<le> float64 usedBytes" using assms(1) by (simp add: float64_def float_of_int_nonneg)
  then have "Fin 0 \<le> float64 usedBytes * bibyte_factor / limit * Fin 100"
    using assms(2,3) bibyte_factor_pos by (intro times_nonneg divide_nonneg) simp_all
  then show ?thesis
    using math_Min_range [of _ 100] by (simp add: volume_limit_percentage_def)
qed

lemma volume_limit_percentage_range_witness:
  "volume_limit_percentage 1000 (Fin 2048) \<le> Fin 100"
  using volume_limit_percentage_range [of 1000 "Fin 2048"] by simp

text \<open>A value of at least \<open>v\<close>, infinity included, and how the operations of the percentage
  keep such a bound.\<close>

definition at_least :: "rat \<Rightarrow> f64 \<Rightarrow> bool" where
  "at_least v y \<longleftrightarrow> y = PosInf \<or> (\<exists>z \<ge> v. y = Fin z)"

lemma at_least_round:
  assumes "0 < v" and "rnd_mag v = v" and "v \<le> r"
  shows "at_least v (f64_round neg r)"
  using assms rnd_mag_mono [OF assms(3)] by (auto simp: at_least_def f64_round_def Let_def)

lemma at_least_cases:
  assumes "at_least v y" obtains "y = PosInf" | z where "v \<le> z" "y = Fin z"
  using assms by (auto simp: at_least_def)

lemma at_least_share:
  assumes "at_least l y" and "0 < l" shows "at_least 1 (y / Fin l)"
  using assms(1)
proof (cases rule: at_least_cases)
  case 1
  then show ?thesis using assms(2) by (simp add: at_least_def divide_f64_def inf_of_def)
next
  case (2 z)
  then have "at_least 1 (f64_round False (z / l))"
    using assms(2) rnd_mag_of_int [of 1] by (intro at_least_round) simp_all
  then show ?thesis using 2 assms(2) by (simp add: divide_f64_def is_zero_def)
qed

lemma at_least_percent:
  assumes "at_least 1 y" shows "at_least 100 (y * Fin 100)"
  using assms
proof (cases rule: at_least_cases)
  case 1
  then show ?thesis by (simp add: at_least_def times_f64_def inf_of_def is_zero_def)
next
  case (2 z)
  then have "at_least 100 (f64_round False (z * 100))"
    using rnd_mag_of_int [of 100] by (intro at_least_round) simp_all
  then show ?thesis using 2 by (simp add: times_f64_def)
qed

lemma at_least_capped: "at_least 100 y \<Longrightarrow> math_Min y (Fin 100) = Fin 100"
  by (auto simp: at_least_def math_Min_def is_zero_def less_f64_def)

text \<open>C33: the factor 1.024 makes the percentage of a limit too high: usage and limit are both plain
  byte counts, and a container or a volume that uses 97.8 percent of its limit (1000 of 1023 bytes)
  or more is reported full, for every whole limit up to \<open>2 ^ 53\<close>.\<close>

theorem limit_reported_full_early:
  assumes "0 < limit" and "limit \<le> 2 ^ 53" and "1000 * limit \<le> 1023 * used"
  shows "container_limit_percentage (Fin (of_int limit)) (Fin (of_int used)) available capacity = (Fin 100, ''container'') \<and>
    (\<forall>w. sint w = used \<longrightarrow> used \<le> 2 ^ 53 \<longrightarrow> volume_limit_percentage w (Fin (of_int limit)) = Fin 100)"
proof -
  have pos: "0 < (of_int limit :: rat)" using assms(1) by simp
  have "(1000 :: rat) * of_int limit \<le> 1023 * of_int used"
    using assms(3) by (metis of_int_le_iff of_int_mult of_int_numeral)
  then have "(of_int limit :: rat) \<le> of_int used * (1152921504606847 / 1125899906842624)"
    using pos by simp
  then have "at_least (of_int limit) (Fin (of_int used) * bibyte_factor)"
    using at_least_round [OF pos rnd_mag_of_int [OF less_imp_le [OF assms(1)] assms(2)]]
    by (simp add: bibyte_factor_eq times_f64_def)
  from at_least_capped [OF at_least_percent [OF at_least_share [OF this pos]]]
  have full: "math_Min (Fin (of_int used) * bibyte_factor / Fin (of_int limit) * Fin 100) (Fin 100) = Fin 100" .
  have "float64 w = Fin (of_int used)" if "sint w = used" "used \<le> 2 ^ 53" for w :: int64
    using that assms(1,3) float_of_int_exact [of used] by (simp add: float64_def)
  then show ?thesis
    using full assms(1) by (auto simp: container_limit_percentage_def volume_limit_percentage_def f64_eq_def Let_def)
qed

lemma limit_reported_full_early_witness:
  "container_limit_percentage (Fin 1023) (Fin 1000) (Fin 0) (Fin 4096) = (Fin 100, ''container'') \<and>
    volume_limit_percentage 1000 (Fin 1023) = Fin 100"
  using limit_reported_full_early [of 1023 1000 "Fin 0" "Fin 4096"] by auto

section \<open>The lookup table\<close>

lemma set_map_filter: "x \<in> set (List.map_filter f xs) \<longleftrightarrow> (\<exists>y \<in> set xs. f y = Some x)"
  by (force simp: List.map_filter_def)

text \<open>C38: the entry of a container lists exactly its mounts of the emptyDir volumes of the pod, each with the size limit of its volume (zero when it has none).\<close>

theorem container_entry_volumes:
  assumes "cr_containerVolumeUsage cr \<or> cr_containerVolumeLimitsPercentage cr"
    and "p_Volumes p = Some vs" and "distinct (map v_Name vs)"
  shows "edv \<in> set (container_volumes (getContainerData approx cr c p)) \<longleftrightarrow>
    (\<exists>vm \<in> set (c_VolumeMounts c). \<exists>v \<in> set vs. \<exists>sizeLimit.
      v_Name v = vm_Name vm \<and> v_EmptyDir v = Some sizeLimit \<and>
      edv = \<lparr>edv_name = vm_Name vm, edv_mountPath = vm_MountPath vm,
             edv_sizeLimit = (case sizeLimit of None \<Rightarrow> Fin 0 | Some q \<Rightarrow> approx q)\<rparr>)"
proof -
  have "edv \<in> set (container_volumes (getContainerData approx cr c p)) \<longleftrightarrow>
      (\<exists>vm \<in> set (c_VolumeMounts c). mounted (empty_dirs approx vs) vm = Some edv)"
    using assms(1,2) by (auto simp: container_volumes_getContainerData set_map_filter)
  also have "\<dots> \<longleftrightarrow> (\<exists>vm \<in> set (c_VolumeMounts c). \<exists>limit. empty_dirs approx vs (vm_Name vm) = Some limit \<and>
      edv = \<lparr>edv_name = vm_Name vm, edv_mountPath = vm_MountPath vm, edv_sizeLimit = limit\<rparr>)"
    by (auto simp: mounted_def)
  finally show ?thesis
    unfolding empty_dirs_distinct [OF assms(3)] volume_limit_def by blast
qed

lemma container_entry_volumes_witness:
  "\<lparr>edv_name = ''cache'', edv_mountPath = ''/cache'', edv_sizeLimit = float_of_int 4096\<rparr> \<in>
    set (container_volumes (getContainerData float_of_int
      ((collector_config demo_env 15)\<lparr>cr_containerVolumeUsage := True\<rparr>) demo_v1_container demo_v1_pod))"
  using container_entry_volumes [of "(collector_config demo_env 15)\<lparr>cr_containerVolumeUsage := True\<rparr>"
      demo_v1_pod "[\<lparr>v_Name = ''cache'', v_EmptyDir = Some (Some 4096)\<rparr>, \<lparr>v_Name = ''conf'', v_EmptyDir = None\<rparr>]"]
  by (simp add: demo_v1_pod_def demo_v1_container_def)

text \<open>The limit of a container's entry is its ephemeral-storage limit, or zero, in whatever
  order the runtime visits the limits map.\<close>

theorem container_entry_limit:
  assumes "cr_containerLimitsPercentage cr" and "distinct (map fst limits)"
    and "set (c_Limits c) = set limits" and "distinct (map fst (c_Limits c))"
  shows "ct_limit (getContainerData approx cr c p) =
    (case map_of limits ''ephemeral-storage'' of None \<Rightarrow> Fin 0 | Some q \<Rightarrow> approx q)"
proof -
  have "ct_limit (getContainerData approx cr c p) = limit_loop approx (c_Limits c) (Fin 0)"
    using assms(1) by (simp add: getContainerData_def Let_def)
  also have "\<dots> = limit_loop approx limits (Fin 0)"
    by (rule limit_loop_order [OF assms(4,2,3)])
  finally show ?thesis by (simp add: limit_loop_map_of)
qed

lemma container_entry_limit_witness:
  "ct_limit (getContainerData float_of_int (collector_config demo_env 15) demo_v1_container demo_v1_pod) =
    float_of_int 8192"
  using container_entry_limit [OF demo_collector(3), of "[(''ephemeral-storage'', 8192), (''cpu'', 2)]"
      demo_v1_container float_of_int 15 demo_v1_pod]
  by (auto simp: demo_v1_container_def)

section \<open>The initial list and the pod watch\<close>

text \<open>C39: the paging loop returns exactly the pods of the pages the API server serves: it ends
  with a list if and only if the server answers with a chain of pages of which only the last has
  no continue token, and then the list is the concatenation of all of them.\<close>

theorem list_pods_returns_all_pages:
  "list_pods server 0 opts [] = Some (Inr ps) \<longleftrightarrow>
     (\<exists>pgs. serves server 0 opts pgs \<and> ps = concat (map pl_Items pgs))"
proof
  assume "list_pods server 0 opts [] = Some (Inr ps)"
  from list_pods_only_pages [OF this] show "\<exists>pgs. serves server 0 opts pgs \<and> ps = concat (map pl_Items pgs)"
    by simp
next
  assume "\<exists>pgs. serves server 0 opts pgs \<and> ps = concat (map pl_Items pgs)"
  then obtain pgs where "serves server 0 opts pgs" "ps = concat (map pl_Items pgs)" by blast
  then show "list_pods server 0 opts [] = Some (Inr ps)" using list_pods_pages [of server 0 opts pgs "[]"] by simp
qed

text \<open>C40: after the initial list the lookup table has, for every pod name, the entry of the last
  listed running pod of that name, and no entry for a name without one; pods that are not running
  are skipped and the metrics are untouched.\<close>

theorem initial_lookup_table:
  assumes "serves server 0 (getPodsListOptions cr) pgs"
  shows "\<exists>st'. initGetPodsData approx cr server st = Some (Inr st') \<and>
    gauges st' = gauges st \<and> nodeTrackers st' = nodeTrackers st \<and>
    (\<forall>name. lookup st' name =
      (case List.find (\<lambda>p. p_Phase p = ''Running'' \<and> p_Name p = name) (rev (concat (map pl_Items pgs))) of
         Some p \<Rightarrow> Some \<lparr>pod_containers = map (\<lambda>c. getContainerData approx cr c p) (p_Containers p)\<rparr>
       | None \<Rightarrow> lookup st name))"
  using list_pods_pages [OF assms, of "[]"]
  by (simp add: initGetPodsData_def frame fold_getPodData last_running_def pod_entry_def
      cong: option.case_cong)

definition demo_server :: "nat \<Rightarrow> ListOptions \<Rightarrow> string + int PodList" where
  "demo_server i opts =
     (if i = 0 then Inr \<lparr>pl_Items = [demo_v1_pod], pl_Continue = ''token''\<rparr>
      else if Continue opts = ''token'' then Inr \<lparr>pl_Items = [demo_v1_pod\<lparr>p_Name := ''db'', p_Phase := ''Pending''\<rparr>], pl_Continue = ''''\<rparr>
      else Inl ''invalid continue token'')"

lemma initial_lookup_table_witness:
  "\<exists>st'. initGetPodsData float_of_int (collector_config demo_env 15) demo_server demo_pods = Some (Inr st') \<and>
    lookup st' ''web'' \<noteq> None \<and> lookup st' ''db'' = None"
proof -
  have "serves demo_server 0 (getPodsListOptions (collector_config demo_env 15))
      [\<lparr>pl_Items = [demo_v1_pod], pl_Continue = ''token''\<rparr>,
       \<lparr>pl_Items = [demo_v1_pod\<lparr>p_Name := ''db'', p_Phase := ''Pending''\<rparr>], pl_Continue = ''''\<rparr>]"
    by (simp add: demo_server_def)
  from initial_lookup_table [OF this, of float_of_int demo_pods] show ?thesis
    by (auto simp: demo_v1_pod_def demo_pods_def)
qed

text \<open>A page request that fails ends the process with status 1, whatever came before.\<close>

theorem list_error_exits:
  assumes "\<forall>i < k. \<exists>pg. server i (opts i) = Inr pg \<and> pl_Continue pg \<noteq> '''' \<and>
      opts (Suc i) = (opts i)\<lparr>Continue := pl_Continue pg\<rparr>"
    and "opts 0 = getPodsListOptions cr" and "server k (opts k) = Inl err"
  shows "initGetPodsData approx cr server st = Some (Inl (Exit 1))"
proof -
  have fails: "list_pods server i (opts i) acc = Some (Inl err)" if "i \<le> k" for i acc
    using that
  proof (induction "k - i" arbitrary: i acc)
    case 0
    then show ?case using assms(3) by (simp add: list_pods.simps [of server i])
  next
    case (Suc d)
    then have "i < k" by simp
    then obtain pg where pg: "server i (opts i) = Inr pg" "pl_Continue pg \<noteq> ''''"
        "opts (Suc i) = (opts i)\<lparr>Continue := pl_Continue pg\<rparr>"
      using assms(1) by blast
    have "list_pods server (Suc i) (opts (Suc i)) (acc @ pl_Items pg) = Some (Inl err)"
      using Suc by simp
    then show ?case using pg by (simp add: list_pods.simps [of server i] Let_def)
  qed
  show ?thesis using fails [of 0 "[]"] assms(2) by (simp add: initGetPodsData_def)
qed

lemma list_error_exits_witness:
  "initGetPodsData float_of_int (collector_config demo_env 15) (\<lambda>i opts. Inl ''forbidden'') demo_pods =
    Some (Inl (Exit 1))"
  by (rule list_error_exits [where k = 0 and opts = "\<lambda>_. getPodsListOptions (collector_config demo_env 15)"])
    simp_all

text \<open>A delete event, as a pod or as a tombstone that holds one, removes the pod's lookup entry
  and all its series and nothing else; any other object leaves the package alone.  No delete event
  panics.\<close>

theorem pod_delete_event:
  assumes "prometheus P" and "pod_initialised P st"
  shows "\<exists>st'. podWatch_DeleteFunc P obj st = Some st' \<and> pod_initialised P st' \<and>
    (case deleted_object obj of
       None \<Rightarrow> st' = st
     | Some p \<Rightarrow>
         st' = st\<lparr>gauges := gauges st', lookup := (lookup st)(p_Name p := None)\<rparr> \<and>
         (\<forall>k ls. pod_reading P st' k ls =
           (if ls ''pod_name'' = Some (p_Name p) then None else pod_reading P st k ls)))"
proof (cases "deleted_object obj")
  case None
  then show ?thesis
    using assms(2) by (cases obj rule: deleted_object.cases) (auto simp: podWatch_DeleteFunc_def)
next
  case (Some p)
  then have obj: "obj = Typed p \<or> obj = DeletedFinalStateUnknown (Typed p)"
    by (cases obj rule: deleted_object.cases) auto
  show ?thesis
    using prometheus.podWatch_DeleteFunc_ok [OF assms obj] unfolding Some option.case .
qed

lemma pod_delete_event_witness:
  "\<exists>st'. podWatch_DeleteFunc mem_prom (DeletedFinalStateUnknown (Typed demo_v1_pod)) demo_pods = Some st' \<and>
    pod_reading mem_prom st' podGaugeVec (pod_labels ''default'' ''web'' ''node-a'') = None"
  using pod_delete_event [OF mem_prom_prometheus demo_pods_initialised,
      of "DeletedFinalStateUnknown (Typed demo_v1_pod)"]
  by (auto simp: demo_v1_pod_def pod_labels_def)

end
