(* ===== verification/NodeProperties.thy ===== *)
theory NodeProperties
  imports Demo
begin

text \<open>
  The properties of the node package and of the collectors' configuration, each with a
  witness on the concrete exporter of \<open>Demo\<close> where it has hypotheses.
\<close>

section \<open>Eviction and figures\<close>

lemma demo_packages_ready:
  "packages_ready mem_prom (node_config demo_env (scrape_interval demo_env)) (pkgs (snd (booted demo_env)))"
  by (rule booted_boot(3)) simp

text \<open>C24: evicting a node takes it out of the set of scraped nodes, deletes exactly the series
  labelled with it from every vector of both packages and forgets its miss counters; the other
  nodes keep everything, and so do the endpoints and the lookup table.\<close>

theorem node_evict_exact:
  assumes "prometheus P" and "name_set S" and "packages_ready P n pk"
  shows "\<exists>pk'. evict P S n node pk = Some pk' \<and> packages_ready P n pk' \<and>
    set (to_slice S (node_set (nodes pk'))) = set (to_slice S (node_set (nodes pk))) - {node} \<and>
    nodeTrackers (pods pk') = (nodeTrackers (pods pk))(node := None) \<and>
    KubeletEndpoint (nodes pk') = KubeletEndpoint (nodes pk) \<and> lookup (pods pk') = lookup (pods pk) \<and>
    (\<forall>k ls. exported P pk' k ls = (if ls ''node_name'' = Some node then None else exported P pk k ls))"
proof -
  obtain pk' where pk': "evict P S n node pk = Some pk'" "packages_ready P n pk'"
      "node_set (nodes pk') = set_remove S node (node_set (nodes pk))"
      "KubeletEndpoint (nodes pk') = KubeletEndpoint (nodes pk)" "lookup (pods pk') = lookup (pods pk)"
      "nodeTrackers (pods pk') = (nodeTrackers (pods pk))(node := None)"
      "\<forall>k ls. exported P pk' k ls = (if ls ''node_name'' = Some node then None else exported P pk k ls)"
    using prometheus.evict_ok [OF assms(1,3), of S node] by (elim exE conjE) (rule that)
  then show ?thesis
    using name_set.slice_remove [OF assms(2)] by (intro exI [of _ pk']) simp
qed

lemma node_evict_exact_witness:
  "\<exists>pk'. evict mem_prom list_set (node_config demo_env (scrape_interval demo_env)) ''node-a''
      (pkgs (snd (booted demo_env))) = Some pk' \<and>
    ''node-a'' \<notin> set (to_slice list_set (node_set (nodes pk')))"
  using node_evict_exact [OF mem_prom_prometheus list_set_name_set demo_packages_ready, of "''node-a''"]
  by auto

text \<open>C37: the node percentage is NaN exactly when the capacity is not positive (zero, negative or
  not a number); for every whole positive capacity up to \<open>2^46\<close> bytes (64 TiB) and every available
  figure that is not negative it is in \<open>[0, 100]\<close>.\<close>

theorem node_percentage_range:
  assumes "0 < capacity" and "capacity \<le> 2 ^ 46" and "Fin 0 \<le> available"
  shows "Fin 0 \<le> node_percentage available (Fin (of_int capacity)) \<and>
    node_percentage available (Fin (of_int capacity)) \<le> Fin 100 \<and>
    (\<forall>c. \<not> Fin 0 < c \<longrightarrow> node_percentage available c = NaN)"
  using used_share_range [OF assms] assms(1) by (simp add: node_percentage_def)

lemma node_percentage_range_witness:
  "node_percentage (Fin 8192) (Fin (of_int 16384)) \<le> Fin 100"
  using node_percentage_range [of 16384 "Fin 8192"] by simp

section \<open>Queries\<close>

text \<open>A query goes through the API server's proxy unless the exporter runs as a Deployment
  that scrapes the kubelets: with any other configuration, DaemonSet mode always, the answer of
  the first attempt the proxy answers is the result, and the kubelet clients play no role.\<close>

theorem query_uses_proxy:
  assumes "retrying retry" and "\<not> scrapeFromKubelet n \<or> deployType n \<noteq> ''Deployment''"
    and "do_raw (attempts 0) (''/api/v1/nodes/'' @ node @ ''/proxy/stats/summary'') = Inr content"
  shows "Query P S retry n node attempts pk = Some (Inr content, pk)"
  using retrying.first_attempt [OF assms(1), of "\<lambda>i. query_operation n node (attempts i)" content] assms(2,3)
  by (simp add: Query_def query_operation_proxy)

lemma query_uses_proxy_witness:
  "Query mem_prom list_set (retry_upto 2) (node_config daemon_env 15) ''node-a'' (answering ''summary'')
    (pkgs (snd (booted daemon_env))) = Some (Inr ''summary'', pkgs (snd (booted daemon_env)))"
  by (rule query_uses_proxy [OF bounded.retrying_axioms])
    (simp_all add: node_config_def daemon_env_def answering_def)

text \<open>A Deployment that scrapes the kubelets accepts an answer only from a known endpoint, with
  status 200 and a body read to its end; when no attempt gives one and the interval limits the
  retries, the query fails and the node is evicted.\<close>

theorem query_kubelet_failure_evicts:
  assumes "prometheus P" and "name_set S" and "retrying retry" and "packages_ready P n pk"
    and "scrapeFromKubelet n" and "deployType n = ''Deployment''" and limit: "Seconds (sampleInterval n) \<noteq> 0"
    and none: "\<And>i ep content. endpoints (attempts i) node = Some ep \<Longrightarrow> ep \<noteq> '''' \<Longrightarrow>
      (if word_sless 0 (kubeletReadOnlyPort n) then client_ano (attempts i) else client_raw (attempts i))
        (ep @ ''/stats/summary'') \<noteq> Inr (200, Inr content)"
  shows "\<exists>err pk'. Query P S retry n node attempts pk = Some (Inl err, pk') \<and>
    node \<notin> set (to_slice S (node_set (nodes pk'))) \<and>
    (\<forall>k ls. ls ''node_name'' = Some node \<longrightarrow> exported P pk' k ls = None)"
proof -
  let ?op = "\<lambda>i. query_operation n node (attempts i)"
  have "\<exists>e. ?op i = Inl e" for i
    using query_operation_kubelet [OF assms(5,6), of node "attempts i"] none [of i]
    by (cases "query_operation n node (attempts i)") blast+
  then obtain err where "query_answer retry n node attempts = Some (Inl err)"
    using retrying.never_succeeds [OF assms(3), of ?op "query_policy n"] limit
    by (auto simp: query_answer_def query_policy_def)
  then show ?thesis
    using prometheus.Query_failed [OF assms(1,4), of retry node attempts err S]
      name_set.slice_remove [OF assms(2)]
    by (auto simp: dropped_def node_series_def)
qed

lemma query_kubelet_failure_evicts_witness:
  "\<exists>err pk'. Query mem_prom list_set (retry_upto 2)
      ((node_config demo_env (scrape_interval demo_env))\<lparr>scrapeFromKubelet := True\<rparr>) ''node-a'' failing
      (pkgs (snd (booted demo_env))) = Some (Inl err, pk')"
proof -
  let ?n = "(node_config demo_env (scrape_interval demo_env))\<lparr>scrapeFromKubelet := True\<rparr>"
  have "packages_ready mem_prom ?n (pkgs (snd (booted demo_env)))"
    using demo_packages_ready by (simp add: packages_ready_def node_initialised_def node_vecs_def)
  moreover have n: "deployType ?n = ''Deployment''" "sampleInterval ?n = scrape_interval demo_env" "scrapeFromKubelet ?n"
    by (simp_all add: node_config_def demo_env_def)
  ultimately show ?thesis
    using query_kubelet_failure_evicts [OF mem_prom_prometheus list_set_name_set bounded.retrying_axioms,
        of ?n "pkgs (snd (booted demo_env))" failing "''node-a''" 2] demo_limit [of demo_env] n
    by (auto simp: failing_def)
qed

section \<open>The node watch\<close>

text \<open>The endpoint of a node is the first InternalIP address with the read-only port over HTTP
  when one is configured, with the node's kubelet port over HTTPS otherwise, and empty for a node
  without such an address.\<close>

theorem kubelet_endpoint:
  "getKubeletEndpoint n node =
     (case List.find (\<lambda>a. addr_Type a = ''InternalIP'') (n_Addresses node) of
        None \<Rightarrow> ''''
      | Some a \<Rightarrow>
          if 0 < sint (kubeletReadOnlyPort n)
          then ''http://'' @ join_host_port (addr_Address a) (itoa (kubeletReadOnlyPort n))
          else ''https://'' @ join_host_port (addr_Address a) (itoa (scast (n_KubeletPort node))))"
  by (simp add: getKubeletEndpoint_def kubelet_endpoint_loop_find word_sless_alt cong: option.case_cong)

text \<open>An add or an update event of a node that reports \<open>KubeletReady\<close> puts the node into the
  set of scraped nodes and, when the kubelets are scraped, stores its endpoint; any other event
  object, and a node that is not ready, changes nothing.  Neither event touches a metric.\<close>

theorem node_ready_event:
  assumes "name_set S"
  shows "\<exists>pk'. Watch_AddFunc S n obj pk = Some pk' \<and> Watch_UpdateFunc S n obj pk = Some pk' \<and>
    exported P pk' = exported P pk \<and> pods pk' = pods pk \<and>
    (case obj of
       Typed p \<Rightarrow>
         if ''KubeletReady'' \<in> set (n_ConditionReasons p) then
           set (to_slice S (node_set (nodes pk'))) = insert (n_Name p) (set (to_slice S (node_set (nodes pk)))) \<and>
           KubeletEndpoint (nodes pk') = (if scrapeFromKubelet n
             then (KubeletEndpoint (nodes pk))(n_Name p \<mapsto> getKubeletEndpoint n p) else KubeletEndpoint (nodes pk))
         else pk' = pk
     | _ \<Rightarrow> pk' = pk)"
proof (cases obj)
  case (Typed p)
  then show ?thesis
    using name_set.slice_add [OF assms]
    by (simp add: Watch_AddFunc_def Watch_UpdateFunc_def node_ready_def Let_def exported_nodes_cong)
qed (simp_all add: Watch_AddFunc_def Watch_UpdateFunc_def)

lemma node_ready_event_witness:
  "\<exists>pk'. Watch_AddFunc list_set (node_config demo_env 15) (Typed demo_node) (pkgs (snd (booted demo_env))) = Some pk' \<and>
    ''node-a'' \<in> set (to_slice list_set (node_set (nodes pk')))"
  using node_ready_event [OF list_set_name_set, of "node_config demo_env 15" "Typed demo_node"
      "pkgs (snd (booted demo_env))" mem_prom]
  by (auto simp: demo_node_def)

text \<open>A delete event of a node, typed or as a tombstone, evicts the node and drops its kubelet
  endpoint; any other object is ignored.  No delete event panics once start-up is done.\<close>

theorem node_delete_event:
  assumes "prometheus P" and "name_set S" and "packages_ready P n pk"
  shows "\<exists>pk'. Watch_DeleteFunc P S n obj pk = Some pk' \<and> packages_ready P n pk' \<and>
    (case deleted_object obj of
       None \<Rightarrow> pk' = pk
     | Some p \<Rightarrow>
         set (to_slice S (node_set (nodes pk'))) = set (to_slice S (node_set (nodes pk))) - {n_Name p} \<and>
         (scrapeFromKubelet n \<longrightarrow> KubeletEndpoint (nodes pk') (n_Name p) = None) \<and>
         nodeTrackers (pods pk') (n_Name p) = None \<and>
         (\<forall>k ls. exported P pk' k ls =
           (if ls ''node_name'' = Some (n_Name p) then None else exported P pk k ls)))"
proof (cases "deleted_object obj")
  case None
  then show ?thesis
    using prometheus.Watch_DeleteFunc_ok [OF assms(1,3), of S obj] by auto
next
  case (Some p)
  then show ?thesis
    using prometheus.Watch_DeleteFunc_ok [OF assms(1,3), of S obj] name_set.slice_remove [OF assms(2)]
    by (auto simp: dropped_def node_series_def)
qed

lemma node_delete_event_witness:
  "\<exists>pk'. Watch_DeleteFunc mem_prom list_set (node_config demo_env (scrape_interval demo_env))
      (DeletedFinalStateUnknown (Typed demo_node)) (pkgs (snd (booted demo_env))) = Some pk' \<and>
    ''node-a'' \<notin> set (to_slice list_set (node_set (nodes pk')))"
  using node_delete_event [OF mem_prom_prometheus list_set_name_set demo_packages_ready,
      of "DeletedFinalStateUnknown (Typed demo_node)"]
  by (auto simp: demo_node_def)

section \<open>Configuration\<close>

text \<open>The tolerance the collector starts with is the integer of \<open>SCRAPE_MISS_TOLERANCE\<close>, and 2
  when the variable is unset, is not an integer or is below 1; it is never below 1, so a pod that
  is listed is never evicted.\<close>

theorem tolerance_at_least_one:
  "1 \<le> sint (miss_tolerance env) \<and>
   (1 \<le> sint (atoi (GetEnv env ''SCRAPE_MISS_TOLERANCE'' ''2'')) \<longrightarrow>
      miss_tolerance env = atoi (GetEnv env ''SCRAPE_MISS_TOLERANCE'' ''2'')) \<and>
   (sint (atoi (GetEnv env ''SCRAPE_MISS_TOLERANCE'' ''2'')) < 1 \<longrightarrow> miss_tolerance env = 2)"
  using miss_tolerance_pos [of env]
  by (simp add: miss_tolerance_def Let_def word_sless_alt)

lemma tolerance_at_least_one_witness:
  "miss_tolerance [''SCRAPE_MISS_TOLERANCE'' \<mapsto> itoa 5] = 5 \<and> miss_tolerance [''SCRAPE_MISS_TOLERANCE'' \<mapsto> itoa 0] = 2"
  using tolerance_at_least_one [of "[''SCRAPE_MISS_TOLERANCE'' \<mapsto> itoa 5]"]
    tolerance_at_least_one [of "[''SCRAPE_MISS_TOLERANCE'' \<mapsto> itoa 0]"]
  by (simp add: atoi_itoa)

end
