(* ===== verification/GoJson.thy ===== *)
theory GoJson
  imports GoStd Float64
begin

text \<open>
  What the exporter uses of \<open>encoding/json\<close>: \<open>Unmarshal\<close> of a byte string into a value of a
  static type made of structs, slices, \<open>float64\<close>, \<open>int64\<close> (and \<open>int\<close>) and \<open>string\<close>.

  A document is first scanned as a whole (\<open>checkValid\<close>): \<open>lex\<close> is the scanner's automaton over
  the bytes, \<open>parse_value\<close> its push-down automaton over the tokens.  Then the value is stored
  by reflection on the type: \<open>unmarshal\<close>.  An error of either phase is \<open>None\<close>; Go goes on
  storing after a type error, but the caller does not look at the value then.
\<close>

section \<open>Scanning\<close>

datatype json =
  JNull
| JBool bool
| JNum string
| JStr string
| JArr "json list"
| JObj "(string \<times> json) list"

datatype token = Atom json | Text string | OpenArr | CloseArr | OpenObj | CloseObj | Comma | Colon

datatype lex_state = Ready | InStr string | InEsc string | InHex nat string | InNum string | InWord string

definition is_digit :: "char \<Rightarrow> bool" where
  "is_digit c \<longleftrightarrow> digit_val c \<noteq> None"

definition hex_val :: "char \<Rightarrow> nat option" where
  "hex_val c = (let n = of_char c :: nat in
     if 48 \<le> n \<and> n \<le> 57 then Some (n - 48)
     else if 97 \<le> n \<and> n \<le> 102 then Some (n - 87)
     else if 65 \<le> n \<and> n \<le> 70 then Some (n - 55) else None)"

definition is_space :: "char \<Rightarrow> bool" where
  "is_space c \<longleftrightarrow> c = CHR '' '' \<or> c = CHR 0x09 \<or> c = CHR 0x0A \<or> c = CHR 0x0D"

definition is_lower :: "char \<Rightarrow> bool" where
  "is_lower c \<longleftrightarrow> 97 \<le> (of_char c :: nat) \<and> (of_char c :: nat) \<le> 122"

text \<open>The grammar of a number: \<open>-?(0|[1-9][0-9]*)([.][0-9]+)?([eE][+-]?[0-9]+)?\<close>.\<close>

definition exponent_ok :: "string \<Rightarrow> bool" where
  "exponent_ok s \<longleftrightarrow> (case s of
     [] \<Rightarrow> True
   | c # cs \<Rightarrow> (c = CHR ''e'' \<or> c = CHR ''E'') \<and>
       (let ds = (case cs of d # ds \<Rightarrow> if d = CHR ''+'' \<or> d = CHR ''-'' then ds else cs | [] \<Rightarrow> [])
        in ds \<noteq> [] \<and> list_all is_digit ds))"

definition fraction_ok :: "string \<Rightarrow> bool" where
  "fraction_ok s \<longleftrightarrow> (case s of
     c # cs \<Rightarrow> if c = CHR ''.''
       then takeWhile is_digit cs \<noteq> [] \<and> exponent_ok (dropWhile is_digit cs) else exponent_ok s
   | [] \<Rightarrow> True)"

definition number_ok :: "string \<Rightarrow> bool" where
  "number_ok s \<longleftrightarrow>
     (let u = (case s of c # cs \<Rightarrow> if c = CHR ''-'' then cs else s | [] \<Rightarrow> []);
          ds = takeWhile is_digit u; rest = dropWhile is_digit u
      in ds \<noteq> [] \<and> (hd ds = CHR ''0'' \<longrightarrow> ds = ''0'') \<and> fraction_ok rest)"

definition word_token :: "string \<Rightarrow> token option" where
  "word_token s = (if s = ''null'' then Some (Atom JNull)
     else if s = ''true'' then Some (Atom (JBool True))
     else if s = ''false'' then Some (Atom (JBool False)) else None)"

definition punctuation :: "char \<Rightarrow> token option" where
  "punctuation c = (if c = CHR ''['' then Some OpenArr else if c = CHR '']'' then Some CloseArr
     else if c = CHR ''{'' then Some OpenObj else if c = CHR ''}'' then Some CloseObj
     else if c = CHR '','' then Some Comma else if c = CHR '':'' then Some Colon else None)"

definition number_char :: "char \<Rightarrow> bool" where
  "number_char c \<longleftrightarrow> is_digit c \<or> c \<in> set ''+-.eE''"

text \<open>Accumulators are reversed; a string token keeps its escapes.\<close>

function lex :: "lex_state \<Rightarrow> string \<Rightarrow> token list option" where
  "lex Ready [] = Some []"
| "lex Ready (c # cs) =
     (if is_space c then lex Ready cs
      else case punctuation c of
        Some t \<Rightarrow> map_option ((#) t) (lex Ready cs)
      | None \<Rightarrow>
          if c = CHR 0x22 then lex (InStr []) cs
          else if is_digit c \<or> c = CHR ''-'' then lex (InNum [c]) cs
          else if is_lower c then lex (InWord [c]) cs else None)"
| "lex (InStr acc) [] = None"
| "lex (InStr acc) (c # cs) =
     (if c = CHR 0x22 then map_option ((#) (Text (rev acc))) (lex Ready cs)
      else if c = CHR 0x5C then lex (InEsc acc) cs
      else if (of_char c :: nat) < 32 then None else lex (InStr (c # acc)) cs)"
| "lex (InEsc acc) [] = None"
| "lex (InEsc acc) (c # cs) =
     (if c = CHR 0x22 \<or> c = CHR 0x5C \<or> c \<in> set ''/bfnrt'' then lex (InStr (c # CHR 0x5C # acc)) cs
      else if c = CHR ''u'' then lex (InHex 4 (c # CHR 0x5C # acc)) cs else None)"
| "lex (InHex n acc) [] = None"
| "lex (InHex n acc) (c # cs) =
     (if hex_val c = None then None
      else if n \<le> 1 then lex (InStr (c # acc)) cs else lex (InHex (n - 1) (c # acc)) cs)"
| "lex (InNum acc) [] = (if number_ok (rev acc) then Some [Atom (JNum (rev acc))] else None)"
| "lex (InNum acc) (c # cs) =
     (if number_char c then lex (InNum (c # acc)) cs
      else if number_ok (rev acc) then map_option ((#) (Atom (JNum (rev acc)))) (lex Ready (c # cs)) else None)"
| "lex (InWord acc) [] = map_option (\<lambda>t. [t]) (word_token (rev acc))"
| "lex (InWord acc) (c # cs) =
     (if is_lower c then lex (InWord (c # acc)) cs
      else case word_token (rev acc) of None \<Rightarrow> None | Some t \<Rightarrow> map_option ((#) t) (lex Ready (c # cs)))"
  by pat_completeness auto

termination
  by (relation "measure (\<lambda>(st, s). 2 * length s + (if st = Ready then 0 else 1))") auto

section \<open>Strings\<close>

text \<open>The length of the UTF-8 sequence a byte string starts with, 0 if it starts with none.\<close>

definition in_range :: "nat \<Rightarrow> nat \<Rightarrow> char \<Rightarrow> bool" where
  "in_range lo hi c \<longleftrightarrow> lo \<le> of_char c \<and> of_char c \<le> hi"

fun utf8_len :: "string \<Rightarrow> nat" where
  "utf8_len (a # b # c # d # cs) =
     (if in_range 0 127 a then 1
      else if in_range 194 223 a \<and> in_range 128 191 b then 2
      else if (in_range 224 224 a \<and> in_range 160 191 b \<or> in_range 237 237 a \<and> in_range 128 159 b \<or>
          (in_range 225 236 a \<or> in_range 238 239 a) \<and> in_range 128 191 b) \<and> in_range 128 191 c then 3
      else if (in_range 240 240 a \<and> in_range 144 191 b \<or> in_range 241 243 a \<and> in_range 128 191 b \<or>
          in_range 244 244 a \<and> in_range 128 143 b) \<and> in_range 128 191 c \<and> in_range 128 191 d then 4
      else 0)"
| "utf8_len [a, b, c] =
     (if in_range 0 127 a then 1
      else if in_range 194 223 a \<and> in_range 128 191 b then 2
      else if (in_range 224 224 a \<and> in_range 160 191 b \<or> in_range 237 237 a \<and> in_range 128 159 b \<or>
          (in_range 225 236 a \<or> in_range 238 239 a) \<and> in_range 128 191 b) \<and> in_range 128 191 c then 3
      else 0)"
| "utf8_len [a, b] =
     (if in_range 0 127 a then 1 else if in_range 194 223 a \<and> in_range 128 191 b then 2 else 0)"
| "utf8_len [a] = (if in_range 0 127 a then 1 else 0)"
| "utf8_len [] = 0"

definition encode_rune :: "nat \<Rightarrow> string" where
  "encode_rune r =
     (if r < 128 then [char_of r]
      else if r < 2048 then map char_of [192 + r div 64, 128 + r mod 64]
      else if r < 65536 then map char_of [224 + r div 4096, 128 + r div 64 mod 64, 128 + r mod 64]
      else map char_of [240 + r div 262144, 128 + r div 4096 mod 64, 128 + r div 64 mod 64, 128 + r mod 64])"

definition replacement :: string where
  "replacement = encode_rune 65533"

text \<open>\<open>getu4\<close>: the code unit of an escape \<open>uXXXX\<close> after its backslash.\<close>

fun getu4 :: "string \<Rightarrow> nat option" where
  "getu4 (b # u # h1 # h2 # h3 # h4 # cs) =
     (if b = CHR 0x5C \<and> u = CHR ''u'' then
        (case (hex_val h1, hex_val h2, hex_val h3, hex_val h4) of
           (Some a, Some b, Some c, Some d) \<Rightarrow> Some (((a * 16 + b) * 16 + c) * 16 + d)
         | _ \<Rightarrow> None)
      else None)"
| "getu4 _ = None"

text \<open>What an escape at the head of the string stands for, and how many bytes it takes.\<close>

definition unescape :: "string \<Rightarrow> string \<times> nat" where
  "unescape s = (case getu4 s of
     Some r \<Rightarrow>
       if 55296 \<le> r \<and> r < 57344 then
         (case getu4 (drop 6 s) of
            Some r2 \<Rightarrow>
              if r < 56320 \<and> 56320 \<le> r2 \<and> r2 < 57344
              then (encode_rune ((r - 55296) * 1024 + (r2 - 56320) + 65536), 12)
              else (replacement, 6)
          | None \<Rightarrow> (replacement, 6))
       else (encode_rune r, 6)
   | None \<Rightarrow>
       (case s of
          b # c # cs \<Rightarrow>
            ([if c = CHR ''b'' then CHR 0x08 else if c = CHR ''f'' then CHR 0x0C
              else if c = CHR ''n'' then CHR 0x0A else if c = CHR ''r'' then CHR 0x0D
              else if c = CHR ''t'' then CHR 0x09 else c], 2)
        | _ \<Rightarrow> ([], 1)))"

function unquote :: "string \<Rightarrow> string" where
  "unquote [] = []"
| "unquote (c # cs) =
     (if c = CHR 0x5C then fst (unescape (c # cs)) @ unquote (drop (snd (unescape (c # cs)) - 1) cs)
      else if utf8_len (c # cs) = 0 then replacement @ unquote cs
      else take (utf8_len (c # cs)) (c # cs) @ unquote (drop (utf8_len (c # cs) - 1) cs))"
  by pat_completeness auto

termination
  by (relation "measure length") (auto simp: le_imp_less_Suc)

section \<open>Parsing\<close>

datatype frame = InArray "json list" | InObject "(string \<times> json) list" string

definition max_depth :: nat where
  "max_depth = 10000"

fun parse_value :: "token list \<Rightarrow> frame list \<Rightarrow> json option"
  and parse_end :: "json \<Rightarrow> token list \<Rightarrow> frame list \<Rightarrow> json option" where
  "parse_value (Atom v # ts) stk = parse_end v ts stk"
| "parse_value (Text s # ts) stk = parse_end (JStr (unquote s)) ts stk"
| "parse_value (OpenArr # ts) stk =
     (if max_depth \<le> length stk then None
      else case ts of CloseArr # us \<Rightarrow> parse_end (JArr []) us stk | _ \<Rightarrow> parse_value ts (InArray [] # stk))"
| "parse_value (OpenObj # ts) stk =
     (if max_depth \<le> length stk then None
      else case ts of
        CloseObj # us \<Rightarrow> parse_end (JObj []) us stk
      | Text k # Colon # us \<Rightarrow> parse_value us (InObject [] (unquote k) # stk)
      | _ \<Rightarrow> None)"
| "parse_value _ stk = None"
| "parse_end v ts [] = (if ts = [] then Some v else None)"
| "parse_end v ts (InArray vs # stk) =
     (case ts of
        Comma # us \<Rightarrow> parse_value us (InArray (v # vs) # stk)
      | CloseArr # us \<Rightarrow> parse_end (JArr (rev (v # vs))) us stk
      | _ \<Rightarrow> None)"
| "parse_end v ts (InObject kvs k # stk) =
     (case ts of
        Comma # Text k' # Colon # us \<Rightarrow> parse_value us (InObject ((k, v) # kvs) (unquote k') # stk)
      | CloseObj # us \<Rightarrow> parse_end (JObj (rev ((k, v) # kvs))) us stk
      | _ \<Rightarrow> None)"

definition parse_json :: "string \<Rightarrow> json option" where
  "parse_json content = (case lex Ready content of None \<Rightarrow> None | Some ts \<Rightarrow> parse_value ts [])"

section \<open>Numbers\<close>

definition digits_value :: "string \<Rightarrow> nat" where
  "digits_value ds = foldl (\<lambda>n c. 10 * n + (case digit_val c of Some d \<Rightarrow> d | None \<Rightarrow> 0)) 0 ds"

definition signed_value :: "string \<Rightarrow> int" where
  "signed_value s = (case s of
     [] \<Rightarrow> 0
   | c # cs \<Rightarrow> if c = CHR ''-'' then - int (digits_value cs)
               else if c = CHR ''+'' then int (digits_value cs) else int (digits_value s))"

text \<open>The sign and the exact value of a number of the grammar.\<close>

definition decimal :: "string \<Rightarrow> bool \<times> rat" where
  "decimal s =
     (let neg = (s \<noteq> [] \<and> hd s = CHR ''-''); u = (if neg then tl s else s);
          whole = takeWhile is_digit u; r1 = dropWhile is_digit u;
          (frac, r2) = (if r1 \<noteq> [] \<and> hd r1 = CHR ''.''
                        then (takeWhile is_digit (tl r1), dropWhile is_digit (tl r1)) else ([], r1));
          e = signed_value (tl r2) - int (length frac);
          m = of_nat (digits_value (whole @ frac)) * 10 powi e
      in (neg, if neg then - m else m))"

text \<open>\<open>ParseFloat(s, 64)\<close>: an overflow is an error.\<close>

definition parse_float :: "string \<Rightarrow> f64 option" where
  "parse_float s = (case decimal s of (neg, r) \<Rightarrow>
     let x = f64_round neg r in if x = PosInf \<or> x = NegInf then None else Some x)"

text \<open>\<open>ParseInt(s, 10, 64)\<close>: a fraction, an exponent or a value out of range is an error.\<close>

definition parse_int64 :: "string \<Rightarrow> int64 option" where
  "parse_int64 s =
     (let neg = (s \<noteq> [] \<and> hd s = CHR ''-''); u = (if neg then tl s else s);
          i = (if neg then - int (digits_value u) else int (digits_value u))
      in if u \<noteq> [] \<and> list_all is_digit u \<and> - (2 ^ 63) \<le> i \<and> i < 2 ^ 63 then Some (word_of_int i) else None)"

section \<open>Storing by reflection\<close>

datatype gotype = TFloat64 | TInt64 | TString | TStruct "(string \<times> gotype) list" | TSlice gotype

text \<open>The fields of a struct are in the order of its type.  A slice is the part of its backing array
  written so far, and its length.\<close>

datatype goval = GFloat f64 | GInt int64 | GString string | GStruct "goval list" | GSlice "goval list" nat

fun zero_value :: "gotype \<Rightarrow> goval" where
  "zero_value TFloat64 = GFloat (Fin 0)"
| "zero_value TInt64 = GInt 0"
| "zero_value TString = GString ''''"
| "zero_value (TStruct fs) = GStruct (map (\<lambda>(name, t). zero_value t) fs)"
| "zero_value (TSlice t) = GSlice [] 0"

text \<open>\<open>foldName\<close>: ASCII letters in upper case; the two runes that fold to ASCII are the long s
  and the Kelvin sign.\<close>

fun fold_name :: "string \<Rightarrow> string" where
  "fold_name [] = []"
| "fold_name (c # cs) =
     (let n = of_char c :: nat in
      if 97 \<le> n \<and> n \<le> 122 then char_of (n - 32) # fold_name cs
      else case cs of
        d # ds \<Rightarrow>
          if n = 197 \<and> (of_char d :: nat) = 191 then CHR ''S'' # fold_name ds
          else (case ds of
              e # es \<Rightarrow> if n = 226 \<and> (of_char d :: nat) = 132 \<and> (of_char e :: nat) = 170
                then CHR ''K'' # fold_name es else c # fold_name cs
            | [] \<Rightarrow> c # fold_name cs)
      | [] \<Rightarrow> [c])"

text \<open>The field an object key selects: an exact match first, then a match up to case.\<close>

definition find_index :: "('a \<Rightarrow> bool) \<Rightarrow> 'a list \<Rightarrow> nat option" where
  "find_index P xs = (let i = length (takeWhile (\<lambda>x. \<not> P x) xs) in if i < length xs then Some i else None)"

definition select_field :: "(string \<times> gotype) list \<Rightarrow> string \<Rightarrow> nat option" where
  "select_field fs key = (case find_index (\<lambda>f. fst f = key) fs of
     Some i \<Rightarrow> Some i
   | None \<Rightarrow> find_index (\<lambda>f. fold_name (fst f) = fold_name key) fs)"

definition slice_elem :: "gotype \<Rightarrow> goval list \<Rightarrow> nat \<Rightarrow> goval" where
  "slice_elem t backing i = (if i < length backing then backing ! i else zero_value t)"

fun unmarshal :: "gotype \<Rightarrow> json \<Rightarrow> goval \<Rightarrow> goval option"
  and unmarshal_fields :: "(string \<times> gotype) list \<Rightarrow> (string \<times> json) list \<Rightarrow> goval list \<Rightarrow> goval list option"
  and unmarshal_elems :: "gotype \<Rightarrow> json list \<Rightarrow> goval list \<Rightarrow> nat \<Rightarrow> goval list option" where
  "unmarshal t JNull old = Some (case t of TSlice u \<Rightarrow> GSlice [] 0 | _ \<Rightarrow> old)"
| "unmarshal t (JBool b) old = None"
| "unmarshal t (JNum s) old =
     (case t of
        TFloat64 \<Rightarrow> map_option GFloat (parse_float s)
      | TInt64 \<Rightarrow> map_option GInt (parse_int64 s)
      | _ \<Rightarrow> None)"
| "unmarshal t (JStr s) old = (case t of TString \<Rightarrow> Some (GString s) | _ \<Rightarrow> None)"
| "unmarshal t (JArr js) old =
     (case (t, old) of
        (TSlice u, GSlice backing n) \<Rightarrow>
          if js = [] then Some (GSlice [] 0)
          else map_option (\<lambda>vs. GSlice (vs @ drop (length js) backing) (length js)) (unmarshal_elems u js backing 0)
      | _ \<Rightarrow> None)"
| "unmarshal t (JObj kvs) old =
     (case (t, old) of
        (TStruct fs, GStruct vs) \<Rightarrow> map_option GStruct (unmarshal_fields fs kvs vs)
      | _ \<Rightarrow> None)"
| "unmarshal_fields fs [] vs = Some vs"
| "unmarshal_fields fs ((key, j) # kvs) vs =
     (case select_field fs key of
        None \<Rightarrow> unmarshal_fields fs kvs vs
      | Some i \<Rightarrow>
          (case unmarshal (snd (fs ! i)) j (vs ! i) of
             None \<Rightarrow> None
           | Some v \<Rightarrow> unmarshal_fields fs kvs (vs[i := v])))"
| "unmarshal_elems t [] backing i = Some []"
| "unmarshal_elems t (j # js) backing i =
     (case unmarshal t j (slice_elem t backing i) of
        None \<Rightarrow> None
      | Some v \<Rightarrow> map_option ((#) v) (unmarshal_elems t js backing (Suc i)))"

definition Unmarshal :: "gotype \<Rightarrow> string \<Rightarrow> goval option" where
  "Unmarshal t content = (case parse_json content of None \<Rightarrow> None | Some j \<Rightarrow> unmarshal t j (zero_value t))"

section \<open>Facts\<close>

text \<open>Decoding keeps the shape of the type, so no field access of the caller can go wrong.\<close>

inductive has_type :: "gotype \<Rightarrow> goval \<Rightarrow> bool" where
  float: "has_type TFloat64 (GFloat x)"
| int64: "has_type TInt64 (GInt i)"
| str: "has_type TString (GString s)"
| struct: "list_all2 has_type (map snd fs) vs \<Longrightarrow> has_type (TStruct fs) (GStruct vs)"
| slice: "n \<le> length vs \<Longrightarrow> \<forall>u \<in> set vs. has_type t u \<Longrightarrow> has_type (TSlice t) (GSlice vs n)"
monos list_all2_mono

inductive_simps has_type_simps [simp]:
  "has_type TFloat64 v" "has_type TInt64 v" "has_type TString v" "has_type (TStruct fs) v"
  "has_type (TSlice t) v"

lemma has_type_zero [simp]: "has_type t (zero_value t)"
proof (induction t)
  case (TStruct fs)
  then show ?case by (fastforce simp: list_all2_map1 list_all2_map2 list.rel_refl_strong intro: list.rel_refl_strong)
qed simp_all

lemma select_field_bound: "select_field fs key = Some i \<Longrightarrow> i < length fs"
  by (auto simp: select_field_def find_index_def Let_def split: option.splits if_splits)

lemma unmarshal_type:
  "has_type t old \<Longrightarrow> unmarshal t j old = Some v \<Longrightarrow> has_type t v"
  "list_all2 has_type (map snd fs) vs \<Longrightarrow> unmarshal_fields fs kvs vs = Some ws \<Longrightarrow>
    list_all2 has_type (map snd fs) ws"
  "\<forall>u \<in> set backing. has_type t u \<Longrightarrow> unmarshal_elems t js backing i = Some us \<Longrightarrow>
    length us = length js \<and> (\<forall>u \<in> set us. has_type t u)"
  for t j old v fs kvs vs ws js backing i us
proof (induction t j old and fs kvs vs and t js backing i arbitrary: v and ws and us
    rule: unmarshal_unmarshal_fields_unmarshal_elems.induct)
  case (1 t old)
  then show ?case by (auto split: gotype.splits)
next
  case (3 t s old)
  then show ?case by (auto split: gotype.splits)
next
  case (4 t s old)
  then show ?case by (auto split: gotype.splits)
next
  case (5 t js old)
  then show ?case
    by (auto split: gotype.splits goval.splits if_splits) (blast dest: in_set_dropD)
next
  case (6 t kvs old)
  obtain fs vs where t: "t = TStruct fs" "old = GStruct vs"
    using 6(3) by (cases t; cases old) simp_all
  then obtain ws where ws: "unmarshal_fields fs kvs vs = Some ws" "v = GStruct ws"
    using 6(3) by auto
  have "list_all2 has_type (map snd fs) ws"
    by (rule 6(1) [OF refl t _ ws(1)]) (use 6(2) t in simp)
  then show ?case using t ws(2) by simp
next
  case (8 fs key j kvs vs)
  show ?case
  proof (cases "select_field fs key")
    case None
    then show ?thesis using 8 by simp
  next
    case (Some i)
    then have i: "i < length fs" by (rule select_field_bound)
    obtain u where u: "unmarshal (snd (fs ! i)) j (vs ! i) = Some u" "unmarshal_fields fs kvs (vs[i := u]) = Some ws"
      using 8(5) Some by (auto split: option.splits)
    have "has_type (snd (fs ! i)) (vs ! i)" using 8(4) i list_all2_nthD [OF 8(4), of i] by simp
    then have "has_type (snd (fs ! i)) u" using 8(2) [OF Some] u(1) by blast
    moreover have "(map snd fs)[i := snd (fs ! i)] = map snd fs"
      using i list_update_id [of "map snd fs" i] by simp
    ultimately have "list_all2 has_type (map snd fs) (vs[i := u])"
      using list_all2_update_cong [OF 8(4), of "snd (fs ! i)" u i] by simp
    then show ?thesis using 8(3) [OF Some u(1)] u(2) by blast
  qed
next
  case (10 t j js backing i)
  obtain v vs where v: "unmarshal t j (slice_elem t backing i) = Some v"
      "unmarshal_elems t js backing (Suc i) = Some vs" "us = v # vs"
    using 10(4) by (auto split: option.splits)
  have "has_type t (slice_elem t backing i)" using 10(3) by (simp add: slice_elem_def)
  then have "has_type t v" using 10(1) v(1) by blast
  moreover have "length vs = length js \<and> (\<forall>u \<in> set vs. has_type t u)"
    using 10(2) [OF v(1) 10(3) v(2)] .
  ultimately show ?case using v(3) by simp
qed simp_all

end
