(* ===== verification/JsonText.thy ===== *)
theory JsonText
  imports GoJson
begin

text \<open>
  The compact rendering of a JSON value, and that the scanner and the parser of \<open>GoJson\<close> read
  it back: the check that the two automata are the grammar of JSON.
\<close>

fun separated_by :: "'a \<Rightarrow> 'a list list \<Rightarrow> 'a list" where
  "separated_by c [] = []"
| "separated_by c [xs] = xs"
| "separated_by c (xs # xss) = xs @ c # separated_by c xss"

fun tokens :: "json \<Rightarrow> token list" where
  "tokens JNull = [Atom JNull]"
| "tokens (JBool b) = [Atom (JBool b)]"
| "tokens (JNum s) = [Atom (JNum s)]"
| "tokens (JStr s) = [Text s]"
| "tokens (JArr js) = OpenArr # separated_by Comma (map tokens js) @ [CloseArr]"
| "tokens (JObj kvs) = OpenObj #
     separated_by Comma (map (\<lambda>(k, j). Text k # Colon # tokens j) kvs) @ [CloseObj]"

fun render_token :: "token \<Rightarrow> string" where
  "render_token (Atom JNull) = ''null''"
| "render_token (Atom (JBool b)) = (if b then ''true'' else ''false'')"
| "render_token (Atom (JNum s)) = s"
| "render_token (Atom _) = []"
| "render_token (Text s) = CHR 0x22 # s @ [CHR 0x22]"
| "render_token OpenArr = ''[''"
| "render_token CloseArr = '']''"
| "render_token OpenObj = ''{''"
| "render_token CloseObj = ''}''"
| "render_token Comma = '',''"
| "render_token Colon = '':''"

definition render :: "json \<Rightarrow> string" where
  "render j = concat (map render_token (tokens j))"

text \<open>Strings that need no escape, and values made of them.\<close>

definition plain :: "string \<Rightarrow> bool" where
  "plain s \<longleftrightarrow> list_all (\<lambda>c. 32 \<le> (of_char c :: nat) \<and> (of_char c :: nat) < 127 \<and> c \<noteq> CHR 0x22 \<and> c \<noteq> CHR 0x5C) s"

fun printable :: "json \<Rightarrow> bool" where
  "printable (JNum s) \<longleftrightarrow> number_ok s \<and> list_all number_char s"
| "printable (JStr s) \<longleftrightarrow> plain s"
| "printable (JArr js) \<longleftrightarrow> list_all printable js"
| "printable (JObj kvs) \<longleftrightarrow> list_all (\<lambda>(k, j). plain k \<and> printable j) kvs"
| "printable _ \<longleftrightarrow> True"

fun depth :: "json \<Rightarrow> nat" where
  "depth (JArr js) = Suc (Max (insert 0 (depth ` set js)))"
| "depth (JObj kvs) = Suc (Max (insert 0 ((\<lambda>(k, j). depth j) ` set kvs)))"
| "depth _ = 0"

section \<open>Scanning a rendering\<close>

fun printable_token :: "token \<Rightarrow> bool" where
  "printable_token (Atom (JNum s)) \<longleftrightarrow> number_ok s \<and> list_all number_char s"
| "printable_token (Atom JNull) \<longleftrightarrow> True"
| "printable_token (Atom (JBool b)) \<longleftrightarrow> True"
| "printable_token (Atom _) \<longleftrightarrow> False"
| "printable_token (Text s) \<longleftrightarrow> plain s"
| "printable_token _ \<longleftrightarrow> True"

fun is_atom :: "token \<Rightarrow> bool" where
  "is_atom (Atom j) = True"
| "is_atom _ = False"

text \<open>A text that does not go on with a character of a number or of a word.\<close>

definition fresh :: "string \<Rightarrow> bool" where
  "fresh rest \<longleftrightarrow> (case rest of [] \<Rightarrow> True | c # cs \<Rightarrow> \<not> number_char c \<and> \<not> is_lower c)"

lemma lex_plain:
  "plain s \<Longrightarrow> lex (InStr acc) (s @ CHR 0x22 # rest) = map_option ((#) (Text (rev acc @ s))) (lex Ready rest)"
proof (induction s arbitrary: acc)
  case (Cons c s)
  then show ?case using Cons.IH [of "c # acc"] by (simp add: plain_def)
qed simp

lemma lex_num_run:
  "list_all number_char s \<Longrightarrow> lex (InNum acc) (s @ rest) = lex (InNum (rev s @ acc)) rest"
proof (induction s arbitrary: acc)
  case (Cons c s)
  then show ?case by simp
qed simp

lemma lex_num_end:
  assumes "fresh rest" and "number_ok (rev acc)"
  shows "lex (InNum acc) rest = map_option ((#) (Atom (JNum (rev acc)))) (lex Ready rest)"
  using assms by (cases rest) (simp_all add: fresh_def del: lex.simps(2))

lemma number_ok_head:
  assumes "number_ok s" obtains c cs where "s = c # cs" "is_digit c \<or> c = CHR ''-''"
proof (cases s)
  case Nil
  then show ?thesis using assms by (simp add: number_ok_def)
next
  case (Cons c cs)
  then have "is_digit c \<or> c = CHR ''-''"
    using assms by (auto simp: number_ok_def Let_def split: if_splits)
  then show ?thesis using Cons that by blast
qed

lemma digit_head:
  assumes "is_digit c \<or> c = CHR ''-''"
  shows "\<not> is_space c" and "punctuation c = None" and "c \<noteq> CHR 0x22"
  using assms by (auto simp: is_digit_def digit_val_def is_space_def punctuation_def split: if_splits)

lemma lex_number:
  assumes "number_ok s" and "list_all number_char s" and "fresh rest"
  shows "lex Ready (s @ rest) = map_option ((#) (Atom (JNum s))) (lex Ready rest)"
proof -
  obtain c cs where s: "s = c # cs" "is_digit c \<or> c = CHR ''-''" using number_ok_head [OF assms(1)] .
  have "lex Ready (s @ rest) = lex (InNum [c]) (cs @ rest)"
    using s digit_head [OF s(2)] by simp
  also have "\<dots> = lex (InNum (rev s)) rest"
    using lex_num_run [of cs "[c]" rest] assms(2) s(1) by simp
  also have "\<dots> = map_option ((#) (Atom (JNum s))) (lex Ready rest)"
    using lex_num_end [OF assms(3), of "rev s"] assms(1) by simp
  finally show ?thesis .
qed

lemma lex_word:
  assumes "fresh rest" and "word_token (rev acc) = Some t"
  shows "lex (InWord acc) rest = map_option ((#) t) (lex Ready rest)"
  using assms by (cases rest) (simp_all add: fresh_def del: lex.simps(2))

lemma lex_token:
  assumes "printable_token t" and "is_atom t \<Longrightarrow> fresh rest"
  shows "lex Ready (render_token t @ rest) = map_option ((#) t) (lex Ready rest)"
  using assms
proof (cases t rule: render_token.cases)
  case 1
  then show ?thesis using assms lex_word [of rest "rev ''null''"]
    by (simp add: is_space_def punctuation_def is_digit_def digit_val_def is_lower_def word_token_def)
next
  case (2 b)
  then show ?thesis using assms lex_word [of rest "rev ''true''"] lex_word [of rest "rev ''false''"]
    by (simp add: is_space_def punctuation_def is_digit_def digit_val_def is_lower_def word_token_def)
next
  case (3 s)
  then show ?thesis using assms lex_number by simp
next
  case (5 s)
  then show ?thesis using assms lex_plain [of s "[]" rest] by (simp add: is_space_def punctuation_def)
qed (simp_all add: is_space_def punctuation_def)

text \<open>No two atoms are adjacent in the tokens of a value.\<close>

definition spaced :: "token list \<Rightarrow> bool" where
  "spaced = successively (\<lambda>t u. \<not> (is_atom t \<and> is_atom u))"

lemma fresh_render:
  "ts = [] \<or> \<not> is_atom (hd ts) \<Longrightarrow> fresh (concat (map render_token ts))"
proof (cases ts)
  case (Cons t us)
  assume "ts = [] \<or> \<not> is_atom (hd ts)"
  then show ?thesis using Cons
    by (cases t) (simp_all add: fresh_def number_char_def is_digit_def digit_val_def is_lower_def)
qed (simp add: fresh_def)

lemma lex_tokens:
  "list_all printable_token ts \<Longrightarrow> spaced ts \<Longrightarrow> lex Ready (concat (map render_token ts)) = Some ts"
proof (induction ts)
  case (Cons t ts)
  have "is_atom t \<Longrightarrow> fresh (concat (map render_token ts))"
    using Cons.prems(2) by (intro fresh_render) (cases ts, auto simp: spaced_def)
  moreover have "spaced ts" using Cons.prems(2) by (cases ts) (auto simp: spaced_def)
  ultimately show ?case using lex_token [of t "concat (map render_token ts)"] Cons by simp
qed simp

section \<open>Rendering and reading back\<close>

definition value_tokens :: "token list \<Rightarrow> bool" where
  "value_tokens ts \<longleftrightarrow> list_all printable_token ts \<and> spaced ts \<and> ts \<noteq> []"

lemma separated_by_map_Cons:
  "separated_by c (xs # ys # yss) = xs @ c # separated_by c (ys # yss)"
  by simp

lemma spaced_append_sep:
  "spaced xs \<Longrightarrow> spaced ys \<Longrightarrow> \<not> is_atom c \<Longrightarrow> spaced (xs @ c # ys)"
  by (cases ys) (auto simp: spaced_def successively_append_iff)

lemma value_tokens_separated:
  assumes "\<forall>ts \<in> set tss. value_tokens ts"
  shows "list_all printable_token (separated_by Comma tss) \<and> spaced (separated_by Comma tss)"
  using assms
proof (induction "Comma :: token" tss rule: separated_by.induct)
  case (3 xs ys yss)
  then show ?case using spaced_append_sep [of xs "separated_by Comma (ys # yss)" Comma]
    by (auto simp: value_tokens_def)
qed (auto simp: value_tokens_def spaced_def)

lemma spaced_bracket:
  assumes "spaced ts" and "\<not> is_atom a" and "\<not> is_atom b"
  shows "spaced (a # ts @ [b])"
  using assms spaced_append_sep [of "a # ts" "[]" b] by (cases ts) (auto simp: spaced_def)

lemma tokens_value: "printable j \<Longrightarrow> value_tokens (tokens j)"
proof (induction j)
  case (JArr js)
  then have "\<forall>ts \<in> set (map tokens js). value_tokens ts" by (auto simp: list_all_iff)
  from value_tokens_separated [OF this] show ?case
    by (auto simp: value_tokens_def intro: spaced_bracket)
next
  case (JObj kvs)
  have "value_tokens (Text k # Colon # tokens j)" if kv: "(k, j) \<in> set kvs" for k j
  proof -
    have "value_tokens (tokens j)" using JObj.IH [OF kv] JObj.prems kv by (auto simp: list_all_iff)
    moreover have "plain k" using JObj.prems kv by (auto simp: list_all_iff)
    ultimately show ?thesis by (cases "tokens j") (auto simp: value_tokens_def spaced_def)
  qed
  then have "\<forall>ts \<in> set (map (\<lambda>(k, j). Text k # Colon # tokens j) kvs). value_tokens ts" by auto
  from value_tokens_separated [OF this] show ?case
    by (auto simp: value_tokens_def intro: spaced_bracket)
qed (auto simp: value_tokens_def spaced_def)

lemma lex_render: "printable j \<Longrightarrow> lex Ready (render j) = Some (tokens j)"
  using lex_tokens [of "tokens j"] tokens_value [of j] by (simp add: render_def value_tokens_def)

lemma utf8_len_ascii: "in_range 0 127 c \<Longrightarrow> utf8_len (c # cs) = 1"
  by (cases "c # cs" rule: utf8_len.cases) auto

lemma unquote_plain: "plain s \<Longrightarrow> unquote s = s"
proof (induction s)
  case (Cons c s)
  then have "utf8_len (c # s) = 1" by (intro utf8_len_ascii) (auto simp: plain_def in_range_def)
  then show ?case using Cons by (auto simp: plain_def)
qed simp
section \<open>Parsing back\<close>

lemma tokens_head: "\<exists>t us. tokens j = t # us \<and> t \<noteq> CloseArr \<and> t \<noteq> CloseObj"
  by (cases j) auto

lemma parse_members:
  assumes "\<And>j ts stk'. j \<in> set js \<Longrightarrow> length stk' = Suc (length stk) \<Longrightarrow>
      parse_value (tokens j @ ts) stk' = parse_end j ts stk'"
    and "js \<noteq> []"
  shows "parse_value (separated_by Comma (map tokens js) @ CloseArr # ts) (InArray vs # stk) =
    parse_end (JArr (rev vs @ js)) ts stk"
  using assms
proof (induction js arbitrary: vs)
  case (Cons j js)
  show ?case
  proof (cases js)
    case Nil
    then show ?thesis using Cons.prems(1) [of j "InArray vs # stk"] by simp
  next
    case (Cons i more)
    let ?rest = "separated_by Comma (map tokens js) @ CloseArr # ts"
    have "parse_value (tokens j @ Comma # ?rest) (InArray vs # stk) = parse_value ?rest (InArray (j # vs) # stk)"
      using Cons.prems(1) [of j "InArray vs # stk"] by simp
    then show ?thesis using Cons.IH [of "j # vs"] Cons.prems(1) Cons by simp
  qed
qed simp

definition member_tokens :: "string \<times> json \<Rightarrow> token list" where
  "member_tokens kv = Text (fst kv) # Colon # tokens (snd kv)"

lemma parse_fields:
  assumes "\<And>kv ts stk'. kv \<in> set kvs \<Longrightarrow> length stk' = Suc (length stk) \<Longrightarrow>
      parse_value (tokens (snd kv) @ ts) stk' = parse_end (snd kv) ts stk'"
    and "\<forall>kv \<in> set kvs. plain (fst kv)"
    and "parse_value (tokens j @ us) (InObject acc k # stk) = parse_end j us (InObject acc k # stk)"
    and "us = concat (map (\<lambda>kv. Comma # member_tokens kv) kvs) @ CloseObj # ts"
  shows "parse_value (tokens j @ us) (InObject acc k # stk) = parse_end (JObj (rev acc @ (k, j) # kvs)) ts stk"
  using assms
proof (induction kvs arbitrary: acc k j us)
  case (Cons kv kvs)
  obtain k' j' where kv: "kv = (k', j')" by (cases kv)
  let ?us = "concat (map (\<lambda>kv. Comma # member_tokens kv) kvs) @ CloseObj # ts"
  have "parse_value (tokens j @ us) (InObject acc k # stk) = parse_value (tokens j' @ ?us) (InObject ((k, j) # acc) k' # stk)"
    using Cons.prems(2-4) kv by (simp add: member_tokens_def unquote_plain)
  also have "\<dots> = parse_end (JObj (rev ((k, j) # acc) @ (k', j') # kvs)) ts stk"
    using Cons.prems(1) [of kv "InObject ((k, j) # acc) k' # stk"] Cons.prems(1,2) kv
    by (intro Cons.IH [OF _ _ _ refl]) auto
  finally show ?case using kv by simp
qed simp

lemma separated_concat:
  "separated_by c (xs # xss) = xs @ concat (map ((#) c) xss)"
  by (induction xss arbitrary: xs) auto

lemma depth_member:
  "j \<in> set js \<Longrightarrow> depth (JArr js) \<ge> Suc (depth j)"
  "(k, j) \<in> set kvs \<Longrightarrow> depth (JObj kvs) \<ge> Suc (depth j)"
  by (force intro!: Max_ge)+

lemma parse_tokens:
  "printable j \<Longrightarrow> depth j + length stk \<le> max_depth \<Longrightarrow> parse_value (tokens j @ ts) stk = parse_end j ts stk"
proof (induction j arbitrary: ts stk)
  case (JStr s)
  then show ?case by (simp add: unquote_plain)
next
  case (JArr js)
  have room: "length stk < max_depth" using JArr.prems(2) by simp
  have each: "parse_value (tokens j @ us) stk' = parse_end j us stk'"
    if "j \<in> set js" "length stk' = Suc (length stk)" for j us stk'
    using JArr.IH [OF that(1), of stk' us] JArr.prems that depth_member(1) [OF that(1)]
    by (auto simp: list_all_iff simp del: depth.simps)
  show ?case
  proof (cases js)
    case Nil
    then show ?thesis using room by simp
  next
    case (Cons i more)
    obtain t us where t: "tokens i = t # us" "t \<noteq> CloseArr" using tokens_head [of i] by blast
    let ?sep = "separated_by Comma (map tokens js)"
    have "\<exists>vs. ?sep = t # vs" using Cons t(1) by (cases more) auto
    then obtain vs where "?sep = t # vs" by blast
    then have "parse_value (tokens (JArr js) @ ts) stk = parse_value (?sep @ CloseArr # ts) (InArray [] # stk)"
      using room t(2) by (cases t) auto
    also have "\<dots> = parse_end (JArr js) ts stk"
      using parse_members [OF each, of js stk ts "[]"] Cons by simp
    finally show ?thesis .
  qed
next
  case (JObj kvs)
  have room: "length stk < max_depth" using JObj.prems(2) by simp
  have each: "parse_value (tokens (snd kv) @ us) stk' = parse_end (snd kv) us stk'"
    if "kv \<in> set kvs" "length stk' = Suc (length stk)" for kv us stk'
  proof -
    obtain k j where kv: "kv = (k, j)" by (cases kv)
    then have in_set: "(k, j) \<in> set kvs" using that(1) by simp
    have "j \<in> Basic_BNFs.snds (k, j)" by simp
    then show ?thesis
      using JObj.IH [OF in_set, of j stk' us] JObj.prems that(2) depth_member(2) [OF in_set] in_set kv
      by (auto simp: list_all_iff simp del: depth.simps)
  qed
  show ?case
  proof (cases kvs)
    case Nil
    then show ?thesis using room by simp
  next
    case (Cons kv rest)
    obtain k j where kv: "kv = (k, j)" by (cases kv)
    let ?us = "concat (map (\<lambda>kv. Comma # member_tokens kv) rest) @ CloseObj # ts"
    have "tokens (JObj kvs) @ ts = OpenObj # Text k # Colon # tokens j @ ?us"
      using Cons kv by (simp add: separated_concat member_tokens_def case_prod_unfold comp_def)
    moreover have "unquote k = k" using JObj.prems(1) Cons kv by (auto simp: unquote_plain)
    ultimately have "parse_value (tokens (JObj kvs) @ ts) stk = parse_value (tokens j @ ?us) (InObject [] k # stk)"
      using room by (auto simp: split: list.splits)
    also have "\<dots> = parse_end (JObj (rev [] @ (k, j) # rest)) ts stk"
    proof (rule parse_fields [OF _ _ _ refl])
      show "parse_value (tokens (snd kv') @ vs) stk' = parse_end (snd kv') vs stk'"
        if "kv' \<in> set rest" "length stk' = Suc (length stk)" for kv' vs stk'
        using each [of kv' stk' vs] that Cons by simp
      show "\<forall>kv' \<in> set rest. plain (fst kv')" using JObj.prems(1) Cons by (auto simp: list_all_iff)
      show "parse_value (tokens j @ ?us) (InObject [] k # stk) = parse_end j ?us (InObject [] k # stk)"
        using each [of kv "InObject [] k # stk" ?us] Cons kv by simp
    qed
    also have "\<dots> = parse_end (JObj kvs) ts stk" using Cons kv by simp
    finally show ?thesis .
  qed
qed auto

text \<open>A rendered value is read back.\<close>

lemma parse_render: "printable j \<Longrightarrow> depth j \<le> max_depth \<Longrightarrow> parse_json (render j) = Some j"
  using parse_tokens [of j "[]" "[]"] by (simp add: parse_json_def lex_render)

section \<open>Natural numbers\<close>

lemma is_digit_char: "d < (10 :: nat) \<Longrightarrow> is_digit (char_of (48 + d))"
  by (simp add: is_digit_def)

lemma nat_digits_digits: "list_all is_digit (nat_digits n)"
proof (induction n rule: nat_digits.induct)
  case (1 n)
  then show ?case by (cases "n < 10") (auto simp: nat_digits.simps [of n] is_digit_char)
qed

lemma digits_value_snoc:
  "digits_value (ds @ [c]) = 10 * digits_value ds + (case digit_val c of Some d \<Rightarrow> d | None \<Rightarrow> 0)"
  by (simp add: digits_value_def)

lemma digits_value_nat_digits: "digits_value (nat_digits n) = n"
proof (induction n rule: nat_digits.induct)
  case (1 n)
  show ?case
  proof (cases "n < 10")
    case True
    then show ?thesis using digits_value_snoc [of "[]" "char_of (48 + n)"]
      by (simp add: nat_digits.simps [of n] digits_value_def)
  next
    case False
    then show ?thesis using 1 by (simp add: nat_digits.simps [of n] digits_value_snoc)
  qed
qed

lemma nat_digits_leading: "hd (nat_digits n) = CHR ''0'' \<Longrightarrow> nat_digits n = ''0''"
proof (induction n rule: nat_digits.induct)
  case (1 n)
  show ?case
  proof (cases "n < 10")
    case True
    then have "char_of (48 + n) = CHR ''0''" using 1(2) by (simp add: nat_digits.simps [of n])
    then show ?thesis using True by (simp add: nat_digits.simps [of n])
  next
    case False
    then have "nat_digits (n div 10) = ''0''" using 1 by (simp add: nat_digits.simps [of n])
    then have "n div 10 = 0" using digits_value_nat_digits [of "n div 10"] by (simp add: digits_value_def digit_val_def)
    then show ?thesis using False by simp
  qed
qed

lemma takeWhile_digits: "list_all is_digit ds \<Longrightarrow> takeWhile is_digit ds = ds \<and> dropWhile is_digit ds = []"
  by (induction ds) auto

lemma nat_digits_cons: obtains c cs where "nat_digits n = c # cs" "c \<noteq> CHR ''-''" "c \<noteq> CHR ''+''"
  using hd_nat_digits [of n] by (cases "nat_digits n") auto

lemma number_ok_nat_digits: "number_ok (nat_digits n)"
proof -
  obtain c cs where c: "nat_digits n = c # cs" "c \<noteq> CHR ''-''" by (rule nat_digits_cons)
  have w: "takeWhile is_digit (c # cs) = c # cs" "dropWhile is_digit (c # cs) = []"
    using takeWhile_digits [OF nat_digits_digits, of n] unfolding c(1) by simp_all
  have "number_ok (c # cs) \<longleftrightarrow> takeWhile is_digit (c # cs) \<noteq> [] \<and>
      (hd (takeWhile is_digit (c # cs)) = CHR ''0'' \<longrightarrow> takeWhile is_digit (c # cs) = ''0'') \<and>
      fraction_ok (dropWhile is_digit (c # cs))"
    by (simp only: number_ok_def Let_def list.case c(2) if_False)
  then show ?thesis
    unfolding w c(1) using nat_digits_leading [of n] unfolding c(1) by (simp add: fraction_ok_def)
qed

lemma number_chars_nat_digits: "list_all number_char (nat_digits n)"
  using nat_digits_digits [of n] by (auto simp: list_all_iff number_char_def)

definition json_nat :: "nat \<Rightarrow> json" where
  "json_nat n = JNum (nat_digits n)"

lemma json_nat_simps [simp]: "printable (json_nat n)" "depth (json_nat n) = 0"
  by (simp_all add: json_nat_def number_ok_nat_digits number_chars_nat_digits)

text \<open>An \<open>int64\<close> field takes a figure below \<open>2 ^ 63\<close> exactly and refuses any other.\<close>

lemma parse_int64_nat_digits:
  "parse_int64 (nat_digits n) = (if n < 2 ^ 63 then Some (of_nat n) else None)"
proof -
  obtain c cs where c: "nat_digits n = c # cs" "c \<noteq> CHR ''-''" by (rule nat_digits_cons)
  have "list_all is_digit (c # cs)" "digits_value (c # cs) = n"
    using nat_digits_digits [of n] digits_value_nat_digits [of n] c(1) by simp_all
  moreover have "int n < 2 ^ 63 \<longleftrightarrow> n < 2 ^ 63"
    by (metis of_nat_less_iff of_nat_numeral of_nat_power)
  ultimately show ?thesis unfolding c(1) parse_int64_def Let_def using c(2) by simp
qed

text \<open>A \<open>float64\<close> field takes the nearest binary64 number.\<close>

lemma rnd_mag_64: "rnd_mag (2 ^ 64) = 2 ^ 64"
  by (rule rnd_mag_exact [where m = 1 and e = 64]) simp_all

lemma f64_round_nat:
  assumes "n < 2 ^ 64" shows "f64_round False (of_nat n) = Fin (rnd_mag (of_nat n))"
proof (rule f64_round_below(1) [OF _ _ rnd_mag_64])
  have "of_nat n < (of_nat (2 ^ 64) :: rat)" using assms by (simp only: of_nat_less_iff)
  then show "of_nat n \<le> (2 ^ 64 :: rat)" by simp
  show "2 ^ 64 < (2 ^ 1024 :: rat)" by (rule power_strict_increasing) auto
qed simp

lemma parse_float_nat_digits:
  assumes "n < 2 ^ 64" shows "parse_float (nat_digits n) = Some (Fin (rnd_mag (of_nat n)))"
proof -
  obtain c cs where c: "nat_digits n = c # cs" "c \<noteq> CHR ''-''" by (rule nat_digits_cons)
  have "takeWhile is_digit (c # cs) = c # cs" "dropWhile is_digit (c # cs) = []" "digits_value (c # cs) = n"
    using takeWhile_digits [OF nat_digits_digits, of n] digits_value_nat_digits [of n] c(1) by simp_all
  then have "decimal (nat_digits n) = (False, of_nat n)"
    unfolding c(1) decimal_def Let_def using c(2) by (simp add: signed_value_def)
  then show ?thesis by (simp add: parse_float_def f64_round_nat [OF assms] Let_def)
qed

end
