(* ===== verification/KubeletStats.thy ===== *)
theory KubeletStats
  imports StatsSummarySpec
begin

text \<open>
  Stats summaries as a kubelet writes them, and their round trip through \<open>decode_summary\<close>.

  The shape is the documented one of the summary API: figures are unsigned 64-bit integers,
  member names start in lower case, a volume carries inode figures and a time, pods and
  containers carry members the exporter does not read (\<open>extra\<close>).  Strings need no escapes.
\<close>

section \<open>Documents\<close>

record kubelet_fs =
  k_time :: string
  k_available :: nat
  k_capacity :: nat
  k_used :: nat
  k_inodesFree :: nat
  k_inodes :: nat
  k_inodesUsed :: nat

record kubelet_container =
  kc_name :: string
  kc_extra :: "(string \<times> json) list"
  kc_rootfs :: kubelet_fs
  kc_logs :: kubelet_fs

record kubelet_pod =
  kp_name :: string
  kp_namespace :: string
  kp_uid :: string
  kp_extra :: "(string \<times> json) list"
  kp_containers :: "kubelet_container list"
  kp_volumes :: "(string \<times> kubelet_fs) list"
  kp_ephemeral :: kubelet_fs

definition fs_members :: "kubelet_fs \<Rightarrow> (string \<times> json) list" where
  "fs_members k =
     [(''time'', JStr (k_time k)), (''availableBytes'', json_nat (k_available k)),
      (''capacityBytes'', json_nat (k_capacity k)), (''usedBytes'', json_nat (k_used k)),
      (''inodesFree'', json_nat (k_inodesFree k)), (''inodes'', json_nat (k_inodes k)),
      (''inodesUsed'', json_nat (k_inodesUsed k))]"

definition container_json :: "kubelet_container \<Rightarrow> json" where
  "container_json c = JObj ((''name'', JStr (kc_name c)) # kc_extra c @
     [(''rootfs'', JObj (fs_members (kc_rootfs c))), (''logs'', JObj (fs_members (kc_logs c)))])"

definition volume_json :: "string \<times> kubelet_fs \<Rightarrow> json" where
  "volume_json v = JObj (fs_members (snd v) @ [(''name'', JStr (fst v))])"

definition pod_json :: "kubelet_pod \<Rightarrow> json" where
  "pod_json p = JObj
     ((''podRef'', JObj [(''name'', JStr (kp_name p)), (''namespace'', JStr (kp_namespace p)),
                         (''uid'', JStr (kp_uid p))]) #
      kp_extra p @
      [(''containers'', JArr (map container_json (kp_containers p))),
       (''volume'', JArr (map volume_json (kp_volumes p))),
       (''ephemeral-storage'', JObj (fs_members (kp_ephemeral p)))])"

definition stats_json :: "string \<Rightarrow> kubelet_pod list \<Rightarrow> json" where
  "stats_json node ps = JObj
     [(''node'', JObj [(''nodeName'', JStr node)]), (''pods'', JArr (map pod_json ps))]"

section \<open>What the exporter should read\<close>

definition read_float :: "nat \<Rightarrow> f64" where
  "read_float n = Fin (rnd_mag (of_nat n))"

definition fs_stats :: "kubelet_fs \<Rightarrow> FsStats" where
  "fs_stats k =
     \<lparr>fs_AvailableBytes = of_nat (k_available k), fs_CapacityBytes = of_nat (k_capacity k),
      fs_UsedBytes = of_nat (k_used k), fs_Inodes = of_nat (k_inodes k),
      fs_InodesFree = of_nat (k_inodesFree k), fs_InodesUsed = of_nat (k_inodesUsed k)\<rparr>"

definition container_stats :: "kubelet_container \<Rightarrow> ContainerStats" where
  "container_stats c = \<lparr>cs_Name = kc_name c, cs_Rootfs = fs_stats (kc_rootfs c), cs_Logs = fs_stats (kc_logs c)\<rparr>"

definition volume_stats :: "string \<times> kubelet_fs \<Rightarrow> Volume" where
  "volume_stats v =
     \<lparr>vol_AvailableBytes = of_nat (k_available (snd v)), vol_CapacityBytes = of_nat (k_capacity (snd v)),
      vol_UsedBytes = of_nat (k_used (snd v)), vol_Name = fst v\<rparr>"

definition pod_summary :: "kubelet_pod \<Rightarrow> PodSummary" where
  "pod_summary p =
     \<lparr>ps_Name = kp_name p, ps_Namespace = kp_namespace p,
      ps_EphemeralStorage =
        (let k = kp_ephemeral p in
         \<lparr>fig_usedBytes = read_float (k_used k), fig_availableBytes = read_float (k_available k),
          fig_capacityBytes = read_float (k_capacity k), fig_inodes = read_float (k_inodes k),
          fig_inodesFree = read_float (k_inodesFree k), fig_inodesUsed = read_float (k_inodesUsed k)\<rparr>),
      ps_Containers = map container_stats (kp_containers p),
      ps_Volumes = map volume_stats (kp_volumes p)\<rparr>"

section \<open>Well-formed documents\<close>

definition fs_figures :: "kubelet_fs \<Rightarrow> nat list" where
  "fs_figures k = [k_available k, k_capacity k, k_used k, k_inodesFree k, k_inodes k, k_inodesUsed k]"

definition fs_below :: "nat \<Rightarrow> kubelet_fs \<Rightarrow> bool" where
  "fs_below b k \<longleftrightarrow> plain (k_time k) \<and> (\<forall>n \<in> set (fs_figures k). n < b)"

text \<open>Members the exporter's type does not select, at most 100 levels deep.\<close>

definition ignorable :: "gotype \<Rightarrow> (string \<times> json) list \<Rightarrow> bool" where
  "ignorable t kvs \<longleftrightarrow> (case t of
     TStruct fs \<Rightarrow> list_all (\<lambda>(k, j). plain k \<and> printable j \<and> depth j \<le> 100 \<and> select_field fs k = None) kvs
   | _ \<Rightarrow> False)"

definition container_doc_ok :: "nat \<Rightarrow> kubelet_container \<Rightarrow> bool" where
  "container_doc_ok b c \<longleftrightarrow> plain (kc_name c) \<and> ignorable ContainerStats_type (kc_extra c) \<and>
     fs_below b (kc_rootfs c) \<and> fs_below b (kc_logs c)"

definition pod_doc_ok :: "nat \<Rightarrow> kubelet_pod \<Rightarrow> bool" where
  "pod_doc_ok b p \<longleftrightarrow> plain (kp_name p) \<and> plain (kp_namespace p) \<and> plain (kp_uid p) \<and>
     ignorable PodSummary_type (kp_extra p) \<and> fs_below (2 ^ 64) (kp_ephemeral p) \<and>
     list_all (container_doc_ok b) (kp_containers p) \<and>
     list_all (\<lambda>(name, k). plain name \<and> fs_below b k) (kp_volumes p)"

section \<open>Which field each member selects\<close>

lemma select_FsStats:
  "select_field fs ''time'' = None" "select_field fs ''availableBytes'' = Some 0"
  "select_field fs ''capacityBytes'' = Some 1" "select_field fs ''usedBytes'' = Some 2"
  "select_field fs ''inodes'' = Some 3" "select_field fs ''inodesFree'' = Some 4"
  "select_field fs ''inodesUsed'' = Some 5"
  if "FsStats_type = TStruct fs" for fs
  using that unfolding FsStats_type_def gotype.inject by (hypsubst, code_simp)+

lemma select_ephemeral_storage:
  "select_field fs ''time'' = None" "select_field fs ''availableBytes'' = Some 0"
  "select_field fs ''capacityBytes'' = Some 1" "select_field fs ''usedBytes'' = Some 2"
  "select_field fs ''inodes'' = Some 3" "select_field fs ''inodesFree'' = Some 4"
  "select_field fs ''inodesUsed'' = Some 5"
  if "ephemeral_storage_type = TStruct fs" for fs
  using that unfolding ephemeral_storage_type_def gotype.inject by (hypsubst, code_simp)+

lemma select_Volume:
  "select_field fs ''time'' = None" "select_field fs ''availableBytes'' = Some 0"
  "select_field fs ''capacityBytes'' = Some 1" "select_field fs ''usedBytes'' = Some 2"
  "select_field fs ''inodes'' = None" "select_field fs ''inodesFree'' = None"
  "select_field fs ''inodesUsed'' = None" "select_field fs ''name'' = Some 3"
  if "Volume_type = TStruct fs" for fs
  using that unfolding Volume_type_def gotype.inject by (hypsubst, code_simp)+

lemma select_ContainerStats:
  "select_field fs ''name'' = Some 0" "select_field fs ''rootfs'' = Some 1" "select_field fs ''logs'' = Some 2"
  if "ContainerStats_type = TStruct fs" for fs
  using that unfolding ContainerStats_type_def gotype.inject by (hypsubst, code_simp)+

lemma select_pod_ref:
  "select_field fs ''name'' = Some 0" "select_field fs ''namespace'' = Some 1" "select_field fs ''uid'' = None"
  if "pod_ref_type = TStruct fs" for fs
  using that unfolding pod_ref_type_def gotype.inject by (hypsubst, code_simp)+

lemma select_PodSummary:
  "select_field fs ''podRef'' = Some 0" "select_field fs ''ephemeral-storage'' = Some 1"
  "select_field fs ''containers'' = Some 2" "select_field fs ''volume'' = Some 3"
  if "PodSummary_type = TStruct fs" for fs
  using that unfolding PodSummary_type_def gotype.inject by (hypsubst, code_simp)+

lemma select_Summary:
  "select_field fs ''node'' = Some 0" "select_field fs ''pods'' = Some 1"
  if "Summary_type = TStruct fs" for fs
  using that unfolding Summary_type_def gotype.inject by (hypsubst, code_simp)+

lemma select_node: "select_field [(''nodeName'', TString)] ''nodeName'' = Some 0"
  by code_simp

lemmas selects = select_FsStats [OF FsStats_type_def] select_ephemeral_storage [OF ephemeral_storage_type_def]
  select_Volume [OF Volume_type_def] select_ContainerStats [OF ContainerStats_type_def]
  select_pod_ref [OF pod_ref_type_def] select_PodSummary [OF PodSummary_type_def]
  select_Summary [OF Summary_type_def] select_node

section \<open>Storing a document\<close>

lemma unmarshal_fields_skip:
  "list_all (\<lambda>(k, j). select_field fs k = None) kvs \<Longrightarrow>
    unmarshal_fields fs (kvs @ rest) vs = unmarshal_fields fs rest vs"
  by (induction kvs) auto

lemma unmarshal_elems_fresh:
  assumes "\<And>x. x \<in> set xs \<Longrightarrow> unmarshal t (f x) (zero_value t) = Some (g x)"
  shows "unmarshal_elems t (map f xs) [] i = Some (map g xs)"
  using assms by (induction xs arbitrary: i) (simp_all add: slice_elem_def)

lemma unmarshal_slice_fresh:
  assumes "\<And>x. x \<in> set xs \<Longrightarrow> unmarshal t (f x) (zero_value t) = Some (g x)"
  shows "unmarshal (TSlice t) (JArr (map f xs)) (GSlice [] 0) = Some (GSlice (map g xs) (length xs))"
  using unmarshal_elems_fresh [of xs t f g 0] assms by simp

lemma read_slice_map:
  assumes "\<And>x. x \<in> set xs \<Longrightarrow> read (g x) = Some (h x)"
  shows "read_slice read (GSlice (map g xs) (length xs)) = Some (map h xs)"
  using those_map_Some [of xs "\<lambda>x. read (g x)" h] assms by (simp add: read_slice_def comp_def)

lemma unmarshal_json_nat:
  "unmarshal TInt64 (json_nat n) old = (if n < 2 ^ 63 then Some (GInt (of_nat n)) else None)"
  "n < 2 ^ 64 \<Longrightarrow> unmarshal TFloat64 (json_nat n) old = Some (GFloat (read_float n))"
  by (simp_all add: json_nat_def parse_int64_nat_digits parse_float_nat_digits read_float_def)

definition fs_value :: "kubelet_fs \<Rightarrow> goval" where
  "fs_value k = GStruct
     [GInt (of_nat (k_available k)), GInt (of_nat (k_capacity k)), GInt (of_nat (k_used k)),
      GInt (of_nat (k_inodes k)), GInt (of_nat (k_inodesFree k)), GInt (of_nat (k_inodesUsed k))]"

lemma unmarshal_fs:
  assumes "fs_below (2 ^ 63) k"
  shows "unmarshal FsStats_type (JObj (fs_members k)) (zero_value FsStats_type) = Some (fs_value k)"
    and "read_fs (fs_value k) = Some (fs_stats k)"
proof -
  have "\<forall>n \<in> set (fs_figures k). n < 2 ^ 63" using assms by (simp add: fs_below_def)
  then show "unmarshal FsStats_type (JObj (fs_members k)) (zero_value FsStats_type) = Some (fs_value k)"
    unfolding FsStats_type_def fs_members_def fs_value_def fs_figures_def
    by (simp add: selects unmarshal_json_nat)
  show "read_fs (fs_value k) = Some (fs_stats k)"
    by (simp add: fs_value_def read_fs_def fs_stats_def)
qed
lemma unmarshal_figures:
  assumes "fs_below (2 ^ 64) k"
  shows "unmarshal ephemeral_storage_type (JObj (fs_members k)) (zero_value ephemeral_storage_type) =
    Some (GStruct [GFloat (read_float (k_available k)), GFloat (read_float (k_capacity k)),
      GFloat (read_float (k_used k)), GFloat (read_float (k_inodes k)),
      GFloat (read_float (k_inodesFree k)), GFloat (read_float (k_inodesUsed k))])"
proof -
  have "\<forall>n \<in> set (fs_figures k). n < 2 ^ 64" using assms by (simp add: fs_below_def)
  then show ?thesis
    unfolding ephemeral_storage_type_def fs_members_def fs_figures_def
    by (simp add: selects unmarshal_json_nat)
qed

definition volume_value :: "string \<times> kubelet_fs \<Rightarrow> goval" where
  "volume_value v = GStruct
     [GInt (of_nat (k_available (snd v))), GInt (of_nat (k_capacity (snd v))),
      GInt (of_nat (k_used (snd v))), GString (fst v)]"

lemma unmarshal_volume:
  assumes "fs_below (2 ^ 63) (snd v)"
  shows "unmarshal Volume_type (volume_json v) (zero_value Volume_type) = Some (volume_value v)"
    and "read_volume (volume_value v) = Some (volume_stats v)"
proof -
  have "\<forall>n \<in> set (fs_figures (snd v)). n < 2 ^ 63" using assms by (simp add: fs_below_def)
  then show "unmarshal Volume_type (volume_json v) (zero_value Volume_type) = Some (volume_value v)"
    unfolding Volume_type_def volume_json_def fs_members_def volume_value_def fs_figures_def
    by (simp add: selects unmarshal_json_nat)
  show "read_volume (volume_value v) = Some (volume_stats v)"
    by (simp add: volume_value_def read_volume_def volume_stats_def)
qed

lemma ignorable_skip:
  "ignorable (TStruct fs) kvs \<Longrightarrow> unmarshal_fields fs (kvs @ rest) vs = unmarshal_fields fs rest vs"
  by (rule unmarshal_fields_skip) (auto simp: ignorable_def list_all_iff)

definition container_value :: "kubelet_container \<Rightarrow> goval" where
  "container_value c = GStruct [GString (kc_name c), fs_value (kc_rootfs c), fs_value (kc_logs c)]"

lemma zero_struct:
  "zero_value ContainerStats_type = GStruct [GString '''', zero_value FsStats_type, zero_value FsStats_type]"
  "zero_value PodSummary_type = GStruct
     [zero_value pod_ref_type, zero_value ephemeral_storage_type, GSlice [] 0, GSlice [] 0]"
  "zero_value pod_ref_type = GStruct [GString '''', GString '''']"
  "zero_value Summary_type = GStruct [GStruct [GString ''''], GSlice [] 0]"
  by (simp_all add: ContainerStats_type_def PodSummary_type_def pod_ref_type_def Summary_type_def)

lemma unmarshal_struct:
  "unmarshal (TStruct fs) (JObj kvs) (GStruct vs) = map_option GStruct (unmarshal_fields fs kvs vs)"
  by simp

lemma unmarshal_container:
  assumes "container_doc_ok (2 ^ 63) c"
  shows "unmarshal ContainerStats_type (container_json c) (zero_value ContainerStats_type) = Some (container_value c)"
    and "read_container (container_value c) = Some (container_stats c)"
proof -
  have ok: "ignorable ContainerStats_type (kc_extra c)" "fs_below (2 ^ 63) (kc_rootfs c)" "fs_below (2 ^ 63) (kc_logs c)"
    using assms by (simp_all add: container_doc_ok_def)
  note skip = ignorable_skip [OF ok(1) [unfolded ContainerStats_type_def]]
  show "unmarshal ContainerStats_type (container_json c) (zero_value ContainerStats_type) = Some (container_value c)"
    unfolding zero_struct(1) container_json_def container_value_def
    unfolding ContainerStats_type_def
    by (simp add: unmarshal_struct selects skip unmarshal_fs [OF ok(2)] unmarshal_fs [OF ok(3)] del: unmarshal.simps(6))
  show "read_container (container_value c) = Some (container_stats c)"
    using ok by (simp add: container_value_def read_container_def container_stats_def unmarshal_fs(2) [OF ok(2)]
        unmarshal_fs(2) [OF ok(3)])
qed

lemma unmarshal_pod_ref:
  "unmarshal pod_ref_type (JObj [(''name'', JStr a), (''namespace'', JStr b), (''uid'', JStr c)])
     (zero_value pod_ref_type) = Some (GStruct [GString a, GString b])"
  unfolding zero_struct(3) unfolding pod_ref_type_def by (simp add: selects)

definition pod_value :: "kubelet_pod \<Rightarrow> goval" where
  "pod_value p = (let k = kp_ephemeral p in GStruct
     [GStruct [GString (kp_name p), GString (kp_namespace p)],
      GStruct [GFloat (read_float (k_available k)), GFloat (read_float (k_capacity k)),
        GFloat (read_float (k_used k)), GFloat (read_float (k_inodes k)),
        GFloat (read_float (k_inodesFree k)), GFloat (read_float (k_inodesUsed k))],
      GSlice (map container_value (kp_containers p)) (length (kp_containers p)),
      GSlice (map volume_value (kp_volumes p)) (length (kp_volumes p))])"

lemma unmarshal_pod:
  assumes "pod_doc_ok (2 ^ 63) p"
  shows "unmarshal PodSummary_type (pod_json p) (zero_value PodSummary_type) = Some (pod_value p)"
    and "read_pod (pod_value p) = Some (pod_summary p)"
proof -
  have ok: "ignorable PodSummary_type (kp_extra p)" "fs_below (2 ^ 64) (kp_ephemeral p)"
    and each: "\<And>c. c \<in> set (kp_containers p) \<Longrightarrow> container_doc_ok (2 ^ 63) c"
      "\<And>v. v \<in> set (kp_volumes p) \<Longrightarrow> fs_below (2 ^ 63) (snd v)"
    using assms by (auto simp: pod_doc_ok_def list_all_iff)
  note skip = ignorable_skip [OF ok(1) [unfolded PodSummary_type_def]]
  note slices = unmarshal_slice_fresh [OF unmarshal_container(1) [OF each(1)]]
    unmarshal_slice_fresh [OF unmarshal_volume(1) [OF each(2)]]
  show "unmarshal PodSummary_type (pod_json p) (zero_value PodSummary_type) = Some (pod_value p)"
    unfolding zero_struct(2) pod_json_def pod_value_def Let_def
    unfolding PodSummary_type_def
    by (simp add: unmarshal_struct selects skip slices unmarshal_pod_ref unmarshal_figures [OF ok(2)]
        del: unmarshal.simps(5,6))
  have read_cs: "read_slice read_container (GSlice (map container_value (kp_containers p)) (length (kp_containers p))) =
      Some (map container_stats (kp_containers p))"
    by (rule read_slice_map) (rule unmarshal_container(2) [OF each(1)])
  have read_vs: "read_slice read_volume (GSlice (map volume_value (kp_volumes p)) (length (kp_volumes p))) =
      Some (map volume_stats (kp_volumes p))"
    by (rule read_slice_map) (rule unmarshal_volume(2) [OF each(2)])
  show "read_pod (pod_value p) = Some (pod_summary p)"
    using read_cs read_vs
    by (simp add: pod_value_def read_pod_def pod_summary_def read_figures_def Let_def)
qed

lemma unmarshal_stats:
  assumes "list_all (pod_doc_ok (2 ^ 63)) ps"
  shows "Option.bind (unmarshal Summary_type (stats_json node ps) (zero_value Summary_type)) read_summary =
    Some \<lparr>sm_NodeName = node, sm_Pods = map pod_summary ps\<rparr>"
proof -
  have each: "\<And>p. p \<in> set ps \<Longrightarrow> pod_doc_ok (2 ^ 63) p" using assms by (simp add: list_all_iff)
  have "unmarshal Summary_type (stats_json node ps) (zero_value Summary_type) =
      Some (GStruct [GStruct [GString node], GSlice (map pod_value ps) (length ps)])"
    unfolding zero_struct(4) stats_json_def
    unfolding Summary_type_def
    by (simp add: unmarshal_struct selects unmarshal_slice_fresh [OF unmarshal_pod(1) [OF each]]
        del: unmarshal.simps(5,6))
  moreover have "read_slice read_pod (GSlice (map pod_value ps) (length ps)) = Some (map pod_summary ps)"
    by (rule read_slice_map) (rule unmarshal_pod(2) [OF each])
  ultimately show ?thesis by (simp add: read_summary_def)
qed
section \<open>Reading a rendered document\<close>

lemma plain_names:
  "plain ''time''" "plain ''availableBytes''" "plain ''capacityBytes''" "plain ''usedBytes''"
  "plain ''inodesFree''" "plain ''inodes''" "plain ''inodesUsed''" "plain ''name''" "plain ''rootfs''"
  "plain ''logs''" "plain ''podRef''" "plain ''namespace''" "plain ''uid''" "plain ''containers''"
  "plain ''volume''" "plain ''ephemeral-storage''" "plain ''node''" "plain ''nodeName''" "plain ''pods''"
  by (simp_all add: plain_def)

lemma depth_object_le:
  "(\<forall>(k, j) \<in> set kvs. depth j \<le> d) \<Longrightarrow> depth (JObj kvs) \<le> Suc d"
  by auto

lemma array_document:
  assumes "\<And>x. x \<in> set xs \<Longrightarrow> printable (f x)" and "\<And>x. x \<in> set xs \<Longrightarrow> depth (f x) \<le> d"
  shows "printable (JArr (map f xs))" and "depth (JArr (map f xs)) \<le> Suc d"
  using assms by (auto simp: list_all_iff)

lemma fs_document:
  assumes "fs_below b k"
  shows "printable (JObj (fs_members k))" and "depth (JObj (fs_members k)) \<le> 1"
  using assms by (simp_all add: fs_members_def fs_below_def plain_names)

lemma ignorable_document:
  assumes "ignorable t kvs"
  shows "list_all (\<lambda>(k, j). plain k \<and> printable j) kvs" and "\<forall>(k, j) \<in> set kvs. depth j \<le> 100"
  using assms by (auto simp: ignorable_def list_all_iff split: gotype.splits)

lemma container_document:
  assumes "container_doc_ok b c"
  shows "printable (container_json c)" and "depth (container_json c) \<le> 101"
proof -
  note ok = assms [unfolded container_doc_ok_def]
  note fs = fs_document [of b "kc_rootfs c"] fs_document [of b "kc_logs c"]
  show "printable (container_json c)"
    using ok fs ignorable_document [of ContainerStats_type "kc_extra c"]
    by (simp add: container_json_def plain_names)
  have "depth (container_json c) \<le> Suc 100"
    unfolding container_json_def
  proof (rule depth_object_le)
    show "\<forall>(k, j) \<in> set ((''name'', JStr (kc_name c)) # kc_extra c @
        [(''rootfs'', JObj (fs_members (kc_rootfs c))), (''logs'', JObj (fs_members (kc_logs c)))]). depth j \<le> 100"
      using ok fs ignorable_document(2) [of ContainerStats_type "kc_extra c"] by (auto simp del: depth.simps(1,2))
  qed
  then show "depth (container_json c) \<le> 101" by simp
qed

lemma volume_document:
  assumes "plain (fst v)" and "fs_below b (snd v)"
  shows "printable (volume_json v)" and "depth (volume_json v) \<le> 1"
  using assms by (simp_all add: volume_json_def fs_members_def fs_below_def plain_names)

lemma pod_document:
  assumes "pod_doc_ok b p"
  shows "printable (pod_json p)" and "depth (pod_json p) \<le> 103"
proof -
  note ok = assms [unfolded pod_doc_ok_def]
  have each: "\<And>c. c \<in> set (kp_containers p) \<Longrightarrow> container_doc_ok b c"
      "\<And>v. v \<in> set (kp_volumes p) \<Longrightarrow> plain (fst v) \<and> fs_below b (snd v)"
    using ok by (auto simp: list_all_iff)
  have cs: "printable (JArr (map container_json (kp_containers p)))" "depth (JArr (map container_json (kp_containers p))) \<le> Suc 101"
    by (rule array_document; rule container_document [OF each(1)]; assumption)+
  have vs: "printable (JArr (map volume_json (kp_volumes p)))" "depth (JArr (map volume_json (kp_volumes p))) \<le> Suc 1"
    by (rule array_document; use volume_document each(2) in blast)+
  note fs = fs_document [of "2 ^ 64" "kp_ephemeral p"]
  show "printable (pod_json p)"
    using ok fs cs(1) vs(1) ignorable_document(1) [of PodSummary_type "kp_extra p"]
    unfolding pod_json_def by (simp add: plain_names)
  have "depth (pod_json p) \<le> Suc 102"
    unfolding pod_json_def
  proof (rule depth_object_le)
    have "depth (JObj [(''name'', JStr (kp_name p)), (''namespace'', JStr (kp_namespace p)), (''uid'', JStr (kp_uid p))]) \<le> 1"
      by simp
    then show "\<forall>(k, j) \<in> set ((''podRef'', JObj [(''name'', JStr (kp_name p)), (''namespace'', JStr (kp_namespace p)),
                         (''uid'', JStr (kp_uid p))]) # kp_extra p @
      [(''containers'', JArr (map container_json (kp_containers p))),
       (''volume'', JArr (map volume_json (kp_volumes p))),
       (''ephemeral-storage'', JObj (fs_members (kp_ephemeral p)))]). depth j \<le> 102"
      using ok fs(2) cs(2) vs(2) ignorable_document(2) [of PodSummary_type "kp_extra p"]
      by (auto simp del: depth.simps)
  qed
  then show "depth (pod_json p) \<le> 103" by simp
qed

lemma stats_document:
  assumes "plain node" and "list_all (pod_doc_ok b) ps"
  shows "printable (stats_json node ps)" and "depth (stats_json node ps) \<le> max_depth"
proof -
  have each: "\<And>p. p \<in> set ps \<Longrightarrow> pod_doc_ok b p" using assms(2) by (simp add: list_all_iff)
  have arr: "printable (JArr (map pod_json ps))" "depth (JArr (map pod_json ps)) \<le> Suc 103"
    by (rule array_document; rule pod_document [OF each]; assumption)+
  show "printable (stats_json node ps)" using arr(1) assms(1) by (simp add: stats_json_def plain_names)
  have "depth (stats_json node ps) \<le> Suc 104"
    unfolding stats_json_def by (rule depth_object_le) (use arr(2) in auto)
  then show "depth (stats_json node ps) \<le> max_depth" by (simp add: max_depth_def)
qed

lemma decode_stats:
  assumes "plain node" and "list_all (pod_doc_ok (2 ^ 63)) ps"
  shows "decode_summary (render (stats_json node ps)) = Inr \<lparr>sm_NodeName = node, sm_Pods = map pod_summary ps\<rparr>"
  using parse_render [OF stats_document [OF assms]] unmarshal_stats [OF assms(2), of node]
  by (simp add: decode_summary_def Unmarshal_def)
section \<open>A figure that does not fit\<close>

definition fs_too_large :: "kubelet_fs \<Rightarrow> bool" where
  "fs_too_large k \<longleftrightarrow> (\<exists>n \<in> set (fs_figures k). 2 ^ 63 \<le> n)"

lemma unmarshal_fs_too_large:
  assumes "fs_too_large k"
  shows "unmarshal FsStats_type (JObj (fs_members k)) (zero_value FsStats_type) = None"
  using assms unfolding fs_too_large_def FsStats_type_def fs_members_def fs_figures_def
  by (auto simp: selects unmarshal_json_nat)

lemma unmarshal_elems_error:
  "j \<in> set js \<Longrightarrow> unmarshal t j (zero_value t) = None \<Longrightarrow> unmarshal_elems t js [] i = None"
  by (induction js arbitrary: i) (auto simp: slice_elem_def split: option.splits)

lemma unmarshal_slice_error:
  "j \<in> set js \<Longrightarrow> unmarshal t j (zero_value t) = None \<Longrightarrow> unmarshal (TSlice t) (JArr js) (GSlice [] 0) = None"
  using unmarshal_elems_error [of j js t 0] by (cases js) auto

lemma unmarshal_container_error:
  assumes "container_doc_ok b c" and "fs_too_large (kc_rootfs c) \<or> fs_too_large (kc_logs c)"
  shows "unmarshal ContainerStats_type (container_json c) (zero_value ContainerStats_type) = None"
proof -
  have ok: "ignorable ContainerStats_type (kc_extra c)" using assms(1) by (simp add: container_doc_ok_def)
  note skip = ignorable_skip [OF ok [unfolded ContainerStats_type_def]]
  note none = unmarshal_fs_too_large [of "kc_rootfs c"] unmarshal_fs_too_large [of "kc_logs c"]
  show ?thesis
    using none assms(2) unfolding zero_struct(1) container_json_def
    unfolding ContainerStats_type_def
    by (auto simp add: unmarshal_struct selects skip simp del: unmarshal.simps(6) split: option.splits)
qed

lemma unmarshal_pod_error:
  assumes "pod_doc_ok b p" and "c \<in> set (kp_containers p)"
    and "unmarshal ContainerStats_type (container_json c) (zero_value ContainerStats_type) = None"
  shows "unmarshal PodSummary_type (pod_json p) (zero_value PodSummary_type) = None"
proof -
  have ok: "ignorable PodSummary_type (kp_extra p)" using assms(1) by (simp add: pod_doc_ok_def)
  note skip = ignorable_skip [OF ok [unfolded PodSummary_type_def]]
  have slice: "unmarshal (TSlice ContainerStats_type) (JArr (map container_json (kp_containers p))) (GSlice [] 0) = None"
    by (rule unmarshal_slice_error [OF _ assms(3)]) (use assms(2) in simp)
  show ?thesis
    unfolding zero_struct(2) pod_json_def unfolding PodSummary_type_def
    by (simp add: unmarshal_struct selects skip unmarshal_pod_ref slice del: unmarshal.simps(5,6))
qed

lemma decode_stats_too_large:
  assumes "plain node" and "list_all (pod_doc_ok b) ps" and "p \<in> set ps" and "c \<in> set (kp_containers p)"
    and "fs_too_large (kc_rootfs c) \<or> fs_too_large (kc_logs c)"
  shows "decode_summary (render (stats_json node ps)) = Inl ''json: cannot unmarshal''"
proof -
  have p: "pod_doc_ok b p" and c: "container_doc_ok b c"
    using assms(2-4) by (auto simp: list_all_iff pod_doc_ok_def)
  have "unmarshal PodSummary_type (pod_json p) (zero_value PodSummary_type) = None"
    by (rule unmarshal_pod_error [OF p assms(4) unmarshal_container_error [OF c assms(5)]])
  then have slice: "unmarshal (TSlice PodSummary_type) (JArr (map pod_json ps)) (GSlice [] 0) = None"
    by (rule unmarshal_slice_error [rotated]) (use assms(3) in simp)
  have "unmarshal Summary_type (stats_json node ps) (zero_value Summary_type) = None"
    unfolding zero_struct(4) stats_json_def unfolding Summary_type_def
    by (simp add: unmarshal_struct selects slice del: unmarshal.simps(5,6))
  then show ?thesis
    using parse_render [OF stats_document [OF assms(1,2)]] by (simp add: decode_summary_def Unmarshal_def)
qed

end
