(* ===== verification/SummaryProperties.thy ===== *)
theory SummaryProperties
  imports KubeletStats Demo
begin

text \<open>
  The properties of the stats summary from its bytes to the gauges: a kubelet's document is read
  figure by figure, a figure that does not fit drops the whole document, and what is read is what the pod's gauges show.
\<close>

section \<open>Decoding\<close>

text \<open>C13: a kubelet's summary with figures below \<open>2 ^ 63\<close> and strings without characters that JSON
  escapes, rendered in its own member order and spelling and with members the exporter does not know,
  decodes to exactly its figures: the pod figures as the nearest binary64
  numbers, the container and volume figures as the integers themselves.\<close>

theorem kubelet_summary_roundtrip:
  assumes "plain node" and "list_all (pod_doc_ok (2 ^ 63)) ps"
  shows "decode_summary (render (stats_json node ps)) = Inr \<lparr>sm_NodeName = node, sm_Pods = map pod_summary ps\<rparr>"
  by (rule decode_stats [OF assms])

definition demo_fs :: "nat \<Rightarrow> kubelet_fs" where
  "demo_fs used = \<lparr>k_time = ''2024-05-01T10:00:00Z'', k_available = 8192, k_capacity = 16384, k_used = used,
     k_inodesFree = 32, k_inodes = 64, k_inodesUsed = 32\<rparr>"

definition demo_doc :: "nat \<Rightarrow> kubelet_pod" where
  "demo_doc used = \<lparr>kp_name = ''web'', kp_namespace = ''default'', kp_uid = ''7c1e'',
     kp_extra = [(''startTime'', JStr ''2024-05-01T09:00:00Z'')],
     kp_containers = [\<lparr>kc_name = ''nginx'', kc_extra = [(''cpu'', JObj [])], kc_rootfs = demo_fs used, kc_logs = demo_fs 1\<rparr>],
     kp_volumes = [(''cache'', demo_fs 2)], kp_ephemeral = demo_fs 4096\<rparr>"

lemma demo_ignored:
  "ignorable PodSummary_type [(''startTime'', JStr ''2024-05-01T09:00:00Z'')]"
  "ignorable ContainerStats_type [(''cpu'', JObj [])]"
proof -
  have "select_field fs ''startTime'' = None" if "PodSummary_type = TStruct fs" for fs
    using that unfolding PodSummary_type_def gotype.inject by (hypsubst, code_simp)
  then show "ignorable PodSummary_type [(''startTime'', JStr ''2024-05-01T09:00:00Z'')]"
    by (simp add: ignorable_def plain_def split: gotype.split) (simp add: PodSummary_type_def)
  have "select_field fs ''cpu'' = None" if "ContainerStats_type = TStruct fs" for fs
    using that unfolding ContainerStats_type_def gotype.inject by (hypsubst, code_simp)
  then show "ignorable ContainerStats_type [(''cpu'', JObj [])]"
    by (simp add: ignorable_def plain_def split: gotype.split) (simp add: ContainerStats_type_def)
qed

lemma demo_doc_ok:
  assumes "used < 2 ^ 64" and "8192 * 2 < b" and "used < b"
  shows "pod_doc_ok b (demo_doc used)"
  using assms demo_ignored
  by (simp add: pod_doc_ok_def demo_doc_def container_doc_ok_def fs_below_def demo_fs_def fs_figures_def plain_def)

lemma kubelet_summary_roundtrip_witness:
  "\<exists>data. decode_summary (render (stats_json ''node-a'' [demo_doc 77])) = Inr data \<and>
    map (fs_UsedBytes \<circ> cs_Rootfs) (concat (map ps_Containers (sm_Pods data))) = [77]"
proof -
  have "pod_doc_ok (2 ^ 63) (demo_doc 77)" by (rule demo_doc_ok) simp_all
  then show ?thesis
    using kubelet_summary_roundtrip [of "''node-a''" "[demo_doc 77]"]
    by (auto simp: plain_def pod_summary_def demo_doc_def container_stats_def fs_stats_def demo_fs_def)
qed

section \<open>From the bytes to the gauges\<close>

text \<open>C26: one container figure of \<open>2 ^ 63\<close> or more, which the kubelet's unsigned fields allow,
  makes the whole summary undecodable although the pod's own figures are read as floats: the scrape
  leaves every series and counter of the node as it was, so the node's pods stay frozen at their
  last figures and none of them is evicted as stale.\<close>

theorem large_figure_drops_summary:
  assumes "retry (query_policy n) (\<lambda>i. query_operation n nodeName (attempts i)) = Some (Inr (render (stats_json node ps)))"
    and "plain node" and "list_all (pod_doc_ok (2 ^ 64)) ps"
    and "p \<in> set ps" and "c \<in> set (kp_containers p)"
    and "fs_too_large (kc_rootfs c) \<or> fs_too_large (kc_logs c)"
  shows "setMetrics P S retry ord decode_summary n cr mill nodeName attempts elapsed pk = Some pk"
  by (rule setMetrics_undecodable [where decode = decode_summary, OF _ decode_stats_too_large [OF assms(2-6)]])
    (use assms(1) in \<open>simp add: query_answer_def\<close>)

lemma large_figure_drops_summary_witness:
  "setMetrics mem_prom list_set (\<lambda>b run. Some (run 0)) sorted_keys decode_summary (node_config daemon_env 15)
     (collector_config daemon_env 15) 15000 ''node-a'' (answering (render (stats_json ''node-a'' [demo_doc (2 ^ 63)]))) 0
     (pkgs (snd (booted daemon_env))) = Some (pkgs (snd (booted daemon_env)))"
proof -
  have "pod_doc_ok (2 ^ 64) (demo_doc (2 ^ 63))" by (rule demo_doc_ok) simp_all
  moreover have "query_operation (node_config daemon_env 15) ''node-a'' (answering content 0) = Inr content" for content
    by (simp add: query_operation_def answering_def node_config_def daemon_env_def env_bool_unset)
  ultimately show ?thesis
    by (intro large_figure_drops_summary [where node = "''node-a''" and ps = "[demo_doc (2 ^ 63)]"
          and p = "demo_doc (2 ^ 63)" and c = "hd (kp_containers (demo_doc (2 ^ 63)))"])
      (simp_all add: plain_def demo_doc_def demo_fs_def fs_too_large_def fs_figures_def)
qed

lemma pod_labels_inject: "pod_labels a b m = pod_labels c d m' \<longleftrightarrow> a = c \<and> b = d \<and> m = m'"
proof
  assume eq: "pod_labels a b m = pod_labels c d m'"
  from fun_cong [OF eq, of "''pod_namespace''"] fun_cong [OF eq, of "''pod_name''"] fun_cong [OF eq, of "''node_name''"]
  show "a = c \<and> b = d \<and> m = m'" by (simp add: pod_labels_def)
qed simp

lemma pod_usage_write:
  assumes "(PodVec podGaugeVec, ls, x) \<in> set (summary_pod_writes n cr table m p)"
  shows "ls = pod_labels (ps_Namespace p) (ps_Name p) m \<and> x = fig_usedBytes (ps_EphemeralStorage p)"
  using assms
  by (auto simp: summary_pod_writes_def tag_writes_def pod_writes_def volume_usage_writes_def volume_limit_writes_def
      container_limit_write_def rootfs_writes_def logs_writes_def fs_writes_def Let_def split: if_splits)

lemma pod_usage_written:
  assumes "\<not> no_metrics p" and "cr_podUsage cr"
  shows "(PodVec podGaugeVec, pod_labels (ps_Namespace p) (ps_Name p) m, fig_usedBytes (ps_EphemeralStorage p))
    \<in> set (summary_pod_writes n cr table m p)"
  using assms by (auto simp: summary_pod_writes_def tag_writes_def pod_writes_def Let_def)

lemma read_float_zero: "f64_eq (read_float n) (Fin 0) \<longleftrightarrow> n = 0"
proof (cases "n = 0")
  case False
  have "rnd_mag 1 = 1" using rnd_mag_of_int [of 1] by simp
  moreover have "rnd_mag 1 \<le> rnd_mag (of_nat n)" by (rule rnd_mag_mono) (use False in simp)
  ultimately show ?thesis using False by (simp add: read_float_def f64_eq_def is_zero_def)
qed (simp add: read_float_def f64_eq_def is_zero_def)

lemma read_float_exact: "n \<le> 2 ^ 53 \<Longrightarrow> read_float n = Fin (of_nat n)"
  using rnd_mag_of_int [of "int n"] by (simp add: read_float_def)

lemma pod_summary_metrics:
  assumes "kp_namespace p \<noteq> ''''" and "0 < k_used (kp_ephemeral p)" shows "\<not> no_metrics (pod_summary p)"
  using assms by (simp add: no_metrics_def pod_summary_def read_float_zero Let_def)

text \<open>C4: from the kubelet's bytes to the gauge: after a scrape whose answer is a kubelet's summary,
  a pod of it that has a namespace and uses storage, and whose name and namespace no other listed pod
  has, shows its used bytes as the summary states them, exactly up to \<open>2 ^ 53\<close>.\<close>

theorem kubelet_figures_reach_gauges:
  assumes "prometheus P" and "packages_ready P n pk" and "range_order ord"
    and "retry (query_policy n) (\<lambda>i. query_operation n nodeName (attempts i)) = Some (Inr (render (stats_json node ps)))"
    and "plain node" and "list_all (pod_doc_ok (2 ^ 63)) ps" and "cr_podUsage cr"
    and p: "p \<in> set ps" "kp_namespace p \<noteq> ''''" "0 < k_used (kp_ephemeral p)"
    and alone: "\<forall>q \<in> set ps. kp_name q = kp_name p \<and> kp_namespace q = kp_namespace p \<longrightarrow> q = p"
  shows "\<exists>pk'. setMetrics P S retry ord decode_summary n cr mill nodeName attempts elapsed pk = Some pk' \<and>
    exported P pk' (PodVec podGaugeVec) (pod_labels (kp_namespace p) (kp_name p) nodeName) =
      Some (read_float (k_used (kp_ephemeral p))) \<and>
    (k_used (kp_ephemeral p) \<le> 2 ^ 53 \<longrightarrow>
      read_float (k_used (kp_ephemeral p)) = Fin (of_nat (k_used (kp_ephemeral p))))"
proof -
  have answer: "query_answer retry n nodeName attempts = Some (Inr (render (stats_json node ps)))"
    using assms(4) by (simp add: query_answer_def)
  let ?ws = "summary_writes n cr (lookup (pods pk)) nodeName (map pod_summary ps) @ polling_writes n nodeName mill elapsed"
  let ?ls = "pod_labels (kp_namespace p) (kp_name p) nodeName" and ?x = "read_float (k_used (kp_ephemeral p))"
  obtain pk' where pk': "setMetrics P S retry ord decode_summary n cr mill nodeName attempts elapsed pk = Some pk'"
      "exported P pk' = after_writes ?ws (dropped (stale_series
        (node_stale pk nodeName \<lparr>sm_NodeName = node, sm_Pods = map pod_summary ps\<rparr>)) (exported P pk))"
    using prometheus.setMetrics_scraped [where decode = decode_summary, OF assms(1-3) answer decode_stats [OF assms(5,6)],
        of S cr mill elapsed] by auto
  have fields: "ps_Name (pod_summary q) = kp_name q" "ps_Namespace (pod_summary q) = kp_namespace q"
      "fig_usedBytes (ps_EphemeralStorage (pod_summary q)) = read_float (k_used (kp_ephemeral q))" for q
    by (simp_all add: pod_summary_def Let_def)
  have "last_write ?ws (PodVec podGaugeVec) ?ls = Some ?x"
  proof (rule last_write_unique)
    show "(PodVec podGaugeVec, ?ls, ?x) \<in> set ?ws"
      using pod_usage_written [OF pod_summary_metrics [OF p(2,3)] assms(7), of nodeName n "lookup (pods pk)"] p(1)
      by (auto simp: summary_writes_def fields)
    fix y assume "(PodVec podGaugeVec, ?ls, y) \<in> set ?ws"
    then obtain q where q: "q \<in> set ps"
        "(PodVec podGaugeVec, ?ls, y) \<in> set (summary_pod_writes n cr (lookup (pods pk)) nodeName (pod_summary q))"
      by (auto simp: summary_writes_def polling_writes_def split: if_splits)
    then show "y = ?x"
      using pod_usage_write [OF q(2)] alone by (auto simp: fields pod_labels_inject)
  qed
  then have "exported P pk' (PodVec podGaugeVec) ?ls = Some ?x"
    unfolding pk'(2) by (simp add: after_writes_def)
  then show ?thesis using pk'(1) read_float_exact by blast
qed

lemma kubelet_figures_reach_gauges_witness:
  "\<exists>pk'. setMetrics mem_prom list_set (\<lambda>b run. Some (run 0)) sorted_keys decode_summary
     (node_config daemon_env (scrape_interval daemon_env)) (collector_config daemon_env (scrape_interval daemon_env)) 15000
     ''node-a'' (answering (render (stats_json ''node-a'' [demo_doc 77]))) 0 (pkgs (snd (booted daemon_env))) = Some pk' \<and>
   exported mem_prom pk' (PodVec podGaugeVec) (pod_labels ''default'' ''web'' ''node-a'') = Some (Fin 4096)"
proof -
  let ?n = "node_config daemon_env (scrape_interval daemon_env)" and ?cr = "collector_config daemon_env (scrape_interval daemon_env)"
  let ?doc = "render (stats_json ''node-a'' [demo_doc 77])" and ?p = "demo_doc 77"
  have p: "kp_namespace ?p = ''default''" "kp_name ?p = ''web''" "k_used (kp_ephemeral ?p) = 4096"
    by (simp_all add: demo_doc_def demo_fs_def)
  have ok: "plain ''node-a''" "list_all (pod_doc_ok (2 ^ 63)) [?p]"
    using demo_doc_ok [of 77 "2 ^ 63"] by (simp_all add: plain_def)
  have query: "(\<lambda>b run. Some (run 0)) (query_policy ?n) (\<lambda>i. query_operation ?n ''node-a'' (answering ?doc i)) = Some (Inr ?doc)"
    by (simp add: query_operation_def answering_def node_config_def daemon_env_def env_bool_unset)
  have usage: "cr_podUsage ?cr"
    by (simp add: collector_config_def env_bool_def daemon_env_def GetEnv_def parse_bool_def ParseBool_def)
  show ?thesis
    using kubelet_figures_reach_gauges [where retry = "\<lambda>b run. Some (run 0)" and attempts = "answering ?doc" and p = ?p
        and S = list_set and mill = 15000 and elapsed = 0,
        OF mem_prom_prometheus booted_boot(3) [OF env_ok_demo(2)] range_order_sorted_keys query ok usage]
    by (simp add: p) (metis of_nat_numeral)
qed

end
