(* ===== verification/ClientSetup.thy ===== *)
theory ClientSetup
  imports ScrapeSpec
begin

text \<open>
  The clients of \<open>pkg/dev/util.go\<close> (\<open>SetLogger\<close>, \<open>SetK8sClient\<close>, \<open>setScrapeFromKubelet\<close>)
  and the start-up sequence of \<open>main\<close>.  The functions of client-go and zerolog are the
  fields of \<open>client_lib\<close>; of \<open>rest.Config\<close> the record has the fields the code writes, and the
  rest of it as one component.  \<open>strconv.ParseFloat(s, 32)\<close> is a field as well, since the
  float32 it yields is only stored.
\<close>

section \<open>Clients\<close>

record ('f, 'x) rest_config =
  UserAgent :: string
  Insecure :: bool
  CAFile :: string
  CAData :: string
  QPS :: 'f
  Burst :: int64
  other_settings :: 'x

record ('f, 'x, 'h, 'c, 'l) client_lib =
  BuildConfigFromFlags :: "string \<Rightarrow> string + ('f, 'x) rest_config"
  InClusterConfig :: "string + ('f, 'x) rest_config"
  AnonymousClientConfig :: "('f, 'x) rest_config \<Rightarrow> ('f, 'x) rest_config"
  HTTPClientFor :: "('f, 'x) rest_config \<Rightarrow> string + 'h"
  NewForConfig :: "('f, 'x) rest_config \<Rightarrow> string + 'c"
  ParseFloat32 :: "string \<Rightarrow> 'f option"
  ParseLevel :: "string \<Rightarrow> string + 'l"

text \<open>\<open>Clientset\<close>, \<open>ClientRaw\<close> and \<open>ClientAno\<close>; an HTTP client that was never made is nil.\<close>

record ('h, 'c) clients =
  Clientset :: 'c
  ClientRaw :: "'h option"
  ClientAno :: "'h option"

text \<open>\<open>newConfig\<close>: the copy the authenticated client is made from.\<close>

definition raw_config :: "environment \<Rightarrow> ('f, 'x) rest_config \<Rightarrow> ('f, 'x) rest_config" where
  "raw_config env config =
     (if env_bool env ''SCRAPE_FROM_KUBELET_TLS_INSECURE_SKIP_VERIFY''
      then config\<lparr>Insecure := True, CAFile := '''', CAData := ''''\<rparr> else config)"

definition setScrapeFromKubelet ::
  "('f, 'x, 'h, 'c, 'l) client_lib \<Rightarrow> environment \<Rightarrow> ('f, 'x) rest_config \<Rightarrow> stop + 'h \<times> 'h" where
  "setScrapeFromKubelet L env config =
     (case HTTPClientFor L (raw_config env config) of
        Inl err \<Rightarrow> Inl Panic
      | Inr raw \<Rightarrow>
          (case HTTPClientFor L (AnonymousClientConfig L config) of
             Inl err \<Rightarrow> Inl Panic
           | Inr ano \<Rightarrow> Inr (raw, ano)))"

text \<open>\<open>Atoi\<close> with its error; \<open>QPS\<close> and \<open>Burst\<close> keep what the configuration has when the setting
  does not parse.\<close>

definition Atoi :: "string \<Rightarrow> int64 option" where
  "Atoi s =
     (let neg = (s \<noteq> [] \<and> hd s = CHR ''-'');
          body = (if s \<noteq> [] \<and> (hd s = CHR ''-'' \<or> hd s = CHR ''+'') then tl s else s)
      in case parse_uint body of
           Value n \<Rightarrow>
             if n < 2 ^ 63 \<or> neg \<and> n = 2 ^ 63 then Some (word_of_int (if neg then - int n else int n)) else None
         | _ \<Rightarrow> None)"

definition client_rates ::
  "('f, 'x, 'h, 'c, 'l) client_lib \<Rightarrow> environment \<Rightarrow> ('f, 'x) rest_config \<Rightarrow> ('f, 'x) rest_config" where
  "client_rates L env config =
     (let config = (case ParseFloat32 L (GetEnv env ''CLIENT_GO_QPS'' ''5'') of
                      Some qps \<Rightarrow> config\<lparr>QPS := qps\<rparr> | None \<Rightarrow> config)
      in case Atoi (GetEnv env ''CLIENT_GO_BURST'' ''10'') of
           Some burst \<Rightarrow> config\<lparr>Burst := burst\<rparr> | None \<Rightarrow> config)"

definition SetK8sClient ::
  "('f, 'x, 'h, 'c, 'l) client_lib \<Rightarrow> environment \<Rightarrow> stop + ('h, 'c) clients" where
  "SetK8sClient L env =
     (case getK8sConfig env (BuildConfigFromFlags L) (InClusterConfig L) of
        Inl err \<Rightarrow> Inl Panic
      | Inr config \<Rightarrow>
          (let config = config\<lparr>UserAgent := ''k8s-ephemeral-storage-metrics''\<rparr>;
               http = (if env_bool env ''SCRAPE_FROM_KUBELET''
                       then map_sum id (\<lambda>(raw, ano). (Some raw, Some ano)) (setScrapeFromKubelet L env config)
                       else Inr (None, None))
           in case http of
                Inl e \<Rightarrow> Inl e
              | Inr (raw, ano) \<Rightarrow>
                  (case NewForConfig L (client_rates L env config) of
                     Inl err \<Rightarrow> Inl Panic
                   | Inr cs \<Rightarrow> Inr \<lparr>Clientset = cs, ClientRaw = raw, ClientAno = ano\<rparr>)))"

definition SetLogger :: "('f, 'x, 'h, 'c, 'l) client_lib \<Rightarrow> environment \<Rightarrow> stop + 'l" where
  "SetLogger L env =
     (case ParseLevel L (GetEnv env ''LOG_LEVEL'' ''info'') of Inl err \<Rightarrow> Inl Panic | Inr level \<Rightarrow> Inr level)"

section \<open>main\<close>

text \<open>The part of \<open>main\<close> before it starts the goroutines and the HTTP server: the logger, the
  clients, the collectors, in this order.\<close>

definition main_start ::
  "('f, 'x, 'h, 'c, 'l) client_lib \<Rightarrow> ('v, 'r) prom_api \<Rightarrow> 's set_api \<Rightarrow> environment \<Rightarrow> 'r \<Rightarrow>
    stop + ('h, 'c) clients \<times> (Node \<times> Collector) \<times> ('v, 's, 'r) process" where
  "main_start L P S env r =
     (case SetLogger L env of
        Inl e \<Rightarrow> Inl e
      | Inr level \<Rightarrow>
          (case SetK8sClient L env of
             Inl e \<Rightarrow> Inl e
           | Inr cl \<Rightarrow>
               (case boot P S env r of Inl e \<Rightarrow> Inl e | Inr started \<Rightarrow> Inr (cl, started))))"

section \<open>Facts\<close>

text \<open>\<open>atoi\<close> is \<open>Atoi\<close> where that has no error.\<close>

lemma Atoi_atoi:
  assumes "Atoi s = Some w" shows "atoi s = w"
proof -
  let ?body = "if s \<noteq> [] \<and> (hd s = CHR ''-'' \<or> hd s = CHR ''+'') then tl s else s"
  let ?neg = "s \<noteq> [] \<and> hd s = CHR ''-''"
  obtain n where n: "parse_uint ?body = Value n" "n < 2 ^ 63 \<or> ?neg \<and> n = 2 ^ 63"
      "w = word_of_int (if ?neg then - int n else int n)"
    using assms unfolding Atoi_def Let_def by (cases "parse_uint ?body") (simp_all split: if_split_asm)
  then have "\<not> (\<not> ?neg \<and> 2 ^ 63 \<le> n)" "\<not> (?neg \<and> 2 ^ 63 < n)" by linarith+
  then show ?thesis
    unfolding atoi_def parse_int_def Let_def n(1) parsed.case n(3) by (simp only: if_False)
qed

lemma client_rates_tls [simp]:
  "UserAgent (client_rates L env config) = UserAgent config"
  "Insecure (client_rates L env config) = Insecure config"
  "CAFile (client_rates L env config) = CAFile config"
  "CAData (client_rates L env config) = CAData config"
  "other_settings (client_rates L env config) = other_settings config"
  by (simp_all add: client_rates_def Let_def split: option.splits)

text \<open>What a successful \<open>SetK8sClient\<close> made its clients from.\<close>

lemma SetK8sClient_clients:
  assumes "SetK8sClient L env = Inr cl"
  shows "\<exists>config. getK8sConfig env (BuildConfigFromFlags L) (InClusterConfig L) = Inr config \<and>
    (let config' = config\<lparr>UserAgent := ''k8s-ephemeral-storage-metrics''\<rparr> in
     NewForConfig L (client_rates L env config') = Inr (Clientset cl) \<and>
     (if env_bool env ''SCRAPE_FROM_KUBELET''
      then (\<exists>raw ano. ClientRaw cl = Some raw \<and> ClientAno cl = Some ano \<and>
             HTTPClientFor L (raw_config env config') = Inr raw \<and>
             HTTPClientFor L (AnonymousClientConfig L config') = Inr ano)
      else ClientRaw cl = None \<and> ClientAno cl = None))"
proof -
  obtain config where config: "getK8sConfig env (BuildConfigFromFlags L) (InClusterConfig L) = Inr config"
    using assms by (cases "getK8sConfig env (BuildConfigFromFlags L) (InClusterConfig L)") (simp_all add: SetK8sClient_def)
  let ?c = "config\<lparr>UserAgent := ''k8s-ephemeral-storage-metrics''\<rparr>"
  note unfolded = assms [unfolded SetK8sClient_def config sum.case Let_def]
  show ?thesis
  proof (cases "env_bool env ''SCRAPE_FROM_KUBELET''")
    case True
    obtain raw ano where http: "setScrapeFromKubelet L env ?c = Inr (raw, ano)"
      using unfolded True by (cases "setScrapeFromKubelet L env ?c") auto
    have "NewForConfig L (client_rates L env ?c) = Inr (Clientset cl) \<and> ClientRaw cl = Some raw \<and> ClientAno cl = Some ano"
      using unfolded True http by (cases "NewForConfig L (client_rates L env ?c)") auto
    moreover have "HTTPClientFor L (raw_config env ?c) = Inr raw \<and> HTTPClientFor L (AnonymousClientConfig L ?c) = Inr ano"
      using http unfolding setScrapeFromKubelet_def
      by (cases "HTTPClientFor L (raw_config env ?c)"; cases "HTTPClientFor L (AnonymousClientConfig L ?c)") simp_all
    ultimately show ?thesis using config True unfolding Let_def by auto
  next
    case False
    have "NewForConfig L (client_rates L env ?c) = Inr (Clientset cl) \<and> ClientRaw cl = None \<and> ClientAno cl = None"
      using unfolded False by (cases "NewForConfig L (client_rates L env ?c)") auto
    then show ?thesis using config False unfolding Let_def by auto
  qed
qed

lemma SetK8sClient_error:
  assumes "SetK8sClient L env = Inl e" shows "e = Panic"
proof -
  have "setScrapeFromKubelet L env c = Inl d \<Longrightarrow> d = Panic" for c d
    by (cases "HTTPClientFor L (raw_config env c)"; cases "HTTPClientFor L (AnonymousClientConfig L c)")
      (simp_all add: setScrapeFromKubelet_def)
  then show ?thesis using assms unfolding SetK8sClient_def Let_def
    by (auto simp: map_sum_def split: sum.split_asm if_split_asm prod.split_asm)
qed

text \<open>The TLS settings of a configuration.\<close>

definition tls_of :: "('f, 'x) rest_config \<Rightarrow> bool \<times> string \<times> string" where
  "tls_of c = (Insecure c, CAFile c, CAData c)"

end
