(* ===== verification/DemoRun.thy ===== *)
theory DemoRun
  imports Demo
begin

text \<open>
  The concrete exporter at work: start-up, and a scrape round whose node answers.
\<close>

lemma demo_starts: "env_ok env \<Longrightarrow> starts (demo_deployment env) env [] (snd (booted env))"
  using booted_boot(1,2) [of env] demo_deployment_ok [of env]
  by (cases "booted env") (simp add: starts_def mem_prom_def)

lemma executes_nothing: "executes s w [] w"
  by (rule executes.start)

text \<open>A round of the demo: every node of the set answers with the summary of one pod.\<close>

lemma demo_query: "query_answer (retry_upto 2) n m (answering content) =
    (if \<not> scrapeFromKubelet n \<or> deployType n \<noteq> ''Deployment'' then Some (Inr content)
     else if Seconds (sampleInterval n) = 0 then None
     else Some (Inl (''kubelet endpoint not found for node: '' @ m)))"
proof -
  have "retry_upto 2 b op = None" if "MaxElapsedTime b = 0" "\<And>i. op i = Inl e" for b op e
    using bounded.goes_on_forever [of op b 2] that by simp
  moreover have "retry_upto 2 b op = Some (Inr x)" if "op 0 = Inr x" for b op x
    using bounded.first_attempt [where op = op, OF that] .
  ultimately show ?thesis
    by (simp add: query_answer_def query_operation_def answering_def query_policy_def)
      (simp add: retry_upto_def numeral_2_eq_2)
qed

lemma demo_scrape_node:
  assumes env: "env_ok env" "\<not> env_bool env ''SCRAPE_FROM_KUBELET''"
    and "packages_ready mem_prom (node_config env (scrape_interval env)) pk"
  shows "\<exists>pk'. scrape_node (demo_deployment env) (\<lambda>_. answering ''summary'') elapsed m pk = Some pk' \<and>
    exported mem_prom pk' = after_writes
      (summary_pod_writes (node_config env (scrape_interval env)) (collector_config env (scrape_interval env))
         (lookup (pods pk)) m demo_pod @
       polling_writes (node_config env (scrape_interval env)) m (sample_interval_mill env) (elapsed m))
      (dropped (stale_series (node_stale pk m demo_summary)) (exported mem_prom pk))"
proof -
  let ?n = "node_config env (scrape_interval env)"
  have q: "query_answer (retry_upto 2) ?n m (answering ''summary'') = Some (Inr ''summary'')"
    using env(2) by (simp add: demo_query node_config_def)
  have dec: "demo_decoder ''summary'' = Inr demo_summary" by (simp add: demo_decoder_def)
  show ?thesis
    using mem.setMetrics_scraped [where decode = demo_decoder, OF assms(3) range_order_sorted_keys q dec,
        of list_set "collector_config env (scrape_interval env)" "sample_interval_mill env" "elapsed m"]
    by (auto simp: scrape_node_def demo_deployment_def summary_writes_def demo_summary_def)
qed

lemma executes_reach:
  "executes s w0 as w \<Longrightarrow> can_reach s w w' \<Longrightarrow> \<exists>bs. executes s w0 bs w'"
  using executes_trans by (fastforce simp: can_reach_def)

lemma demo_pod_entry: "pod_entry float_of_int (collector_config demo_env i) demo_v1_pod = demo_entry"
proof -
  have "getContainerData float_of_int (collector_config demo_env i) demo_v1_container demo_v1_pod =
      \<lparr>ct_name = ''nginx'', ct_limit = Fin 8192, ct_emptyDirVolumes = None\<rparr>"
    by (simp add: getContainerData_def demo_collector demo_v1_container_def Let_def float_of_int_exact)
  then show ?thesis by (simp add: pod_entry_def demo_entry_def demo_v1_pod_def)
qed

text \<open>The demo Deployment, after its node was added, its pod listed and the initial wait ended.\<close>

definition demo_listed :: "(mem_vec, string list) world" where
  "demo_listed = (let w = demo_world demo_env; pk = packs w in
     w\<lparr>packs := pk\<lparr>nodes := node_ready list_set (node_config demo_env (scrape_interval demo_env)) demo_node (nodes pk),
       pods := getPodData float_of_int (collector_config demo_env (scrape_interval demo_env)) demo_v1_pod (pods pk)\<rparr>,
       scrape_loop := Looping (Some (Some 10)), listing := False\<rparr>)"

abbreviation demo_prelude :: "int action list" where
  "demo_prelude \<equiv> [NodeAdded (Typed demo_node), PodListed demo_v1_pod, ListDone, InitDone]"

lemma demo_world_fields:
  "pending (demo_world env) = []" "workers (demo_world env) = []" "scrape_loop (demo_world env) = Waiting"
  by (simp_all add: demo_world_def started_def)

lemma demo_world_listing:
  assumes "env_ok env"
  shows "listing (demo_world env) \<longleftrightarrow> watches_pods (collector_config env (scrape_interval env))"
  using startsD(12) [OF demo_starts [OF assms]] by (simp add: demo_world_def)

lemma demo_listed_reached:
  "executes (demo_deployment demo_env) (demo_world demo_env) demo_prelude demo_listed"
proof -
  let ?s = "demo_deployment demo_env" and ?w = "demo_world demo_env"
  have watch: "StartWatch (node_cfg ?s)" "listing ?w"
    by (simp_all add: demo_world_listing [OF env_ok_demo(1)] watches_pods_def demo_collector)
      (simp add: StartWatch_def node_config_def GetEnv_def demo_env_def)
  obtain w1 where w1: "perform ?s (NodeAdded (Typed demo_node)) ?w = Some w1"
      "w1 = ?w\<lparr>packs := (packs ?w)\<lparr>nodes := node_ready list_set (node_config demo_env (scrape_interval demo_env)) demo_node (nodes (packs ?w))\<rparr>\<rparr>"
    by (simp add: Watch_AddFunc_def)
  obtain w2 where w2: "perform ?s (PodListed demo_v1_pod) w1 = Some w2" "listing w2"
      "perform ?s ListDone w2 = Some (w2\<lparr>listing := False\<rparr>)" "scrape_loop w2 = Waiting"
      "perform ?s InitDone (w2\<lparr>listing := False\<rparr>) = Some demo_listed"
    by (simp add: w1(2) demo_listed_def Let_def demo_pool demo_world_fields watch(2))
  have "executes ?s ?w [NodeAdded (Typed demo_node)] w1"
    using executes_one [OF _ w1(1)] watch(1) by simp
  from executes.act [OF this _ w2(1)]
  have "executes ?s ?w [NodeAdded (Typed demo_node), PodListed demo_v1_pod] w2" by (simp add: w1(2) watch(2))
  from executes.act [OF this _ w2(3)]
  have "executes ?s ?w [NodeAdded (Typed demo_node), PodListed demo_v1_pod, ListDone] (w2\<lparr>listing := False\<rparr>)"
    by (simp add: w2(2))
  from executes.act [OF this _ w2(5)] show ?thesis by (simp add: w2(4))
qed

lemma demo_listed_fields:
  "pending demo_listed = []" "workers demo_listed = []"
  "scrape_loop demo_listed = Looping (Some (Some 10))"
  "to_slice list_set (node_set (nodes (packs demo_listed))) = [''node-a'']"
  "lookup (pods (packs demo_listed)) ''web'' =
    Some demo_entry"
  "world_ready (demo_deployment demo_env) demo_listed"
proof -
  have "node_set (nodes (packs (demo_world demo_env))) = []"
    using booted_boot(5) [OF env_ok_demo(1)]
    by (simp add: demo_world_def started_def DeployAsDaemonSet_def demo_env_def)
  then show "to_slice list_set (node_set (nodes (packs demo_listed))) = [''node-a'']"
    by (simp add: demo_listed_def Let_def node_ready_def demo_node_def list_set_def)
  show "pending demo_listed = []" "workers demo_listed = []" "scrape_loop demo_listed = Looping (Some (Some 10))"
    by (simp_all add: demo_listed_def Let_def demo_world_fields)
  show "lookup (pods (packs demo_listed)) ''web'' =
    Some demo_entry"
    using demo_pod_entry [of "scrape_interval demo_env"]
    by (simp add: demo_listed_def Let_def) (simp add: demo_v1_pod_def)
  show "world_ready (demo_deployment demo_env) demo_listed"
    using executes_ready [OF demo_listed_reached demo_deployment_ok demo_world_ready [OF env_ok_demo(1)]] ..
qed

lemma demo_summary_writes:
  assumes "table ''web'' = Some demo_entry"
  shows "summary_pod_writes n (collector_config demo_env i) table ''node-a'' demo_pod =
    tag_writes NodeVec (node_writes n ''node-a'' (Fin 8192) (Fin 16384)) @
    tag_writes PodVec
    [(containerPercentageLimitsVec,
      (container_labels ''default'' ''web'' ''node-a'' ''nginx'')(''source'' \<mapsto> ''container''),
      math_Min (Fin 4096 * bibyte_factor / Fin 8192 * Fin 100) (Fin 100)),
     (podGaugeVec, pod_labels ''default'' ''web'' ''node-a'', Fin 4096)]"
proof -
  have "\<not> no_metrics demo_pod" by (simp add: no_metrics_def demo_pod_def f64_eq_def)
  then show ?thesis using assms
    by (simp add: summary_pod_writes_def demo_pod_def pod_writes_def demo_collector
        result_containers_def demo_entry_def container_limit_write_def f64_eq_def
        container_limit_percentage_def)
qed

text \<open>A round from there shows the pod's usage, the node's figures and the container's limit
  percentage.\<close>

lemma demo_round:
  "\<exists>as w. executes (demo_deployment demo_env) (demo_world demo_env) as w \<and>
    series (demo_deployment demo_env) w (PodVec podGaugeVec) (pod_labels ''default'' ''web'' ''node-a'') = Some (Fin 4096) \<and>
    (\<exists>x. series (demo_deployment demo_env) w (PodVec containerPercentageLimitsVec)
      ((container_labels ''default'' ''web'' ''node-a'' ''nginx'')(''source'' \<mapsto> ''container'')) = Some x)"
proof -
  let ?s = "demo_deployment demo_env"
  obtain pk where pk: "scrape_node ?s (\<lambda>_. answering ''summary'') (\<lambda>_. 0) ''node-a'' (packs demo_listed) = Some pk"
      "exported mem_prom pk = after_writes
      (summary_pod_writes (node_config demo_env (scrape_interval demo_env)) (collector_config demo_env (scrape_interval demo_env))
         (lookup (pods (packs demo_listed))) ''node-a'' demo_pod @
       polling_writes (node_config demo_env (scrape_interval demo_env)) ''node-a'' (sample_interval_mill demo_env) 0)
      (dropped (stale_series (node_stale (packs demo_listed) ''node-a'' demo_summary)) (exported mem_prom (packs demo_listed)))"
    using demo_scrape_node [OF env_ok_demo(1) _ demo_listed_fields(6) [unfolded demo_deployment_def, simplified],
        of "\<lambda>_. 0" "''node-a''"]
    by (auto simp: env_bool_def GetEnv_def demo_env_def parse_bool_def ParseBool_def)
  have "for_each (scrape_node ?s (\<lambda>_. answering ''summary'') (\<lambda>_. 0))
      (to_slice (sets ?s) (node_set (nodes (packs demo_listed)))) (packs demo_listed) = Some pk"
    using pk(1) demo_listed_fields(4) by simp
  from round_sequential [OF this demo_listed_fields(3) _ demo_listed_fields(1,2)]
  have "can_reach ?s demo_listed (demo_listed\<lparr>packs := pk\<rparr>)" by (simp add: pool_free_def)
  then obtain as where "executes ?s (demo_world demo_env) as (demo_listed\<lparr>packs := pk\<rparr>)"
    using executes_reach [OF demo_listed_reached] by blast
  moreover have "exported mem_prom pk (PodVec podGaugeVec) (pod_labels ''default'' ''web'' ''node-a'') = Some (Fin 4096)"
    using demo_listed_fields(5)
    by (simp add: pk(2) after_writes_def last_write_append polling_writes_def demo_summary_writes)
  moreover have "\<exists>x. exported mem_prom pk (PodVec containerPercentageLimitsVec)
      ((container_labels ''default'' ''web'' ''node-a'' ''nginx'')(''source'' \<mapsto> ''container'')) = Some x"
    using demo_listed_fields(5)
    by (simp add: pk(2) after_writes_def last_write_append polling_writes_def demo_summary_writes)
  ultimately show ?thesis
    by (intro exI [of _ as] exI [of _ "demo_listed\<lparr>packs := pk\<rparr>"] conjI) simp_all
qed

text \<open>A DaemonSet on \<open>node-a\<close> that watches no pods hands its node to a worker.\<close>

lemma daemonset_fetching:
  assumes env: "env_ok env" "DeployAsDaemonSet env" "CurrentNodeName env = ''node-a''"
    and "\<not> watches_pods (collector_config env (scrape_interval env))"
    and pool: "pool_of (demo_deployment env) = Some (Some 10)"
  shows "executes (demo_deployment env) (demo_world env) [InitDone, StartRound, Invoke]
    ((demo_world env)\<lparr>scrape_loop := Looping (Some (Some 10)), workers := [Fetching ''node-a'']\<rparr>)"
proof -
  let ?s = "demo_deployment env" and ?w = "demo_world env"
  have set: "node_set (nodes (packs ?w)) = [''node-a'']"
    using booted_boot(5) [OF env(1)] env(2,3) by (simp add: demo_world_def started_def)
  note w = demo_world_fields [of env]
  have idle: "\<not> listing ?w" using assms(4) demo_world_listing [OF env(1)] by simp
  let ?idle = "?w\<lparr>scrape_loop := Looping (Some (Some 10))\<rparr>"
  let ?w1 = "?idle\<lparr>pending := [''node-a'']\<rparr>" and ?w2 = "?idle\<lparr>workers := [Fetching ''node-a'']\<rparr>"
  have "perform ?s InitDone ?w = Some ?idle" by (simp add: pool)
  from executes_one [OF _ this] have 0: "executes ?s ?w [InitDone] ?idle" by (simp add: w idle)
  have "perform ?s StartRound ?idle = Some ?w1" by (simp add: set list_set_def)
  from executes.act [OF 0 _ this] have 1: "executes ?s ?w [InitDone, StartRound] ?w1" by (simp add: w)
  have "?w2 = ?w1\<lparr>pending := [], workers := [Fetching ''node-a'']\<rparr>"
    by (intro world.equality) (simp_all add: w)
  then have "perform ?s Invoke ?w1 = Some ?w2" by (simp add: w)
  from executes.act [OF 1 _ this] show ?thesis by (simp add: w pool_free_def)
qed

lemma daemon_env_fields:
  "DeployAsDaemonSet daemon_env" "CurrentNodeName daemon_env = ''node-a''"
  "\<not> watches_pods (collector_config daemon_env i)"
  by (simp_all add: DeployAsDaemonSet_def CurrentNodeName_def watches_pods_def collector_config_def env_bool_def
      parse_bool_def ParseBool_def daemon_env_def GetEnv_def)

text \<open>One failed query empties the node set of the demo DaemonSet.\<close>

lemma failed_scrape_empties_daemonset:
  "\<exists>w. executes (demo_deployment daemon_env) (demo_world daemon_env) [InitDone, StartRound, Invoke, Work 0 failing 0] w \<and>
    to_slice list_set (node_set (nodes (packs w))) = [] \<and> pending w = [] \<and> workers w = []"
proof -
  let ?s = "demo_deployment daemon_env" and ?w = "demo_world daemon_env"
  let ?w2 = "?w\<lparr>scrape_loop := Looping (Some (Some 10)), workers := [Fetching ''node-a'']\<rparr>"
  have set: "node_set (nodes (packs ?w)) = [''node-a'']"
    using booted_boot(5) [OF env_ok_demo(2)] daemon_env_fields by (simp add: demo_world_def started_def)
  note w = demo_world_fields [of daemon_env]
  have 2: "executes ?s ?w [InitDone, StartRound, Invoke] ?w2"
    by (rule daemonset_fetching) (simp_all add: daemon_env_fields demo_pool)
  have ready: "world_ready ?s ?w" by (rule demo_world_ready) simp
  have q: "query_answer (retry_upto 2) (node_config daemon_env (scrape_interval daemon_env)) ''node-a'' failing = Some (Inl ''timeout'')"
    using demo_limit [of daemon_env]
    by (simp add: query_answer_def query_policy_def retry_upto_def query_operation_def node_config_def
        failing_def numeral_2_eq_2) (simp add: daemon_env_def)
  from mem.Query_failed [OF ready [simplified] q, of list_set] obtain pk where
    pk: "Query mem_prom list_set (retry_upto 2) (node_config daemon_env (scrape_interval daemon_env)) ''node-a''
        failing (packs ?w) = Some (Inl ''timeout'', pk)"
      "node_set (nodes pk) = set_remove list_set ''node-a'' (node_set (nodes (packs ?w)))"
    by blast
  have "perform ?s (Work 0 failing 0) ?w2 = Some (?w2\<lparr>packs := pk, workers := []\<rparr>)"
    using pk(1) by (simp add: next_workers_def)
  from executes.act [OF 2 _ this]
  have "executes ?s ?w [InitDone, StartRound, Invoke, Work 0 failing 0] (?w2\<lparr>packs := pk, workers := []\<rparr>)" by (simp add: q)
  then show ?thesis
    using pk(2) set w by (intro exI [of _ "?w2\<lparr>packs := pk, workers := []\<rparr>"]) (simp add: list_set_def)
qed

text \<open>A schedule of the demo Deployment whose worker is about to set the pod of its node.\<close>

lemma demo_setting:
  "\<exists>as w. executes (demo_deployment demo_env) (demo_world demo_env) as w \<and>
    workers w = [Setting ''node-a'' [demo_pod]] \<and> pending w = []"
proof -
  let ?s = "demo_deployment demo_env" and ?w = demo_listed
  note f = demo_listed_fields
  let ?w1 = "?w\<lparr>pending := [''node-a'']\<rparr>" and ?w2 = "?w\<lparr>workers := [Fetching ''node-a'']\<rparr>"
  have "perform ?s StartRound ?w = Some ?w1" by (simp add: f(4))
  from executes.act [OF demo_listed_reached _ this]
  have 1: "executes ?s (demo_world demo_env) (demo_prelude @ [StartRound]) ?w1"
    by (simp add: f(1,3))
  have "?w2 = ?w1\<lparr>pending := [], workers := [Fetching ''node-a'']\<rparr>"
    by (intro world.equality) (simp_all add: f(1))
  then have "perform ?s Invoke ?w1 = Some ?w2" by (simp add: f(2,3))
  moreover have "enabled ?s Invoke ?w1" by (simp add: f(2,3) pool_free_def)
  ultimately obtain as where 2: "executes ?s (demo_world demo_env) as ?w2"
    using executes.act [OF 1] by blast
  have q: "query_answer (retry_upto 2) (node_cfg ?s) ''node-a'' (answering ''summary'') = Some (Inr ''summary'')"
    by (simp add: demo_query node_config_def env_bool_def GetEnv_def demo_env_def parse_bool_def ParseBool_def)
  have "perform ?s (Work 0 (answering ''summary'') 0) ?w2 = Some (?w\<lparr>workers := [Evicting ''node-a'' demo_summary]\<rparr>)"
    using q by (simp add: Query_def query_answer_def demo_decoder_def next_workers_def)
  from executes.act [OF 2 _ this]
  obtain bs where 3: "executes ?s (demo_world demo_env) bs (?w\<lparr>workers := [Evicting ''node-a'' demo_summary]\<rparr>)"
    using q by auto
  obtain ps where "EvictStalePods mem_prom sorted_keys ''node-a'' (listed_pods demo_summary) (pods (packs ?w)) = Some ps"
    using mem.evict_stale_ok [OF f(6) [simplified] range_order_sorted_keys, of "''node-a''" demo_summary] by blast
  then have "perform ?s (Work 0 failing 0) (?w\<lparr>workers := [Evicting ''node-a'' demo_summary]\<rparr>) =
      Some (?w\<lparr>packs := (packs ?w)\<lparr>pods := ps\<rparr>, workers := [Setting ''node-a'' [demo_pod]]\<rparr>)"
    by (simp add: next_workers_def) (simp add: demo_summary_def)
  from executes.act [OF 3 _ this]
  have "executes ?s (demo_world demo_env) (bs @ [Work 0 failing 0])
      (?w\<lparr>packs := (packs ?w)\<lparr>pods := ps\<rparr>, workers := [Setting ''node-a'' [demo_pod]]\<rparr>)" by simp
  then show ?thesis by (intro exI conjI) (assumption, simp_all add: f(1))
qed

end
