(* ===== verification/StartProperties.thy ===== *)
theory StartProperties
  imports ClientSetup DemoRun
begin

text \<open>
  The properties of start-up: what \<open>main\<close> sets up before its goroutines run, in which
  configurations it stops, why \<open>startCollectors\<close> starts the node watch last, and which TLS
  settings the clients get.
\<close>

section \<open>Start-up\<close>

text \<open>C15: in an environment with a known deploy type (and, for a DaemonSet, a node name) and on a
  registry without the exporter's metric names, start-up registers all vectors without a panic and
  leaves: no series, no counters, an empty lookup table, the configured tolerance, the own node
  in the set in DaemonSet mode and an empty set otherwise, the node watch in Deployment mode only,
  and the pod watch exactly if a limit percentage is enabled.\<close>

theorem start_up_state:
  assumes "prometheus P" and "env_ok env"
    and "registered_names P r \<inter> (pod_metric_names \<union> node_metric_names) = {}"
  shows "\<exists>n cr st. boot P S env r = Inr ((n, cr), st) \<and> packages_ready P n (pkgs st) \<and>
    (\<forall>k ls. exported P (pkgs st) k ls = None) \<and>
    nodeTrackers (pods (pkgs st)) = Map.empty \<and> lookup (pods (pkgs st)) = Map.empty \<and>
    scrapeMissTolerance (pods (pkgs st)) = miss_tolerance env \<and>
    node_set (nodes (pkgs st)) =
      (if DeployAsDaemonSet env then set_add S (CurrentNodeName env) (new_set S) else new_set S) \<and>
    (node_watch st \<longleftrightarrow> \<not> DeployAsDaemonSet env) \<and>
    (pod_watch st \<longleftrightarrow> cr_containerLimitsPercentage cr \<or> cr_containerVolumeLimitsPercentage cr)"
  using prometheus.boot_ok [OF assms, of S] by (auto simp: collector_config_def)

lemma start_up_state_witness:
  "\<exists>n cr st. boot mem_prom list_set daemon_env [] = Inr ((n, cr), st) \<and> \<not> node_watch st \<and>
    node_set (nodes (pkgs st)) = [''node-a'']"
proof -
  have fresh: "registered_names mem_prom [] \<inter> (pod_metric_names \<union> node_metric_names) = {}"
    by (simp add: mem_prom_def)
  show ?thesis
    using start_up_state [OF mem_prom_prometheus env_ok_demo(2) fresh, of list_set]
    by (auto simp: DeployAsDaemonSet_def CurrentNodeName_def daemon_env_def list_set_def)
qed

text \<open>C29: the order of \<open>startCollectors\<close> matters: with the node collector alone, a node delete event
  panics on the pod package's nil vectors; once \<open>startCollectors\<close> has returned, it does not.\<close>

theorem node_watch_needs_pod_collector:
  assumes "starts s env r st"
    and "defaultNewNode (prom s) (sets s) env (scrape_interval env)
      \<lparr>pkgs = zero_packages (sets s), registry = r, node_watch = False, pod_watch = False\<rparr> = Inr (n, st1)"
  shows "Watch_DeleteFunc (prom s) (sets s) n (Typed p) (pkgs st1) = None \<and>
    Watch_DeleteFunc (prom s) (sets s) n (Typed p) (pkgs st) \<noteq> None"
proof -
  note d = startsD [OF assms(1)]
  have n: "n = node_cfg s" and g: "gauges (pods (pkgs st1)) = (\<lambda>_. None)"
    using assms(2) by (auto simp: defaultNewNode_def node_NewCollector_def Let_def d(2) zero_packages_def
        split: if_splits option.splits sum.splits prod.splits)
  have "packages_ready (prom s) (node_cfg s) (pkgs st)" using d(4) by (simp add: started_def)
  from prometheus.Watch_DeleteFunc_ok [OF deployment_okD(1) [OF d(1)] this, of "sets s" "Typed p"]
  have "Watch_DeleteFunc (prom s) (sets s) n (Typed p) (pkgs st) \<noteq> None" by (auto simp: n)
  then show ?thesis
    using evict_before_pods [OF g, where P = "prom s" and S = "sets s" and n = n and node = "n_Name p"]
    by (simp add: Watch_DeleteFunc_def)
qed

lemma node_watch_needs_pod_collector_witness:
  "\<exists>n st1. defaultNewNode mem_prom list_set demo_env (scrape_interval demo_env)
      \<lparr>pkgs = zero_packages list_set, registry = [], node_watch = False, pod_watch = False\<rparr> = Inr (n, st1) \<and>
    Watch_DeleteFunc mem_prom list_set n (Typed demo_node) (pkgs st1) = None"
proof -
  let ?z = "\<lparr>pkgs = zero_packages list_set, registry = [], node_watch = False, pod_watch = False\<rparr>"
  have "\<exists>n st1. defaultNewNode mem_prom list_set demo_env (scrape_interval demo_env) ?z = Inr (n, st1)"
  proof (cases "defaultNewNode mem_prom list_set demo_env (scrape_interval demo_env) ?z")
    case (Inl e)
    then have "boot mem_prom list_set demo_env [] = Inl e" by (simp add: boot_def startCollectors_def)
    then show ?thesis using booted_boot(1) [OF env_ok_demo(1)] by simp
  qed auto
  then obtain n st1 where 1: "defaultNewNode mem_prom list_set demo_env (scrape_interval demo_env) ?z = Inr (n, st1)"
    by blast
  then show ?thesis
    using node_watch_needs_pod_collector [OF demo_starts [OF env_ok_demo(1)], of n st1 demo_node] by simp
qed

section \<open>The clients\<close>

lemma boot_rejects:
  assumes "prometheus P" and "registered_names P r \<inter> (pod_metric_names \<union> node_metric_names) = {}"
    and "\<not> env_ok env"
  shows "boot P S env r = Inl (Exit 1)"
proof (cases "GetEnv env ''DEPLOY_TYPE'' ''DaemonSet'' \<in> {''Deployment'', ''DaemonSet''}")
  case False
  then show ?thesis
    by (simp add: boot_def startCollectors_def defaultNewNode_def node_NewCollector_def node_config_def Let_def)
next
  case True
  let ?z = "zero_packages S :: ('a, 'c) packages"
  have ds: "DeployAsDaemonSet env" "CurrentNodeName env = ''''" using assms(3) True by (auto simp: env_ok_def)
  have fresh: "node_metric_names \<inter> registered_names P r = {}" using assms(2) by auto
  have nil: "node_gauges (nodes ?z) AdjustedPollingRateGaugeVec = None" by (simp add: zero_packages_def)
  obtain ns r' where "node_NewCollector P S env (scrape_interval env) (nodes ?z, r) =
      Inr (node_config env (scrape_interval env), ns, r')"
    using prometheus.node_NewCollector_ok [OF assms(1) fresh nil True, of S "scrape_interval env"] by blast
  then show ?thesis
    using ds by (simp add: boot_def startCollectors_def defaultNewNode_def defaultNewPod_def NewCollector_def
        collector_config_def Let_def)
qed


definition demo_rest :: "(nat, unit) rest_config" where
  "demo_rest = \<lparr>UserAgent = '''', Insecure = False, CAFile = ''/var/run/ca.crt'', CAData = '''', QPS = 5, Burst = 10,
     other_settings = ()\<rparr>"

definition demo_lib :: "(nat, unit, bool, unit, string) client_lib" where
  "demo_lib = \<lparr>BuildConfigFromFlags = (\<lambda>_. Inl ''no such file''), InClusterConfig = Inr demo_rest,
     AnonymousClientConfig = id, HTTPClientFor = (\<lambda>c. Inr (Insecure c)), NewForConfig = (\<lambda>_. Inr ()),
     ParseFloat32 = (\<lambda>s. if s = ''5'' then Some 5 else None), ParseLevel = Inr\<rparr>"

lemma demo_lib_clients:
  assumes "env ''KUBECONFIG'' = None" shows "\<exists>cl. SetK8sClient demo_lib env = Inr cl"
  using assms by (simp add: SetK8sClient_def setScrapeFromKubelet_def getK8sConfig_cases demo_lib_def Let_def)

text \<open>C30: \<open>main\<close> gets as far as its goroutines exactly in a valid configuration: an unknown log level or
  a client that cannot be made is a panic, and only then are the collectors' settings looked at, whose
  rejection is exit status 1.\<close>

theorem main_start_outcome:
  assumes "prometheus P" and "registered_names P r \<inter> (pod_metric_names \<union> node_metric_names) = {}"
  shows "(main_start L P S env r = Inl Panic \<longleftrightarrow>
      (\<exists>e. SetLogger L env = Inl e) \<or> (\<exists>e. SetK8sClient L env = Inl e)) \<and>
    (main_start L P S env r = Inl (Exit 1) \<longleftrightarrow>
      (\<exists>l cl. SetLogger L env = Inr l \<and> SetK8sClient L env = Inr cl) \<and> \<not> env_ok env) \<and>
    ((\<exists>started. main_start L P S env r = Inr started) \<longleftrightarrow>
      (\<exists>l cl. SetLogger L env = Inr l \<and> SetK8sClient L env = Inr cl) \<and> env_ok env)"
proof -
  have logger: "SetLogger L env = Inl Panic \<or> (\<exists>l. SetLogger L env = Inr l)"
    by (cases "ParseLevel L (GetEnv env ''LOG_LEVEL'' ''info'')") (simp_all add: SetLogger_def)
  have outcome: "boot P S env r = Inl (Exit 1)" if "\<not> env_ok env"
    by (rule boot_rejects [OF assms that])
  have fine: "\<exists>x. boot P S env r = Inr x" if "env_ok env"
    using prometheus.boot_ok [OF assms(1) that assms(2), of S] by blast
  show ?thesis
  proof (cases "SetLogger L env")
    case (Inl e)
    then show ?thesis using logger by (simp add: main_start_def)
  next
    case logged: (Inr l)
    show ?thesis
    proof (cases "SetK8sClient L env")
      case (Inl e)
      then show ?thesis using logged SetK8sClient_error [OF Inl] by (simp add: main_start_def)
    next
      case (Inr cl)
      then show ?thesis using logged outcome fine
        by (cases "env_ok env") (auto simp: main_start_def)
    qed
  qed
qed

lemma main_start_outcome_witness:
  "\<exists>started. main_start demo_lib mem_prom list_set daemon_env [] = Inr started"
proof -
  have fresh: "registered_names mem_prom [] \<inter> (pod_metric_names \<union> node_metric_names) = {}"
    by (simp add: mem_prom_def)
  have "\<exists>l. SetLogger demo_lib daemon_env = Inr l" "\<exists>cl. SetK8sClient demo_lib daemon_env = Inr cl"
    using demo_lib_clients [of daemon_env] by (auto simp: SetLogger_def demo_lib_def daemon_env_def)
  then show ?thesis
    using main_start_outcome [OF mem_prom_prometheus fresh, of demo_lib list_set daemon_env] env_ok_demo(2) by blast
qed

text \<open>C31: the HTTP clients a query uses exist: when start-up returns a node collector that scrapes the
  kubelets, both the authenticated and the anonymous client have been made, so no scrape calls a
  method of a nil client.\<close>

theorem kubelet_clients_exist:
  assumes "main_start L P S env r = Inr (cl, (n, cr), st)" and "scrapeFromKubelet n"
  shows "ClientRaw cl \<noteq> None \<and> ClientAno cl \<noteq> None"
proof -
  have cl: "SetK8sClient L env = Inr cl" and b: "boot P S env r = Inr ((n, cr), st)"
    using assms(1) by (auto simp: main_start_def split: sum.splits)
  have "n = node_config env (scrape_interval env)"
    using b by (auto simp: boot_def startCollectors_def defaultNewNode_def node_NewCollector_def Let_def
        split: sum.splits if_splits option.splits prod.splits)
  then have "env_bool env ''SCRAPE_FROM_KUBELET''" using assms(2) by (simp add: node_config_def)
  then show ?thesis using SetK8sClient_clients [OF cl] by (auto simp: Let_def)
qed

definition kubelet_env :: environment where
  "kubelet_env = demo_env(''SCRAPE_FROM_KUBELET'' \<mapsto> ''true'', ''SCRAPE_FROM_KUBELET_TLS_INSECURE_SKIP_VERIFY'' \<mapsto> ''true'')"

lemma kubelet_env_bool:
  "env_bool kubelet_env ''SCRAPE_FROM_KUBELET''"
  "env_bool kubelet_env ''SCRAPE_FROM_KUBELET_TLS_INSECURE_SKIP_VERIFY''"
  by (simp_all add: env_bool_def kubelet_env_def demo_env_def GetEnv_def parse_bool_def ParseBool_def)

lemma kubelet_clients_exist_witness:
  "\<exists>cl x st. main_start demo_lib mem_prom list_set kubelet_env [] = Inr (cl, x, st) \<and> ClientRaw cl \<noteq> None"
proof -
  have ok: "env_ok kubelet_env" by (simp add: env_ok_def kubelet_env_def demo_env_def GetEnv_def DeployAsDaemonSet_def)
  obtain cl where cl: "SetK8sClient demo_lib kubelet_env = Inr cl" using demo_lib_clients [of kubelet_env] by (auto simp: kubelet_env_def demo_env_def)
  have "main_start demo_lib mem_prom list_set kubelet_env [] = Inr (cl, booted kubelet_env)"
    using cl booted_boot(1) [OF ok] by (simp add: main_start_def SetLogger_def demo_lib_def)
  moreover obtain st where "booted kubelet_env =
      ((node_config kubelet_env (scrape_interval kubelet_env), collector_config kubelet_env (scrape_interval kubelet_env)), st)"
    using booted_boot(2) [OF ok] by (cases "booted kubelet_env") auto
  ultimately show ?thesis
    using kubelet_clients_exist [of demo_lib mem_prom list_set kubelet_env "[]" cl] kubelet_env_bool(1)
    by (auto simp: node_config_def)
qed

text \<open>C32: the setting that skips TLS verification reaches the authenticated kubelet client only: the
  API server's client and the anonymous client keep the verification of the configuration.\<close>

theorem skip_verify_confined:
  assumes "SetK8sClient L env = Inr cl"
    and "getK8sConfig env (BuildConfigFromFlags L) (InClusterConfig L) = Inr config"
    and "\<forall>c. tls_of (AnonymousClientConfig L c) = tls_of c"
  shows "(\<exists>c. NewForConfig L c = Inr (Clientset cl) \<and> tls_of c = tls_of config) \<and>
    (\<forall>h. ClientAno cl = Some h \<longrightarrow> (\<exists>c. HTTPClientFor L c = Inr h \<and> tls_of c = tls_of config)) \<and>
    (\<forall>h. ClientRaw cl = Some h \<longrightarrow> (\<exists>c. HTTPClientFor L c = Inr h \<and>
      tls_of c = (if env_bool env ''SCRAPE_FROM_KUBELET_TLS_INSECURE_SKIP_VERIFY''
                  then (True, '''', '''') else tls_of config)))"
proof -
  let ?c = "config\<lparr>UserAgent := ''k8s-ephemeral-storage-metrics''\<rparr>"
  note made = SetK8sClient_clients [OF assms(1), unfolded assms(2) Let_def]
  then have "NewForConfig L (client_rates L env ?c) = Inr (Clientset cl)" by auto
  moreover have "tls_of (client_rates L env ?c) = tls_of config" "tls_of (AnonymousClientConfig L ?c) = tls_of config"
    "tls_of (raw_config env ?c) = (if env_bool env ''SCRAPE_FROM_KUBELET_TLS_INSECURE_SKIP_VERIFY''
                  then (True, '''', '''') else tls_of config)"
    using assms(3) by (simp_all add: tls_of_def raw_config_def)
  ultimately show ?thesis using made by (auto split: if_splits)
qed

lemma skip_verify_confined_witness:
  "\<exists>cl c. SetK8sClient demo_lib kubelet_env = Inr cl \<and> NewForConfig demo_lib c = Inr (Clientset cl) \<and>
    \<not> Insecure c"
proof -
  obtain cl where cl: "SetK8sClient demo_lib kubelet_env = Inr cl" using demo_lib_clients [of kubelet_env] by (auto simp: kubelet_env_def demo_env_def)
  have config: "getK8sConfig kubelet_env (BuildConfigFromFlags demo_lib) (InClusterConfig demo_lib) = Inr demo_rest"
    by (simp add: getK8sConfig_cases demo_lib_def kubelet_env_def demo_env_def GetEnv_def)
  have "\<forall>c. tls_of (AnonymousClientConfig demo_lib c) = tls_of c" by (simp add: demo_lib_def)
  from skip_verify_confined [OF cl config this] cl show ?thesis by (auto simp: tls_of_def demo_rest_def)
qed

end
