(* ===== verification/GhostSeries.thy ===== *)
theory GhostSeries
  imports SystemSpec
begin

text \<open>
  How a node's series stay behind: the node gauges of a node go away only when the node is
  evicted, and a node is evicted only by a failed query of it or by its delete event.  A node
  that is out of the set, not due in the current round and not being fetched is \<open>unqueried\<close>;
  it stays so until an event announces it, and until then its node gauges keep their series.
\<close>

definition unqueried :: "('v, 'r, 's, 'q) deployment \<Rightarrow> string \<Rightarrow> ('v, 's) world \<Rightarrow> bool" where
  "unqueried s m w \<longleftrightarrow> m \<notin> slice_of s (packs w) \<and> m \<notin> set (pending w) \<and> Fetching m \<notin> set (workers w)"

text \<open>The node an action deletes.\<close>

fun deleted_name :: "'q action \<Rightarrow> string option" where
  "deleted_name (NodeDeleted obj) = map_option n_Name (deleted_object obj)"
| "deleted_name a = None"

lemma work_not_fetching:
  assumes "work s attempts elapsed j pk = Some (Some j', pk')" shows "j' \<noteq> Fetching m"
  using assms by (cases "(s, attempts, elapsed, j, pk)" rule: work.cases)
    (auto split: Option.bind_splits sum.splits prod.splits)

lemma next_workers_subset: "set (next_workers i j ws) \<subseteq> set ws \<union> set_option j"
  using set_update_subset_insert [of ws i]
  by (auto simp: next_workers_def dest: in_set_takeD in_set_dropD split: option.splits)

lemma perform_unqueried:
  assumes ok: "deployment_ok s" and ready: "world_ready s w" and en: "enabled s a w"
    and run: "perform s a w = Some w'" and "unqueried s m w" and "m \<notin> announced a"
  shows "unqueried s m w'"
proof (cases a)
  case StartRound
  then show ?thesis using run assms(5) by (auto simp: unqueried_def slice_of_def)
next
  case Invoke
  then obtain x xs where "pending w = x # xs" using en by (cases "pending w") auto
  then show ?thesis using run Invoke assms(5) by (auto simp: unqueried_def split: if_splits)
next
  case (Work i attempts elapsed)
  have ends: "step_ends s attempts (workers w ! i)" using en Work by simp
  obtain j' pk' where step: "work s attempts elapsed (workers w ! i) (packs w) = Some (j', pk')"
      "node_set (nodes pk') = node_set (nodes (packs w)) \<or>
       node_set (nodes pk') = set_remove (sets s) (job_node (workers w ! i)) (node_set (nodes (packs w)))"
    using prometheus.work_ok [OF deployment_okD(1) [OF ok] refl deployment_okD(3) [OF ok] ready,
        of attempts "workers w ! i" elapsed, OF ends]
    by (elim exE conjE) (rule that)
  have w': "w' = w\<lparr>packs := pk', workers := next_workers i j' (workers w)\<rparr>"
    using run Work step(1) by simp
  have "Fetching m \<notin> set (next_workers i j' (workers w))"
    using next_workers_subset [of i j' "workers w"] work_not_fetching [of s attempts elapsed _ "packs w" _ pk' m]
      step(1) assms(5) by (cases j') (auto simp: unqueried_def)
  then show ?thesis
    using slice_removed [OF deployment_okD(2) [OF ok] step(2)] assms(5) by (auto simp: unqueried_def w')
next
  case (NodeAdded obj)
  show ?thesis
  proof (cases obj)
    case (Typed p)
    then show ?thesis
      using run NodeAdded assms(5,6) slice_node_ready [where pk = "packs w" and n = "node_cfg s" and p = p, OF deployment_okD(2) [OF ok]]
      by (auto simp: unqueried_def Watch_AddFunc_def)
  qed (use run NodeAdded assms(5) in \<open>auto simp: Watch_AddFunc_def unqueried_def\<close>)
next
  case (NodeUpdated obj)
  show ?thesis
  proof (cases obj)
    case (Typed p)
    then show ?thesis
      using run NodeUpdated assms(5,6) slice_node_ready [where pk = "packs w" and n = "node_cfg s" and p = p, OF deployment_okD(2) [OF ok]]
      by (auto simp: unqueried_def Watch_UpdateFunc_def)
  qed (use run NodeUpdated assms(5) in \<open>auto simp: Watch_UpdateFunc_def unqueried_def\<close>)
next
  case (NodeDeleted obj)
  obtain pk' where del: "Watch_DeleteFunc (prom s) (sets s) (node_cfg s) obj (packs w) = Some pk'"
      "case deleted_object obj of None \<Rightarrow> pk' = packs w
       | Some p \<Rightarrow> node_set (nodes pk') = set_remove (sets s) (n_Name p) (node_set (nodes (packs w)))"
    using prometheus.Watch_DeleteFunc_ok [OF deployment_okD(1) [OF ok] ready, of "sets s" obj]
    by (auto split: option.splits)
  have "slice_of s pk' \<subseteq> slice_of s (packs w)"
    using del(2) slice_removed [OF deployment_okD(2) [OF ok], of pk' "packs w"]
    by (auto split: option.splits)
  then show ?thesis using run NodeDeleted del(1) assms(5) by (auto simp: unqueried_def)
next
  case (PodUpdated obj)
  then show ?thesis using run assms(5) by (cases obj) (auto simp: podWatch_UpdateFunc_def unqueried_def slice_of_def)
next
  case (PodDeleted obj)
  then show ?thesis using run assms(5) by (auto simp: unqueried_def slice_of_def split: Option.bind_splits)
next
  case (PodListed p)
  then show ?thesis using run assms(5) by (auto simp: unqueried_def slice_of_def)
qed (use run assms(5) in \<open>auto simp: unqueried_def\<close>)

lemma after_writes_keeps: "old k ls \<noteq> None \<Longrightarrow> after_writes ws old k ls \<noteq> None"
  by (auto simp: after_writes_def split: option.splits)

lemma dropped_stale_node: "dropped (stale_series dead) old (NodeVec k) ls = old (NodeVec k) ls"
  by (simp add: dropped_def)

lemma dropped_other_node:
  "ls ''node_name'' = Some m \<Longrightarrow> m \<noteq> m' \<Longrightarrow> dropped (node_series m') old k ls = old k ls"
  by (simp add: dropped_def node_series_def)

text \<open>A step of a worker that does not query the node keeps the node's gauges.\<close>

lemma work_keeps_node_gauges:
  assumes ok: "deployment_ok s" and ready: "packages_ready (prom s) (node_cfg s) pk"
    and run: "work s attempts elapsed j pk = Some (j', pk')" and "j \<noteq> Fetching m"
    and ls: "ls ''node_name'' = Some m" and old: "exported (prom s) pk (NodeVec k) ls \<noteq> None"
  shows "exported (prom s) pk' (NodeVec k) ls \<noteq> None"
proof (cases j)
  case (Fetching m')
  then have other: "m \<noteq> m'" using assms(4) by simp
  obtain answer where answer: "query_answer (backoff s) (node_cfg s) m' attempts = Some answer"
    using step_returned [OF run] Fetching by auto
  show ?thesis
  proof (cases answer)
    case (Inl err)
    then have "exported (prom s) pk' = dropped (node_series m') (exported (prom s) pk)"
      using prometheus.Query_failed [OF deployment_okD(1) [OF ok] ready, of "backoff s" m' attempts err "sets s"]
        answer run Fetching by auto
    then show ?thesis using dropped_other_node [where ls = ls, OF ls other] old by metis
  next
    case (Inr content)
    then have "pk' = pk" using answer run Fetching by (auto simp: Query_def query_answer_def split: sum.splits)
    then show ?thesis using old by simp
  qed
next
  case (Evicting m' data)
  then have "exported (prom s) pk' = dropped (stale_series (node_stale pk m' data)) (exported (prom s) pk)"
    using prometheus.evict_stale_ok [OF deployment_okD(1) [OF ok] ready deployment_okD(3) [OF ok], of m' data] run
    by auto
  then show ?thesis using dropped_stale_node old by metis
next
  case (Setting m' ps)
  show ?thesis
  proof (cases ps)
    case Nil
    then show ?thesis using run Setting old by auto
  next
    case (Cons p qs)
    then obtain ws where "exported (prom s) pk' = after_writes ws (exported (prom s) pk)"
      using prometheus.set_pod_ok [OF deployment_okD(1) [OF ok] ready, of "pod_cfg s" m' p] run Setting by auto
    then show ?thesis using after_writes_keeps old by metis
  qed
next
  case (Adjusting m')
  then obtain ws where "exported (prom s) pk' = after_writes ws (exported (prom s) pk)"
    using prometheus.set_polling_rate_ok [OF deployment_okD(1) [OF ok] ready, of m' "interval_mill s" elapsed] run
    by auto
  then show ?thesis using after_writes_keeps old by metis
qed

lemma perform_keeps_node_gauges:
  assumes ok: "deployment_ok s" and ready: "world_ready s w" and en: "enabled s a w"
    and run: "perform s a w = Some w'" and idle: "unqueried s m w" and "deleted_name a \<noteq> Some m"
    and ls: "ls ''node_name'' = Some m" and old: "series s w (NodeVec k) ls \<noteq> None"
  shows "series s w' (NodeVec k) ls \<noteq> None"
proof (cases a)
  case (Work i attempts elapsed)
  obtain j' pk' where step: "work s attempts elapsed (workers w ! i) (packs w) = Some (j', pk')"
      "w' = w\<lparr>packs := pk', workers := next_workers i j' (workers w)\<rparr>"
    using run Work by (auto split: Option.bind_splits)
  have "workers w ! i \<in> set (workers w)" using en Work by simp
  then have "workers w ! i \<noteq> Fetching m" using idle by (metis unqueried_def)
  from work_keeps_node_gauges [OF ok ready step(1) this ls old] show ?thesis
    unfolding step(2) by simp
next
  case (NodeAdded obj)
  then show ?thesis using run old by (cases obj) (auto simp: Watch_AddFunc_def node_ready_packages)
next
  case (NodeUpdated obj)
  then show ?thesis using run old by (cases obj) (auto simp: Watch_UpdateFunc_def node_ready_packages)
next
  case (NodeDeleted obj)
  show ?thesis
  proof (cases "deleted_object obj")
    case None
    then show ?thesis
      using prometheus.Watch_DeleteFunc_ok [OF deployment_okD(1) [OF ok] ready, of "sets s" obj] run NodeDeleted old
      by auto
  next
    case (Some p)
    then have "series s w' = dropped (node_series (n_Name p)) (series s w)"
      using prometheus.Watch_DeleteFunc_ok [OF deployment_okD(1) [OF ok] ready, of "sets s" obj] run NodeDeleted
      by auto
    moreover have "m \<noteq> n_Name p" using assms(6) NodeDeleted Some by auto
    ultimately show ?thesis using dropped_other_node [where ls = ls, OF ls] old by metis
  qed
next
  case (PodUpdated obj)
  then show ?thesis using run old by (cases obj) (auto simp: podWatch_UpdateFunc_def)
next
  case (PodDeleted obj)
  then show ?thesis using run old by (auto split: Option.bind_splits)
qed (use run old in \<open>auto split: if_splits\<close>)

text \<open>So the series of a ghost stay for as long as nobody names the node again.\<close>

lemma ghost_gauges_stay:
  assumes "executes s w bs w'" and ok: "deployment_ok s" and "world_ready s w" and "unqueried s m w"
    and ls: "ls ''node_name'' = Some m" and "series s w (NodeVec k) ls \<noteq> None"
    and quiet: "\<forall>a \<in> set bs. m \<notin> announced a \<and> deleted_name a \<noteq> Some m"
  shows "unqueried s m w' \<and> series s w' (NodeVec k) ls \<noteq> None"
proof -
  have "world_ready s w' \<and> unqueried s m w' \<and> series s w' (NodeVec k) ls \<noteq> None"
  proof (rule executes_invariant [OF assms(1)], goal_cases)
    case 1
    then show ?case using assms(3,4,6) by blast
  next
    case (2 a u u')
    have "world_ready s u'" using perform_step(1) [OF ok, of u a] 2 by blast
    then show ?case
      using 2 quiet perform_unqueried [OF ok, of u a u' m] perform_keeps_node_gauges [OF ok, of u a u' m ls k] ls
      by blast
  qed
  then show ?thesis by blast
qed

end
