(* ===== verification/PodTable.thy ===== *)
theory PodTable
  imports SystemSpec
begin

text \<open>
  The pod lookup table of the running exporter: it starts empty, the initial list fills it once,
  before the pod watch sees its first event, and in every schedule it is the table of the last
  news about each pod name.
\<close>

section \<open>The table refines the news of the schedule\<close>

text \<open>The news an action brings: a running pod with its entry, or a pod that is gone.\<close>

definition pod_news :: "('v, 'r, 's, 'q) deployment \<Rightarrow> 'q v1_Pod \<Rightarrow> (string \<times> pod option) list" where
  "pod_news s p =
     (if p_Phase p = ''Running'' then [(p_Name p, Some (pod_entry (approximate s) (pod_cfg s) p))] else [])"

fun table_events :: "('v, 'r, 's, 'q) deployment \<Rightarrow> 'q action \<Rightarrow> (string \<times> pod option) list" where
  "table_events s (PodListed p) = pod_news s p"
| "table_events s (PodUpdated (Typed p)) = pod_news s p"
| "table_events s (PodDeleted obj) =
     (case deleted_object obj of None \<Rightarrow> [] | Some p \<Rightarrow> [(p_Name p, None)])"
| "table_events s a = []"

text \<open>The abstract table: what the last news about a name was.\<close>

definition told :: "(string \<times> pod option) list \<Rightarrow> (string \<rightharpoonup> pod) \<Rightarrow> string \<rightharpoonup> pod" where
  "told news t name = (case map_of (rev news) name of Some e \<Rightarrow> e | None \<Rightarrow> t name)"

lemma told_Nil [simp]: "told [] t = t"
  by (simp add: told_def fun_eq_iff)

lemma told_append: "told (xs @ ys) t = told ys (told xs t)"
  by (simp add: told_def fun_eq_iff map_add_def split: option.split)

lemma told_single: "told [(name, e)] t = t(name := e)"
  by (simp add: told_def fun_eq_iff)

lemma lookup_getPodData:
  "lookup (getPodData (approximate s) (pod_cfg s) p st) = told (pod_news s p) (lookup st)"
  by (simp add: getPodData_fields pod_news_def told_single)

lemma perform_table:
  assumes ok: "deployment_ok s" and ready: "world_ready s w" and en: "enabled s a w"
    and run: "perform s a w = Some w'"
  shows "lookup (pods (packs w')) = told (table_events s a) (lookup (pods (packs w)))"
proof (cases a)
  case (Work i attempts elapsed)
  then show ?thesis
    using prometheus.work_ok [OF deployment_okD(1) [OF ok] refl deployment_okD(3) [OF ok] ready,
        of attempts "workers w ! i" elapsed] run en by auto
next
  case (NodeAdded obj)
  then show ?thesis using run by (cases obj) (auto simp: Watch_AddFunc_def)
next
  case (NodeUpdated obj)
  then show ?thesis using run by (cases obj) (auto simp: Watch_UpdateFunc_def)
next
  case (NodeDeleted obj)
  then show ?thesis
    using prometheus.Watch_DeleteFunc_ok [OF deployment_okD(1) [OF ok] ready, of "sets s" obj] run
    by (auto split: option.splits)
next
  case (PodListed p)
  then show ?thesis using run by (auto simp: lookup_getPodData simp del: getPodData_fields)
next
  case (PodUpdated obj)
  then show ?thesis using run by (cases obj) (auto simp: podWatch_UpdateFunc_def lookup_getPodData simp del: getPodData_fields)
next
  case (PodDeleted obj)
  then show ?thesis
    using prometheus.podWatch_DeleteFunc_total [OF deployment_okD(1) [OF ok] ready, of obj] run
    by (auto simp: told_single split: option.splits)
qed (use run in \<open>auto split: if_splits\<close>)

lemma executes_table:
  assumes "executes s w0 as w" and ok: "deployment_ok s" and "world_ready s w0"
  shows "lookup (pods (packs w)) = told (concat (map (table_events s) as)) (lookup (pods (packs w0)))"
  using assms
proof (induction rule: executes.induct)
  case start
  then show ?case by simp
next
  case (act as w a w')
  have "world_ready s w" using executes_ready [OF act.hyps(1) act.prems] ..
  from perform_table [OF act.prems(1) this act.hyps(2,3)] act.IH [OF act.prems]
  show ?case by (simp add: told_append)
qed

section \<open>The list comes once and first\<close>

text \<open>The end of the initial list, and the steps of it.\<close>

fun ends_list :: "'q action \<Rightarrow> bool" where
  "ends_list ListDone = True"
| "ends_list a = False"

fun list_step :: "'q action \<Rightarrow> bool" where
  "list_step (PodListed p) = True"
| "list_step ListDone = True"
| "list_step a = False"

fun pod_watch_event :: "'q action \<Rightarrow> bool" where
  "pod_watch_event (PodUpdated obj) = True"
| "pod_watch_event (PodDeleted obj) = True"
| "pod_watch_event a = False"

fun scrape_step :: "'q action \<Rightarrow> bool" where
  "scrape_step StartRound = True"
| "scrape_step Invoke = True"
| "scrape_step (Work i attempts elapsed) = True"
| "scrape_step a = False"

text \<open>The two ways the initial wait ends.\<close>

fun ends_wait :: "'q action \<Rightarrow> bool" where
  "ends_wait InitDone = True"
| "ends_wait (InitTimeout waited) = True"
| "ends_wait a = False"

lemma perform_listing:
  assumes "perform s a w = Some w'"
  shows "listing w' \<longleftrightarrow> listing w \<and> \<not> ends_list a"
  using assms by (cases a) (auto split: Option.bind_splits if_splits)

lemma executes_listed:
  assumes "executes s w0 as w"
  shows "length (filter ends_list as) = (if listing w0 \<and> \<not> listing w then 1 else 0) \<and>
    (listing w \<longrightarrow> listing w0)"
  using assms
proof (induction rule: executes.induct)
  case start
  then show ?case by simp
next
  case (act as w a w')
  have "ends_list a \<Longrightarrow> listing w" using act.hyps(2) by (cases a) auto
  then show ?case
    using act.IH perform_listing [OF act.hyps(3)] by (cases "ends_list a"; cases "listing w") simp_all
qed

lemma watch_after_list:
  assumes "executes s w0 as w" and "listing w" and "a \<in> set as"
  shows "\<not> pod_watch_event a"
  using assms
proof (induction rule: executes.induct)
  case start
  then show ?case by simp
next
  case (act as w b w')
  have "listing w" using perform_listing [OF act.hyps(3)] act.prems(1) by simp
  moreover have "pod_watch_event b \<Longrightarrow> \<not> listing w" using act.hyps(2) by (cases b) auto
  ultimately show ?case using act.IH act.prems(2) by auto
qed

lemma perform_waiting:
  assumes "perform s a w = Some w'"
  shows "scrape_loop w' = Waiting \<longleftrightarrow> scrape_loop w = Waiting \<and> \<not> ends_wait a"
  using assms by (cases a) (auto split: Option.bind_splits if_splits)

lemma executes_waited:
  assumes "executes s w0 as w"
  shows "length (filter ends_wait as) = (if scrape_loop w0 = Waiting \<and> scrape_loop w \<noteq> Waiting then 1 else 0) \<and>
    (scrape_loop w = Waiting \<longrightarrow> scrape_loop w0 = Waiting)"
  using assms
proof (induction rule: executes.induct)
  case start
  then show ?case by simp
next
  case (act as w a w')
  have "ends_wait a \<Longrightarrow> scrape_loop w = Waiting" using act.hyps(2) by (cases a) auto
  then show ?case
    using act.IH perform_waiting [OF act.hyps(3)] by (cases "ends_wait a"; cases "scrape_loop w = Waiting") simp_all
qed

lemma sint_init_timeout:
  assumes "\<bar>sint n\<bar> \<le> 4611686018"
  shows "sint (init_timeout n) = 2 * sint n * 1000000000"
proof -
  have "sint (n * 2) = signed_take_bit 63 (sint n * 2)" by (simp add: sint_word_ariths)
  also have "\<dots> = sint n * 2" using assms by (intro signed_take_bit_int_eq_self) simp_all
  finally show ?thesis using sint_Seconds [of "n * 2"] assms by (simp add: init_timeout_def max_seconds_def)
qed

text \<open>The goroutine \<open>initGetPodsData\<close> as steps of a schedule: uninterrupted, they leave the state
  the function computes.\<close>

lemma listed_pods_run:
  assumes "listing w"
  shows "executes s w (map PodListed ps)
    (w\<lparr>packs := (packs w)\<lparr>pods := fold (getPodData (approximate s) (pod_cfg s)) ps (pods (packs w))\<rparr>\<rparr>)"
proof (induction ps rule: rev_induct)
  case Nil
  then show ?case using executes.start [of s w] by simp
next
  case (snoc p ps)
  then show ?case using executes.act [OF snoc, of "PodListed p"] assms by simp
qed

lemma initial_list_run:
  assumes "listing w" and "initGetPodsData (approximate s) (pod_cfg s) server (pods (packs w)) = Some (Inr st)"
  shows "\<exists>ps. executes s w (map PodListed ps @ [ListDone])
    (w\<lparr>packs := (packs w)\<lparr>pods := st\<rparr>, listing := False\<rparr>)"
proof -
  obtain ps where ps: "list_pods server 0 (getPodsListOptions (pod_cfg s)) [] = Some (Inr ps)"
      "st = fold (getPodData (approximate s) (pod_cfg s)) ps (pods (packs w))"
    using assms(2) by (auto simp: initGetPodsData_def split: option.splits sum.splits)
  show ?thesis
    using executes.act [OF listed_pods_run [OF assms(1), of s ps], where a = ListDone] assms(1)
    by (intro exI [of _ ps]) (simp add: ps(2))
qed

text \<open>Every prefix of a schedule is a schedule, and its next action is enabled after it.\<close>

lemma executes_prefix:
  assumes "executes s w0 (as @ a # bs) w"
  obtains u where "executes s w0 as u" and "enabled s a u"
proof -
  have "\<exists>u. executes s w0 as u \<and> enabled s a u"
    using assms
  proof (induction bs arbitrary: w rule: rev_induct)
    case Nil
    then show ?case by (auto elim: executes_snocE)
  next
    case (snoc b bs)
    then show ?case by (metis append_Cons append_assoc executes_snocE)
  qed
  then show thesis using that by blast
qed

lemma no_news:
  assumes "enabled s a w" and "\<not> watches_pods (pod_cfg s)" and "\<not> listing w"
  shows "table_events s a = []"
  using assms by (cases "(s, a)" rule: table_events.cases) auto

section \<open>Without the pod watch the lookup table stays empty\<close>

lemma volume_usage_needs_entry:
  "(PodVec containerVolumeUsageVec, ls, x) \<notin> set (job_writes s Map.empty elapsed j)"
  by (cases "(s, Map.empty :: string \<rightharpoonup> pod, elapsed, j)" rule: job_writes.cases)
    (auto simp: summary_pod_writes_def tag_writes_def polling_writes_def pod_writes_def Let_def
      volume_usage_writes_def volume_limit_writes_def result_containers_def rootfs_writes_def
      logs_writes_def split: if_splits dest!: fs_writes_labels)

lemma volume_usage_never_written:
  assumes "executes s w0 as w" and ok: "deployment_ok s" and "world_ready s w0"
    and off: "\<not> watches_pods (pod_cfg s)" "\<not> listing w0" and "lookup (pods (packs w0)) = Map.empty"
    and "\<And>ls. series s w0 (PodVec containerVolumeUsageVec) ls = None"
  shows "series s w (PodVec containerVolumeUsageVec) ls = None"
proof -
  have "world_ready s w \<and> \<not> listing w \<and> lookup (pods (packs w)) = Map.empty \<and>
      (\<forall>ls. series s w (PodVec containerVolumeUsageVec) ls = None)"
  proof (rule executes_invariant [OF assms(1)], goal_cases)
    case 1
    then show ?case using assms(3,5,6,7) by auto
  next
    case (2 a w w')
    have ready': "world_ready s w'" and g: "grows (series s w) (action_writes s w a) (series s w')"
      using perform_step(1,3) [OF ok, of w a] 2 by blast+
    have "(PodVec containerVolumeUsageVec, ls, x) \<notin> set (action_writes s w a)" for ls x
      using 2(2) by (cases a) (simp_all add: volume_usage_needs_entry)
    then have "series s w' (PodVec containerVolumeUsageVec) ls = None" for ls
      using growsD [OF g, of "PodVec containerVolumeUsageVec" ls] 2(2)
      by (cases "series s w' (PodVec containerVolumeUsageVec) ls") auto
    moreover have "table_events s a = []"
      using no_news [OF 2(3) off(1)] 2(2) by blast
    then have "lookup (pods (packs w')) = Map.empty"
      using perform_table [OF ok, of w a w'] 2 by (simp add: told_def)
    moreover have "\<not> listing w'" using perform_listing [of s a w w'] 2 by auto
    ultimately show ?case using ready' by blast
  qed
  then show ?thesis by blast
qed

end
