(* ===== verification/Watches.thy ===== *)
theory Watches
  imports NodeCollectorSpec GoTime
begin

text \<open>
  The two watch goroutines around their handlers: the informer each one makes, the registration of
  the handlers, and the loop that waits for the stop channel.  \<open>informers\<close> of client-go is a
  parameter: what an informer lists and delivers is its environment's choice.
\<close>

section \<open>Informers\<close>

text \<open>An informer re-delivers its objects every \<open>resync\<close>, and lists and watches with the selectors of
  its options; an empty selector is one that is not set.\<close>

record informer_options =
  resync :: int64
  label_selector :: string
  field_selector :: string

definition node_informer :: "Node \<Rightarrow> informer_options" where
  "node_informer n =
     \<lparr>resync = Seconds (sampleInterval n), label_selector = Watch_selector n, field_selector = ''''\<rparr>"

definition pod_informer :: "Collector \<Rightarrow> informer_options" where
  "pod_informer cr =
     \<lparr>resync = Seconds (cr_sampleInterval cr), label_selector = '''', field_selector = podWatch_selector cr\<rparr>"

text \<open>\<open>cache.ResourceEventHandlerFuncs\<close> over the state the handlers change; a function that is not set is
  never called.\<close>

record ('o, 'st) handlers =
  AddFunc :: "('o \<Rightarrow> 'st \<Rightarrow> 'st option) option"
  UpdateFunc :: "('o \<Rightarrow> 'st \<Rightarrow> 'st option) option"
  DeleteFunc :: "('o \<Rightarrow> 'st \<Rightarrow> 'st option) option"

definition node_handlers ::
  "('v, 'r) prom_api \<Rightarrow> 's set_api \<Rightarrow> Node \<Rightarrow> (v1_Node iface, ('v, 's) packages) handlers" where
  "node_handlers P S n =
     \<lparr>AddFunc = Some (Watch_AddFunc S n), UpdateFunc = Some (Watch_UpdateFunc S n),
      DeleteFunc = Some (Watch_DeleteFunc P S n)\<rparr>"

definition pod_handlers ::
  "('v, 'r) prom_api \<Rightarrow> ('q \<Rightarrow> f64) \<Rightarrow> Collector \<Rightarrow> ('q v1_Pod iface, 'v pod_state) handlers" where
  "pod_handlers P approx cr =
     \<lparr>AddFunc = None, UpdateFunc = Some (podWatch_UpdateFunc approx cr),
      DeleteFunc = Some (podWatch_DeleteFunc P)\<rparr>"

section \<open>The watch goroutines\<close>

text \<open>The final loop: sleep, then wait until the stop channel is closed and exit.  \<open>is_closed i\<close> is
  whether the channel is closed when the goroutine looks for the \<open>i\<close>-th time; \<open>None\<close> is a goroutine
  that waits for ever.\<close>

partial_function (option) await_stop :: "(nat \<Rightarrow> bool) \<Rightarrow> nat \<Rightarrow> stop option" where
  "await_stop is_closed i = (if is_closed i then Some (Exit 1) else await_stop is_closed (Suc i))"

text \<open>The channel is made by the goroutine, handed to the informer factory, which only receives from
  it, and closed by the goroutine's own deferred call, so not before the goroutine has returned.\<close>

definition stopCh_closed :: "nat \<Rightarrow> bool" where
  "stopCh_closed i = False"

definition Watch ::
  "('v, 'r) prom_api \<Rightarrow> 's set_api \<Rightarrow> Node \<Rightarrow>
    (informer_options \<Rightarrow> (v1_Node iface, ('v, 's) packages) handlers \<Rightarrow> string + unit) \<Rightarrow> stop option" where
  "Watch P S n AddEventHandler =
     (case AddEventHandler (node_informer n) (node_handlers P S n) of
        Inl err \<Rightarrow> Some (Exit 1)
      | Inr _ \<Rightarrow> await_stop stopCh_closed 0)"

text \<open>The pod watch waits for the wait group first; \<open>listed\<close> is whether its counter gets to zero.\<close>

definition podWatch ::
  "('v, 'r) prom_api \<Rightarrow> ('q \<Rightarrow> f64) \<Rightarrow> Collector \<Rightarrow> bool \<Rightarrow>
    (informer_options \<Rightarrow> ('q v1_Pod iface, 'v pod_state) handlers \<Rightarrow> string + unit) \<Rightarrow> stop option" where
  "podWatch P approx cr listed AddEventHandler =
     (if \<not> listed then None
      else case AddEventHandler (pod_informer cr) (pod_handlers P approx cr) of
        Inl err \<Rightarrow> Some (Exit 1)
      | Inr _ \<Rightarrow> await_stop stopCh_closed 0)"

section \<open>Facts\<close>

text \<open>The loop ends exactly when the channel is closed some time.\<close>

lemma await_stop_closed:
  assumes "await_stop is_closed i = Some e"
  shows "\<exists>j \<ge> i. is_closed j \<and> e = Exit 1"
proof (rule await_stop.raw_induct [where P = "\<lambda>is_closed i e. \<exists>j \<ge> i. is_closed j \<and> e = Exit 1", OF _ assms], goal_cases)
  case (1 rec is_closed i e)
  show ?case
  proof (cases "is_closed i")
    case True
    then show ?thesis using 1(2) by auto
  next
    case False
    then have "rec is_closed (Suc i) = Some e" using 1(2) by simp
    from 1(1) [OF this] show ?thesis using Suc_leD by blast
  qed
qed

lemma await_stop_returns:
  assumes "is_closed (i + k)"
  shows "await_stop is_closed i = Some (Exit 1)"
  using assms
proof (induction k arbitrary: i)
  case 0
  then show ?case by (simp add: await_stop.simps)
next
  case (Suc k)
  then have "await_stop is_closed (Suc i) = Some (Exit 1)" by simp
  then show ?case by (simp add: await_stop.simps [of is_closed i])
qed

lemma await_stop_iff: "await_stop is_closed i = (if \<exists>j \<ge> i. is_closed j then Some (Exit 1) else None)"
proof (cases "\<exists>j \<ge> i. is_closed j")
  case True
  then obtain k where "is_closed (i + k)" using le_Suc_ex by blast
  then show ?thesis using await_stop_returns True by simp
next
  case False
  then show ?thesis using await_stop_closed [of is_closed i] by (cases "await_stop is_closed i") auto
qed

lemma watch_goroutines:
  "Watch P S n AddEventHandler =
    (case AddEventHandler (node_informer n) (node_handlers P S n) of Inl err \<Rightarrow> Some (Exit 1) | Inr _ \<Rightarrow> None)"
  "podWatch P approx cr listed register =
    (if listed then
       case register (pod_informer cr) (pod_handlers P approx cr) of Inl err \<Rightarrow> Some (Exit 1) | Inr _ \<Rightarrow> None
     else None)"
  by (simp_all add: Watch_def podWatch_def await_stop_iff stopCh_closed_def split: sum.split)

end
