(* ===== verification/ScheduleProperties.thy ===== *)
theory ScheduleProperties
  imports PodTable DemoRun Watches
begin

text \<open>
  Properties of the schedules themselves: the initial wait and the pod list, the pod table as the
  refinement of the schedule's news, and the scrape intervals that make the loop crash or its workers hang.
\<close>

section \<open>The initial wait\<close>

text \<open>C16: every step of the initial pod list comes before its end, which comes at most once and
  before the pod watch delivers its first event; no scrape step runs before the initial wait has
  ended; and the wait ends because the list is done, which a configuration that watches pods has to
  wait for and another one need not, or by the timer: for intervals of absolute value up to
  4611686018 seconds, whose double does not wrap around, not before twice the interval.\<close>

theorem pods_listed_first:
  assumes "starts s env r st" and "executes s (started st) (before @ a # after) w"
  shows "(pod_watch_event a \<longrightarrow> length (filter ends_list before) = 1) \<and>
    (list_step a \<longrightarrow> filter ends_list before = [] \<and> filter pod_watch_event before = []) \<and>
    (scrape_step a \<longrightarrow> length (filter ends_wait before) = 1) \<and>
    (a = InitDone \<longrightarrow> watches_pods (pod_cfg s) \<longrightarrow> length (filter ends_list before) = 1) \<and>
    (\<forall>waited. a = InitTimeout waited \<longrightarrow> \<bar>sint (scrape_interval env)\<bar> \<le> 4611686018 \<longrightarrow>
      2 * sint (scrape_interval env) * 1000000000 \<le> sint waited)"
proof -
  note d = startsD [OF assms(1)]
  obtain u where u: "executes s (started st) before u" "enabled s a u"
    using assms(2) by (rule executes_prefix)
  have w0: "scrape_loop (started st) = Waiting" by (simp add: started_def)
  note listed = executes_listed [OF u(1), unfolded d(12)] and waited = executes_waited [OF u(1), unfolded w0]
  have "loop_ok s u" by (rule executes_loop_ok [OF u(1) loop_ok_started])
  then have idle: "scrape_loop u = Waiting \<Longrightarrow> pending u = [] \<and> workers u = []" by (simp add: loop_ok_def)
  have "pod_watch_event a \<longrightarrow> length (filter ends_list before) = 1"
    using u(2) listed by (cases a) simp_all
  moreover have "list_step a \<longrightarrow> filter ends_list before = [] \<and> filter pod_watch_event before = []"
    using u(2) listed watch_after_list [OF u(1)] by (cases a) (auto simp: filter_empty_conv)
  moreover have "scrape_step a \<longrightarrow> length (filter ends_wait before) = 1"
    using u(2) waited idle by (cases a) auto
  moreover have "a = InitDone \<longrightarrow> watches_pods (pod_cfg s) \<longrightarrow> length (filter ends_list before) = 1"
    using u(2) listed by auto
  moreover have "\<forall>waited. a = InitTimeout waited \<longrightarrow> \<bar>sint (scrape_interval env)\<bar> \<le> 4611686018 \<longrightarrow>
      2 * sint (scrape_interval env) * 1000000000 \<le> sint waited"
    using u(2) sint_init_timeout [of "interval s"] by (auto simp: word_sle_eq d(13))
  ultimately show ?thesis by (intro conjI)
qed

lemma pods_listed_first_witness:
  "length (filter ends_list [NodeAdded (Typed demo_node), PodListed demo_v1_pod, ListDone]) = 1"
  using pods_listed_first [OF demo_starts [OF env_ok_demo(1)], of "[NodeAdded (Typed demo_node), PodListed demo_v1_pod, ListDone]"
      InitDone "[]" demo_listed] demo_listed_reached by (simp add: demo_world_def watches_pods_def demo_collector)

text \<open>C10: a pod list that never finishes does not stop the exporter, when the interval's duration is
  positive and \<open>MAX_NODE_CONCURRENCY\<close> below \<open>2 ^ 31\<close>: from start-up there is a schedule without the
  list's end in which the wait times out and a round scrapes every node of the set, each with the
  whole effect of \<open>setMetrics\<close>, whatever the nodes answer to each attempt.\<close>

theorem hanging_list_does_not_block:
  assumes "starts s env r st" and "0 < sint (Seconds (scrape_interval env))"
    and "sint (MaxNodeQueryConcurrency (node_cfg s)) < 2 ^ 31"
  shows "\<exists>as w. executes s (started st) as w \<and> filter ends_list as = [] \<and> pending w = [] \<and> workers w = [] \<and>
    for_each (\<lambda>m. setMetrics (prom s) (sets s) (backoff s) (map_order s) (decoder s) (node_cfg s) (pod_cfg s)
        (interval_mill s) m (attempts m) (elapsed m))
      (to_slice (sets s) (node_set (nodes (pkgs st)))) (pkgs st) = Some (packs w)"
proof -
  note d = startsD [OF assms(1)]
  let ?u = "(started st)\<lparr>scrape_loop := Looping (pool_of s)\<rparr>" and ?t = "InitTimeout (init_timeout (interval s))"
  have u: "executes s (started st) [?t] ?u"
    by (rule executes_one) (simp_all add: started_def)
  have idle: "scrape_loop ?u \<noteq> Waiting" "pending ?u = []" "workers ?u = []"
    by (simp_all add: started_def)
  obtain pk where pk: "for_each (scrape_node s attempts elapsed) (to_slice (sets s) (node_set (nodes (pkgs st)))) (pkgs st) = Some pk"
    using scrape_nodes_total [OF d(1,4) started_retries_limited [OF assms(1,2)], of attempts elapsed]
    unfolding started_def by auto
  then have "for_each (scrape_node s attempts elapsed) (to_slice (sets s) (node_set (nodes (packs ?u)))) (packs ?u) = Some pk"
    by (simp add: started_def)
  from started_round [OF assms(1) less_imp_le [OF assms(2)] u idle(1-3) this assms(3)]
  obtain bs where "executes s ?u bs (?u\<lparr>packs := pk\<rparr>)" unfolding can_reach_def ..
  from executes_trans [OF this u] have run: "executes s (started st) (?t # bs) (?u\<lparr>packs := pk\<rparr>)" by simp
  then have "filter ends_list (?t # bs) = []"
    using executes_listed [OF run] by simp
  then show ?thesis
    using run pk by (intro exI [of _ "?t # bs"] exI [of _ "?u\<lparr>packs := pk\<rparr>"])
      (simp add: scrape_node_def [abs_def] started_def)
qed

definition hung_env :: environment where
  "hung_env = daemon_env(''EPHEMERAL_STORAGE_CONTAINER_LIMIT_PERCENTAGE'' \<mapsto> ''true'')"

lemma hanging_list_does_not_block_witness:
  "listing (demo_world hung_env) \<and>
    (\<exists>as w. executes (demo_deployment hung_env) (demo_world hung_env) as w \<and> filter ends_list as = [] \<and>
      setMetrics mem_prom list_set (retry_upto 2) sorted_keys demo_decoder
        (node_config hung_env (scrape_interval hung_env)) (collector_config hung_env (scrape_interval hung_env))
        (sample_interval_mill hung_env) ''node-a'' failing 0 (pkgs (snd (booted hung_env))) = Some (packs w))"
proof
  have env: "env_ok hung_env" "DeployAsDaemonSet hung_env" "CurrentNodeName hung_env = ''node-a''"
    by (simp_all add: env_ok_def hung_env_def daemon_env_def DeployAsDaemonSet_def CurrentNodeName_def GetEnv_def)
  have "cr_containerLimitsPercentage (collector_config hung_env i)" for i
    by (simp add: collector_config_def env_bool_def hung_env_def daemon_env_def GetEnv_def parse_bool_def ParseBool_def)
  then show "listing (demo_world hung_env)"
    by (simp add: demo_world_listing [OF env(1)] watches_pods_def)
  have "scrape_interval hung_env = 15"
    by (simp add: scrape_interval_def hung_env_def daemon_env_def GetEnv_def parse_int_def parse_uint_def digit_val_def)
  then have "0 < sint (Seconds (scrape_interval hung_env))" by (simp add: Seconds_def)
  moreover have "sint (MaxNodeQueryConcurrency (node_cfg (demo_deployment hung_env))) < 2 ^ 31"
    by (simp add: node_config_def hung_env_def daemon_env_def GetEnv_def atoi_def parse_int_def parse_uint_def digit_val_def)
  moreover have "to_slice list_set (node_set (nodes (pkgs (snd (booted hung_env))))) = [''node-a'']"
    using booted_boot(5) [OF env(1)] by (simp add: env(2,3) list_set_def)
  ultimately show "\<exists>as w. executes (demo_deployment hung_env) (demo_world hung_env) as w \<and> filter ends_list as = [] \<and>
      setMetrics mem_prom list_set (retry_upto 2) sorted_keys demo_decoder
        (node_config hung_env (scrape_interval hung_env)) (collector_config hung_env (scrape_interval hung_env))
        (sample_interval_mill hung_env) ''node-a'' failing 0 (pkgs (snd (booted hung_env))) = Some (packs w)"
    using hanging_list_does_not_block [OF demo_starts [OF env(1)], of "\<lambda>_. failing" "\<lambda>_. 0"]
    unfolding demo_world_def demo_fields by (simp only: for_each_single) blast
qed

section \<open>The pod table\<close>

text \<open>C11: the pod table refines the news of the schedule: after any schedule it maps a name to the
  entry of the last running pod of that name that the initial list or an update event reported, and
  to nothing when a delete event of that name came later or no such report came; namespaces play
  no part, and scrapes and node events never touch it.\<close>

theorem pod_table_refines_news:
  assumes "starts s env r st" and "executes s (started st) as w"
  shows "lookup (pods (packs w)) name =
    (case map_of (rev (concat (map (table_events s) as))) name of Some e \<Rightarrow> e | None \<Rightarrow> None)"
  using executes_table [OF assms(2) startsD(1,4) [OF assms(1)]] startsD(11) [OF assms(1)]
  by (simp add: told_def)

lemma pod_table_refines_news_witness:
  "lookup (pods (packs demo_listed)) ''web'' = Some demo_entry"
  using pod_table_refines_news [OF demo_starts [OF env_ok_demo(1)] demo_listed_reached [unfolded demo_world_def], of "''web''"]
    demo_pod_entry by (simp add: pod_news_def) (simp add: demo_v1_pod_def)

section \<open>The scrape interval\<close>






text \<open>A worker's step leaves the other workers where they are.\<close>

lemma other_worker_stays:
  assumes "k < length ws" and "i < length ws" and "k \<noteq> i"
  shows "ws ! k \<in> set (next_workers i j ws)"
proof (cases j)
  case None
  show ?thesis
  proof (cases "k < i")
    case True
    then have "take i ws ! k = ws ! k" "k < length (take i ws)" using assms by simp_all
    then have "ws ! k \<in> set (take i ws)" by (metis nth_mem)
    then show ?thesis by (simp add: None next_workers_def)
  next
    case False
    then have "drop (Suc i) ws ! (k - Suc i) = ws ! k" "k - Suc i < length (drop (Suc i) ws)"
      using assms by simp_all
    then have "ws ! k \<in> set (drop (Suc i) ws)" by (metis nth_mem)
    then show ?thesis by (simp add: None next_workers_def)
  qed
next
  case (Some j')
  then have "ws[i := j'] ! k = ws ! k" "k < length (ws[i := j'])" using assms by simp_all
  then have "ws ! k \<in> set (ws[i := j'])" by (metis nth_mem)
  then show ?thesis by (simp add: Some next_workers_def)
qed

text \<open>Attempts that a node fails from the first to the last.\<close>

definition never_answers :: "Node \<Rightarrow> string \<Rightarrow> (nat \<Rightarrow> attempt_env) \<Rightarrow> bool" where
  "never_answers n m attempts \<longleftrightarrow> (\<forall>k. \<exists>err. query_operation n m (attempts k) = Inl err)"

text \<open>C28: with an interval of zero, which is what \<open>main\<close> makes of any setting that is no integer, such
  as \<open>30s\<close>, the retries of a query have no limit: a scrape of a node that never answers does not
  return, so the node is not evicted by it, and the worker that fetches its summary is lost, in every
  schedule for as long as the node does not answer.\<close>

theorem zero_interval_loses_worker:
  assumes "starts s env r st" and "Seconds (scrape_interval env) = 0"
    and "executes s (started st) as w" and "Fetching m \<in> set (workers w)"
    and "executes s w bs w'"
    and silent: "\<forall>i attempts elapsed. Work i attempts elapsed \<in> set bs \<longrightarrow> never_answers (node_cfg s) m attempts"
  shows "Fetching m \<in> set (workers w') \<and>
    (\<forall>attempts elapsed pk. never_answers (node_cfg s) m attempts \<longrightarrow>
      setMetrics (prom s) (sets s) (backoff s) (map_order s) (decoder s) (node_cfg s) (pod_cfg s)
        (interval_mill s) m attempts elapsed pk = None)"
proof -
  have zero: "MaxElapsedTime (query_policy (node_cfg s)) = 0"
    using assms(2) by (simp add: query_policy_def started_interval [OF assms(1)])
  have hangs: "query_answer (backoff s) (node_cfg s) m attempts = None"
    if "never_answers (node_cfg s) m attempts" for attempts
    unfolding query_answer_def
    by (rule retrying.goes_on_forever [OF deployment_okD(5) [OF startsD(1) [OF assms(1)]] _ zero])
      (use that in \<open>simp add: never_answers_def\<close>)
  have "Fetching m \<in> set (workers w')"
  proof (rule executes_invariant [OF assms(5)], goal_cases)
    case 1
    show ?case by (rule assms(4))
  next
    case (2 a u u')
    show ?case
    proof (cases a)
      case (Work i attempts elapsed)
      obtain k where k: "k < length (workers u)" "workers u ! k = Fetching m" using 2(2) by (auto simp: in_set_conv_nth)
      have "never_answers (node_cfg s) m attempts" using silent 2(1) Work by blast
      then have "k \<noteq> i" using 2(3) Work k(2) hangs [of attempts] by auto
      then show ?thesis
        using other_worker_stays [OF k(1), of i] 2(3,4) Work k(2) by (auto split: Option.bind_splits)
    qed (use 2(2,4) in \<open>auto split: Option.bind_splits if_splits\<close>)
  qed
  then show ?thesis using setMetrics_never_returns [OF hangs] by blast
qed

definition seconds_env :: environment where
  "seconds_env = daemon_env(''SCRAPE_INTERVAL'' \<mapsto> ''30s'')"

lemma zero_interval_loses_worker_witness:
  "scrape_interval seconds_env = 0 \<and>
    (\<exists>as w. executes (demo_deployment seconds_env) (demo_world seconds_env) as w \<and>
      pending w = [''node-a''] \<and> Fetching ''node-a'' \<in> set (workers w))"
proof
  let ?s = "demo_deployment seconds_env"
  have env: "env_ok seconds_env" "DeployAsDaemonSet seconds_env" "CurrentNodeName seconds_env = ''node-a''"
    by (simp_all add: env_ok_def seconds_env_def daemon_env_def DeployAsDaemonSet_def CurrentNodeName_def GetEnv_def)
  have off: "\<not> watches_pods (collector_config seconds_env i)" for i
    by (simp add: watches_pods_def collector_config_def env_bool_def parse_bool_def ParseBool_def seconds_env_def
        daemon_env_def GetEnv_def)
  show zero: "scrape_interval seconds_env = 0"
    by (simp add: scrape_interval_def seconds_env_def GetEnv_def parse_int_def parse_uint_def digit_val_def)
  then have interval: "Seconds (scrape_interval seconds_env) = 0" by (simp add: Seconds_def)
  have "MaxNodeQueryConcurrency (node_config seconds_env i) = 10" for i
    by (simp add: node_config_def seconds_env_def daemon_env_def GetEnv_def atoi_def parse_int_def parse_uint_def digit_val_def)
  then have pool: "pool_of ?s = Some (Some 10)"
    by (simp add: pool_of_def made_pool_def ants_pool_def interval)
  let ?w = "(demo_world seconds_env)\<lparr>scrape_loop := Looping (Some (Some 10)), workers := [Fetching ''node-a'']\<rparr>"
  let ?v = "?w\<lparr>pending := [''node-a'']\<rparr>"
  have w: "executes ?s (demo_world seconds_env) [InitDone, StartRound, Invoke] ?w"
    by (rule daemonset_fetching [OF env off pool])
  have "node_set (nodes (packs ?w)) = [''node-a'']"
    using booted_boot(5) [OF env(1)] env(2,3) by (simp add: demo_world_def started_def)
  then have v: "executes ?s ?w [StartRound] ?v"
    by (intro executes_one) (simp_all add: demo_world_fields list_set_def)
  have "Fetching ''node-a'' \<in> set (workers ?v)"
    using zero_interval_loses_worker [OF demo_starts [OF env(1)] interval w [unfolded demo_world_def] _ v [unfolded demo_world_def], of "''node-a''"]
    by simp
  moreover have "pending ?v = [''node-a'']" by simp
  ultimately show "\<exists>as w. executes ?s (demo_world seconds_env) as w \<and>
      pending w = [''node-a''] \<and> Fetching ''node-a'' \<in> set (workers w)"
    using executes_trans [OF v w] by blast
qed

section \<open>The watch goroutines\<close>

text \<open>Neither watch goroutine ever returns once its handlers are registered, and a failed registration
  ends the process; the pod watch selects the pods that the initial list selects.\<close>

theorem watch_goroutines_never_return:
  "(Watch P S n register = None \<longleftrightarrow> (\<exists>u. register (node_informer n) (node_handlers P S n) = Inr u)) \<and>
    (podWatch P approx cr True register' = None \<longleftrightarrow>
      (\<exists>u. register' (pod_informer cr) (pod_handlers P approx cr) = Inr u)) \<and>
    podWatch P approx cr False register' = None \<and>
    field_selector (pod_informer cr) = FieldSelector (getPodsListOptions cr)"
  by (cases "register (node_informer n) (node_handlers P S n)"; cases "register' (pod_informer cr) (pod_handlers P approx cr)")
    (simp_all add: watch_goroutines pod_informer_def podWatch_selector_def getPodsListOptions_def)

end
