(* ===== verification/GoHttp.thy ===== *)
theory GoHttp
  imports Prelude "HOL-Library.Sublist"
begin

text \<open>
  The request multiplexer of Go's \<open>net/http\<close>: patterns are an optional method and a path without
  wildcards, a path that ends in a slash stands for its subtree.  \<open>HandleFunc\<close> panics on a pattern
  that conflicts with a registered one; \<open>dispatch\<close> answers a request for a clean path.
\<close>

section \<open>Patterns\<close>

record pattern =
  pat_method :: string
  pat_path :: string

text \<open>\<open>METHOD /path\<close> or \<open>/path\<close>.\<close>

definition parse_pattern :: "string \<Rightarrow> pattern" where
  "parse_pattern s =
     (let word = takeWhile (\<lambda>c. c \<noteq> CHR '' '') s; rest = dropWhile (\<lambda>c. c \<noteq> CHR '' '') s
      in if rest = [] then \<lparr>pat_method = '''', pat_path = s\<rparr> else \<lparr>pat_method = word, pat_path = tl rest\<rparr>)"

definition is_subtree :: "string \<Rightarrow> bool" where
  "is_subtree path \<longleftrightarrow> path \<noteq> [] \<and> last path = CHR ''/''"

definition path_matches :: "string \<Rightarrow> string \<Rightarrow> bool" where
  "path_matches pat path \<longleftrightarrow> (if is_subtree pat then prefix pat path else pat = path)"

definition method_matches :: "string \<Rightarrow> string \<Rightarrow> bool" where
  "method_matches pat meth \<longleftrightarrow> pat = '''' \<or> pat = meth \<or> pat = ''GET'' \<and> meth = ''HEAD''"

definition matches :: "pattern \<Rightarrow> string \<Rightarrow> string \<Rightarrow> bool" where
  "matches p meth path \<longleftrightarrow> method_matches (pat_method p) meth \<and> path_matches (pat_path p) path"

text \<open>Two patterns conflict when they are the same, or when some request matches both and neither
  matches only requests that the other one matches.\<close>

definition method_within :: "string \<Rightarrow> string \<Rightarrow> bool" where
  "method_within a b \<longleftrightarrow> b = '''' \<or> a = b \<or> b = ''GET'' \<and> a = ''HEAD''"

definition path_within :: "string \<Rightarrow> string \<Rightarrow> bool" where
  "path_within a b \<longleftrightarrow> (if is_subtree b then prefix b a else a = b)"

definition within :: "pattern \<Rightarrow> pattern \<Rightarrow> bool" where
  "within p q \<longleftrightarrow> method_within (pat_method p) (pat_method q) \<and> path_within (pat_path p) (pat_path q)"

definition overlap :: "pattern \<Rightarrow> pattern \<Rightarrow> bool" where
  "overlap p q \<longleftrightarrow>
     (method_within (pat_method p) (pat_method q) \<or> method_within (pat_method q) (pat_method p)) \<and>
     (path_within (pat_path p) (pat_path q) \<or> path_within (pat_path q) (pat_path p))"

definition conflict :: "pattern \<Rightarrow> pattern \<Rightarrow> bool" where
  "conflict p q \<longleftrightarrow> p = q \<or> overlap p q \<and> \<not> within p q \<and> \<not> within q p"

section \<open>The multiplexer\<close>

type_synonym 'h mux = "(pattern \<times> 'h) list"

definition HandleFunc :: "string \<times> 'h \<Rightarrow> 'h mux \<Rightarrow> 'h mux option" where
  "HandleFunc = (\<lambda>(s, h) mux.
     let p = parse_pattern s in if list_ex (\<lambda>(q, _). conflict p q) mux then None else Some (mux @ [(p, h)]))"

text \<open>The most specific of the patterns that match.\<close>

fun most_specific :: "(pattern \<times> 'h) option \<Rightarrow> (pattern \<times> 'h) list \<Rightarrow> (pattern \<times> 'h) option" where
  "most_specific best [] = best"
| "most_specific best ((p, h) # rest) =
     most_specific (case best of
         None \<Rightarrow> Some (p, h)
       | Some (q, _) \<Rightarrow> if within p q then Some (p, h) else best) rest"

definition lookup_mux :: "'h mux \<Rightarrow> string \<Rightarrow> string \<Rightarrow> (pattern \<times> 'h) option" where
  "lookup_mux mux meth path = most_specific None (filter (\<lambda>(p, _). matches p meth path) mux)"

datatype 'h dispatch = Serve 'h | TemporaryRedirect string | MethodNotAllowed | NotFound

definition exact :: "(pattern \<times> 'h) option \<Rightarrow> string \<Rightarrow> bool" where
  "exact found path \<longleftrightarrow> (case found of None \<Rightarrow> False | Some (p, _) \<Rightarrow> pat_path p = path)"

definition some_method :: "'h mux \<Rightarrow> string \<Rightarrow> bool" where
  "some_method mux path \<longleftrightarrow> list_ex (\<lambda>(p, _). path_matches (pat_path p) path) mux"

definition dispatch :: "'h mux \<Rightarrow> string \<Rightarrow> string \<Rightarrow> 'h dispatch" where
  "dispatch mux meth path =
     (let found = lookup_mux mux meth path; slash = path @ ''/''
      in if \<not> exact found path \<and> \<not> is_subtree path \<and> exact (lookup_mux mux meth slash) slash
         then TemporaryRedirect slash
         else case found of
           Some (p, h) \<Rightarrow> Serve h
         | None \<Rightarrow>
             if some_method mux path \<or> \<not> is_subtree path \<and> some_method mux slash
             then MethodNotAllowed else NotFound)"

section \<open>A multiplexer of one subtree\<close>

text \<open>Handlers under a subtree: a path has its own handler, or the one of the base.\<close>

definition under :: "string \<Rightarrow> 'h \<Rightarrow> (string \<times> 'h) list \<Rightarrow> string \<Rightarrow> string \<times> 'h" where
  "under base h leaves path = (case map_of leaves path of Some h' \<Rightarrow> (path, h') | None \<Rightarrow> (base, h))"

definition subtree_mux :: "string \<Rightarrow> string \<Rightarrow> 'h \<Rightarrow> (string \<times> 'h) list \<Rightarrow> 'h mux" where
  "subtree_mux meth base h leaves =
     map (\<lambda>(path, h). (\<lparr>pat_method = meth, pat_path = path\<rparr>, h)) ((base, h) # leaves)"

lemma no_leaf: "map_of leaves path = None \<Longrightarrow> filter (\<lambda>(q, _). q = path) leaves = []"
  by (induction leaves) (auto split: if_splits)

lemma most_specific_leaves:
  assumes "\<not> is_subtree path" and "distinct (map fst leaves)"
    and "\<And>p h. best = Some (p, h) \<Longrightarrow> pat_method p = m \<and> is_subtree (pat_path p) \<and> prefix (pat_path p) path"
  shows "most_specific best (map (\<lambda>(path, h). (\<lparr>pat_method = m, pat_path = path\<rparr>, h)) (filter (\<lambda>(q, _). q = path) leaves)) =
    (case map_of leaves path of Some h \<Rightarrow> Some (\<lparr>pat_method = m, pat_path = path\<rparr>, h) | None \<Rightarrow> best)"
proof (cases "map_of leaves path")
  case None
  then show ?thesis by (simp add: no_leaf)
next
  case (Some h)
  then have "filter (\<lambda>(q, _). q = path) leaves = [(path, h)]"
    using assms(2) by (induction leaves) (auto simp: filter_empty_conv rev_image_eqI split: if_splits)
  then show ?thesis
    using Some assms(3) by (cases best) (auto simp: within_def method_within_def path_within_def)
qed

lemma lookup_subtree_mux:
  assumes "is_subtree base" and "\<forall>(leaf, _) \<in> set leaves. \<not> is_subtree leaf \<and> prefix base leaf"
    and "distinct (map fst leaves)"
  shows "lookup_mux (subtree_mux m base h leaves) meth path =
    (if method_matches m meth \<and> prefix base path
     then Some (case under base h leaves path of (q, h) \<Rightarrow> (\<lparr>pat_method = m, pat_path = q\<rparr>, h)) else None)"
proof -
  let ?row = "\<lambda>(path, h). (\<lparr>pat_method = m, pat_path = path\<rparr>, h)"
  have leaves: "filter (\<lambda>(p, _). matches p meth path) (map ?row leaves) =
      (if method_matches m meth then map ?row (filter (\<lambda>(q, _). q = path) leaves) else [])"
    using assms(2) by (induction leaves) (auto simp: matches_def path_matches_def)
  have missing: "map_of leaves path = None" if "\<not> prefix base path \<or> is_subtree path"
    using that assms(2) by (auto simp: map_of_eq_None_iff)
  show ?thesis
  proof (cases "is_subtree path")
    case True
    then have "filter (\<lambda>(q, _). q = path) leaves = []" by (intro no_leaf missing) simp
    then show ?thesis
      using assms(1) missing True
      by (simp add: lookup_mux_def subtree_mux_def leaves under_def) (simp add: matches_def path_matches_def)
  next
    case False
    note step = most_specific_leaves [OF False assms(3), where m = m]
    show ?thesis
      using assms(1) missing step [of None] step [of "Some (\<lparr>pat_method = m, pat_path = base\<rparr>, h)"]
      by (auto simp: lookup_mux_def subtree_mux_def leaves under_def split: option.split)
        (auto simp: matches_def path_matches_def)
  qed
qed

text \<open>Further patterns that match a path only where the others do not.\<close>

lemma most_specific_append: "most_specific best (xs @ ys) = most_specific (most_specific best xs) ys"
  by (induction best xs rule: most_specific.induct) simp_all

lemma lookup_append:
  "lookup_mux (xs @ ys) meth path =
    most_specific (lookup_mux xs meth path) (filter (\<lambda>(p, _). matches p meth path) ys)"
  by (simp add: lookup_mux_def most_specific_append)

lemma lookup_more:
  assumes "lookup_mux ys meth path = None \<or> lookup_mux xs meth path = None"
  shows "lookup_mux (xs @ ys) meth path =
    (case lookup_mux ys meth path of None \<Rightarrow> lookup_mux xs meth path | Some found \<Rightarrow> Some found)"
proof -
  have found: "most_specific (Some b) zs \<noteq> None" for b :: "pattern \<times> 'a" and zs
    by (induction zs arbitrary: b) (auto split: prod.split)
  have "filter (\<lambda>(p, _). matches p meth path) ys = []" if "lookup_mux ys meth path = None"
  proof (cases "filter (\<lambda>(p, _). matches p meth path) ys")
    case (Cons y zs)
    then have "most_specific (Some y) zs = None"
      using that by (cases y) (simp add: lookup_mux_def)
    then show ?thesis using found by blast
  qed simp
  then show ?thesis
    using assms lookup_mux_def [of ys meth path] by (auto simp: lookup_append split: option.split)
qed

lemma some_method_append: "some_method (xs @ ys) path \<longleftrightarrow> some_method xs path \<or> some_method ys path"
  by (simp add: some_method_def)

lemma some_method_subtree:
  assumes "is_subtree base" and "\<forall>(leaf, _) \<in> set leaves. \<not> is_subtree leaf \<and> prefix base leaf"
  shows "some_method (subtree_mux m base h leaves) path \<longleftrightarrow> prefix base path"
  using assms by (auto simp: some_method_def subtree_mux_def path_matches_def list_ex_iff)

lemma under_map: "under base (f h) (map (apsnd f) leaves) path = apsnd f (under base h leaves path)"
proof -
  have "map_of (map (apsnd f) leaves) path = map_option f (map_of leaves path)" by (induction leaves) auto
  then show ?thesis by (simp add: under_def split: option.split)
qed

text \<open>A path that ends in a slash never has a handler of its own.\<close>

lemma under_subtree:
  assumes "\<forall>(leaf, _) \<in> set leaves. \<not> is_subtree leaf \<and> prefix base leaf" and "is_subtree path"
  shows "under base h leaves path = (base, h)"
proof -
  have "map_of leaves path = None" using assms by (auto simp: map_of_eq_None_iff)
  then show ?thesis by (simp add: under_def)
qed

lemma under_path:
  assumes "\<forall>(leaf, _) \<in> set leaves. \<not> is_subtree leaf \<and> prefix base leaf"
  shows "prefix base path \<Longrightarrow> fst (under base h leaves path) = path \<longleftrightarrow> path = base \<or> path \<in> fst ` set leaves"
  using assms by (auto simp: under_def map_of_eq_None_iff rev_image_eqI dest: map_of_SomeD split: option.split)

end
