(* ===== verification/Endpoints.thy ===== *)
theory Endpoints
  imports ClientSetup GoHttp GoTime
begin

text \<open>
  The HTTP side of the exporter: the profiling server and the log hook of \<open>pkg/dev/util.go\<close>, the
  handlers of \<open>main\<close>, and \<open>main\<close> as a whole.  \<open>listen\<close> stands for \<open>ListenAndServe\<close>: \<open>None\<close> while it
  serves, \<open>Some err\<close> when it fails.
\<close>

section \<open>Routes\<close>

datatype profile = Index | Cmdline | Profile | Symbol | Trace

datatype endpoint = Pprof profile | Health | Metrics

record 'h server =
  Addr :: string
  Handler :: "'h mux"
  ReadHeaderTimeout :: int64

definition pprof_routes :: "(string \<times> profile) list" where
  "pprof_routes =
     [(''/debug/pprof/'', Index), (''/debug/pprof/cmdline'', Cmdline), (''/debug/pprof/profile'', Profile),
      (''/debug/pprof/symbol'', Symbol), (''/debug/pprof/trace'', Trace)]"

text \<open>\<open>EnablePprof\<close>: the server, and what it logs.  \<open>None\<close> is the panic of a registration.\<close>

definition EnablePprof :: "(profile server \<Rightarrow> string option) \<Rightarrow> (profile server \<times> string list) option" where
  "EnablePprof listen = do {
     mux \<leftarrow> for_each HandleFunc pprof_routes [];
     let server = \<lparr>Addr = ''localhost:6060'', Handler = mux, ReadHeaderTimeout = Seconds 10\<rparr>;
     Some (server, case listen server of None \<Rightarrow> [] | Some err \<Rightarrow> [''Pprof could not start localhost:'']) }"

text \<open>The import of \<open>net/http/pprof\<close> registers its handlers on the default multiplexer, for \<open>GET\<close>, before
  \<open>main\<close> runs; \<open>main\<close> adds its own two.\<close>

definition pprof_init :: "(string \<times> endpoint) list" where
  "pprof_init = map (\<lambda>(path, h). (''GET '' @ path, Pprof h)) pprof_routes"

definition main_routes :: "(string \<times> endpoint) list" where
  "main_routes = [(''/health'', Health), (''/metrics'', Metrics)]"

definition default_mux :: "endpoint mux option" where
  "default_mux = do { mux \<leftarrow> for_each HandleFunc pprof_init []; for_each HandleFunc main_routes mux }"

section \<open>Handlers\<close>

text \<open>The health handler: status, and what it logs when \<open>Write\<close> fails.\<close>

definition health_handler :: "(string \<Rightarrow> string + nat) \<Rightarrow> nat \<times> string list" where
  "health_handler w_Write =
     (200, case w_Write ''OK'' of Inl err \<Rightarrow> [''Failed to write health check response''] | Inr n \<Rightarrow> [])"

datatype level = WarnLevel | InfoLevel

definition metrics_log :: "int64 \<Rightarrow> int64 \<Rightarrow> level option" where
  "metrics_log readinessTimeout duration =
     (if word_sless readinessTimeout duration then Some WarnLevel
      else if word_sless (half readinessTimeout) duration then Some InfoLevel
      else None)"

text \<open>The metrics handler passes the request to the one of \<open>promhttp\<close>.\<close>

definition metrics_handler :: "('req \<Rightarrow> 'resp) \<Rightarrow> int64 \<Rightarrow> 'req \<Rightarrow> int64 \<Rightarrow> 'resp \<times> level option" where
  "metrics_handler ServeHTTP readinessTimeout request duration =
     (ServeHTTP request, metrics_log readinessTimeout duration)"

definition readiness_timeout :: "environment \<Rightarrow> int64" where
  "readiness_timeout env = Seconds (atoi (GetEnv env ''READINESS_PROBE_TIMEOUT_SECONDS'' ''1''))"

section \<open>main\<close>

definition metrics_server :: "environment \<Rightarrow> endpoint mux \<Rightarrow> endpoint server" where
  "metrics_server env mux =
     \<lparr>Addr = '':'' @ GetEnv env ''METRICS_PORT'' ''9100'', Handler = mux, ReadHeaderTimeout = Seconds 10\<rparr>"

text \<open>\<open>main\<close>: it ends with the state of the start, the metrics server and whether the profiling
  server was started, or it stops; a listener that fails ends the process.\<close>

definition main_program ::
  "('f, 'x, 'h, 'c, 'l) client_lib \<Rightarrow> ('v, 'r) prom_api \<Rightarrow> 's set_api \<Rightarrow> environment \<Rightarrow> 'r \<Rightarrow>
    (endpoint server \<Rightarrow> string option) \<Rightarrow>
    stop + (('h, 'c) clients \<times> (Node \<times> Collector) \<times> ('v, 's, 'r) process) \<times> endpoint server \<times> bool" where
  "main_program L P S env r listen =
     (case main_start L P S env r of
        Inl e \<Rightarrow> Inl e
      | Inr running \<Rightarrow>
          (case default_mux of
             None \<Rightarrow> Inl Panic
           | Some mux \<Rightarrow>
               (case listen (metrics_server env mux) of
                  Some err \<Rightarrow> Inl Panic
                | None \<Rightarrow> Inr (running, metrics_server env mux, env_bool env ''PPROF''))))"

section \<open>The log hook\<close>

text \<open>\<open>LineInfoHook.Run\<close> adds a field to the event when \<open>runtime.Caller\<close> answers.\<close>

definition LineInfoHook_Run :: "(string \<times> nat) option \<Rightarrow> (string \<times> string) list \<Rightarrow> (string \<times> string) list" where
  "LineInfoHook_Run caller e =
     (case caller of Some (file, line) \<Rightarrow> e @ [(''line'', file @ '':'' @ nat_digits line)] | None \<Rightarrow> e)"

section \<open>Facts\<close>

definition pprof_root :: string where
  "pprof_root = ''/debug/pprof/''"

definition pprof_leaves :: "(string \<times> profile) list" where
  "pprof_leaves = tl pprof_routes"

text \<open>The handler of a profiling path.\<close>

definition profile_of :: "string \<Rightarrow> profile" where
  "profile_of path = snd (under pprof_root Index pprof_leaves path)"

lemma profile_leaves:
  "is_subtree pprof_root" "\<forall>(leaf, _) \<in> set pprof_leaves. \<not> is_subtree leaf \<and> prefix pprof_root leaf"
  "distinct (map fst pprof_leaves)"
  by code_simp+

lemma pprof_registered: "for_each HandleFunc pprof_routes [] = Some (subtree_mux '''' pprof_root Index pprof_leaves)"
  by code_simp

lemma EnablePprof_server:
  "EnablePprof listen = Some (server, lines) \<Longrightarrow> Handler server = subtree_mux '''' pprof_root Index pprof_leaves"
  using pprof_registered by (auto simp: EnablePprof_def Let_def)

lemma default_mux_routes:
  "default_mux = Some (subtree_mux ''GET'' pprof_root (Pprof Index) (map (apsnd Pprof) pprof_leaves) @
     [(\<lparr>pat_method = '''', pat_path = ''/health''\<rparr>, Health), (\<lparr>pat_method = '''', pat_path = ''/metrics''\<rparr>, Metrics)])"
  by code_simp

lemma other_leaves:
  "\<forall>(leaf, _) \<in> set (map (apsnd Pprof) pprof_leaves). \<not> is_subtree leaf \<and> prefix pprof_root leaf"
  "distinct (map fst (map (apsnd Pprof) pprof_leaves))"
  using profile_leaves(2,3) by (auto simp: comp_def)

lemma outside_root: "\<not> prefix pprof_root ''/health''" "\<not> prefix pprof_root ''/metrics''"
  by (simp_all add: pprof_root_def)

text \<open>The methods the default multiplexer serves a path's pattern for.\<close>

lemma get_matches: "method_matches ''GET'' meth \<longleftrightarrow> meth = ''GET'' \<or> meth = ''HEAD''"
  by (auto simp: method_matches_def)

lemma lookup_default:
  assumes "default_mux = Some m"
  shows "lookup_mux m meth path =
    (if path = ''/health'' then Some (\<lparr>pat_method = '''', pat_path = path\<rparr>, Health)
     else if path = ''/metrics'' then Some (\<lparr>pat_method = '''', pat_path = path\<rparr>, Metrics)
     else if (meth = ''GET'' \<or> meth = ''HEAD'') \<and> prefix pprof_root path
     then Some (\<lparr>pat_method = ''GET'', pat_path = fst (under pprof_root Index pprof_leaves path)\<rparr>, Pprof (profile_of path))
     else None)"
proof -
  let ?sub = "subtree_mux ''GET'' pprof_root (Pprof Index) (map (apsnd Pprof) pprof_leaves)"
    and ?own = "[(\<lparr>pat_method = '''', pat_path = ''/health''\<rparr>, Health), (\<lparr>pat_method = '''', pat_path = ''/metrics''\<rparr>, Metrics)]"
  have m: "m = ?sub @ ?own" using assms by (simp only: default_mux_routes option.inject)
  have sub: "lookup_mux ?sub meth path =
      (if (meth = ''GET'' \<or> meth = ''HEAD'') \<and> prefix pprof_root path
       then Some (\<lparr>pat_method = ''GET'', pat_path = fst (under pprof_root Index pprof_leaves path)\<rparr>, Pprof (profile_of path))
       else None)"
    unfolding lookup_subtree_mux [OF profile_leaves(1) other_leaves] under_map get_matches
    by (simp add: case_prod_unfold profile_of_def)
  have own: "lookup_mux ?own meth path =
      (if path = ''/health'' then Some (\<lparr>pat_method = '''', pat_path = path\<rparr>, Health)
       else if path = ''/metrics'' then Some (\<lparr>pat_method = '''', pat_path = path\<rparr>, Metrics) else None)"
    by (simp add: lookup_mux_def matches_def path_matches_def is_subtree_def method_matches_def)
  have "lookup_mux ?own meth path = None \<or> lookup_mux ?sub meth path = None"
    unfolding own sub using outside_root by auto
  from lookup_more [OF this] show ?thesis
    unfolding m own sub by simp
qed

lemma some_method_default:
  assumes "default_mux = Some m"
  shows "some_method m path \<longleftrightarrow> prefix pprof_root path \<or> path = ''/health'' \<or> path = ''/metrics''"
proof -
  have "m = subtree_mux ''GET'' pprof_root (Pprof Index) (map (apsnd Pprof) pprof_leaves) @
      [(\<lparr>pat_method = '''', pat_path = ''/health''\<rparr>, Health), (\<lparr>pat_method = '''', pat_path = ''/metrics''\<rparr>, Metrics)]"
    using assms by (simp only: default_mux_routes option.inject)
  then show ?thesis
    by (simp only: some_method_append some_method_subtree [OF profile_leaves(1) other_leaves(1)])
      (auto simp: some_method_def path_matches_def is_subtree_def)
qed

text \<open>The redirect of a path without its slash.\<close>

lemma slash_paths:
  "path @ ''/'' \<noteq> ''/health''" "path @ ''/'' \<noteq> ''/metrics''" "is_subtree (path @ ''/'')"
  "prefix pprof_root (path @ ''/'') \<longleftrightarrow> prefix pprof_root path \<or> path = ''/debug/pprof''"
  "pprof_root = path @ ''/'' \<longleftrightarrow> path = ''/debug/pprof''"
proof -
  have root: "pprof_root = ''/debug/pprof'' @ ''/''" by (simp add: pprof_root_def)
  show "pprof_root = path @ ''/'' \<longleftrightarrow> path = ''/debug/pprof''" unfolding root by auto
  then show "prefix pprof_root (path @ ''/'') \<longleftrightarrow> prefix pprof_root path \<or> path = ''/debug/pprof''"
    by (auto simp: prefix_snoc)
  have "last (path @ ''/'') \<noteq> last ''/health''" "last (path @ ''/'') \<noteq> last ''/metrics''" by simp_all
  then show "path @ ''/'' \<noteq> ''/health''" "path @ ''/'' \<noteq> ''/metrics''" by metis+
  show "is_subtree (path @ ''/'')" by (simp add: is_subtree_def)
qed

lemma exact_slash:
  assumes "default_mux = Some m"
  shows "exact (lookup_mux m meth (path @ ''/'')) (path @ ''/'') \<longleftrightarrow>
    (meth = ''GET'' \<or> meth = ''HEAD'') \<and> path = ''/debug/pprof''"
  using slash_paths [of path] under_subtree [OF profile_leaves(2) slash_paths(3), of Index path]
  by (auto simp: lookup_default [OF assms] exact_def)

text \<open>The profiling server.\<close>

lemma EnablePprof_total: "\<exists>server lines. EnablePprof listen = Some (server, lines)"
  using pprof_registered by (auto simp: EnablePprof_def Let_def)

lemma lookup_pprof:
  assumes "EnablePprof listen = Some (server, lines)"
  shows "lookup_mux (Handler server) meth path =
    (if prefix pprof_root path
     then Some (\<lparr>pat_method = '''', pat_path = fst (under pprof_root Index pprof_leaves path)\<rparr>, profile_of path)
     else None)"
  unfolding EnablePprof_server [OF assms] lookup_subtree_mux [OF profile_leaves]
  by (simp add: case_prod_unfold profile_of_def method_matches_def)

lemma dispatch_pprof:
  assumes "EnablePprof listen = Some (server, lines)" and "prefix pprof_root path"
  shows "dispatch (Handler server) meth path = Serve (profile_of path)"
proof -
  have "path \<noteq> ''/debug/pprof''" using assms(2) by (auto simp: pprof_root_def)
  then have "pprof_root \<noteq> path @ ''/''" using slash_paths(5) by blast
  then have "\<not> exact (lookup_mux (Handler server) meth (path @ ''/'')) (path @ ''/'')"
    using under_subtree [OF profile_leaves(2) slash_paths(3), of Index path]
    by (simp add: lookup_pprof [OF assms(1)] exact_def)
  then show ?thesis using assms(2) by (simp add: dispatch_def lookup_pprof [OF assms(1)])
qed

section \<open>Slow answers\<close>

text \<open>The levels for a setting in seconds whose duration is a 64-bit number.\<close>

lemma metrics_log_seconds:
  assumes "0 \<le> sint t" and "sint t \<le> max_seconds"
  shows "metrics_log (Seconds t) d =
    (if sint t * 1000000000 < sint d then Some WarnLevel
     else if sint t * 1000000000 < 2 * sint d then Some InfoLevel else None)"
proof -
  have s: "sint (Seconds t) = sint t * 1000000000" using assms by (intro sint_Seconds) simp
  have "sint t * 1000000000 sdiv 2 = sint t * 500000000"
    using assms(1) by (simp add: signed_divide_int_def sgn_if)
  then have "sint (half (Seconds t)) = sint t * 500000000" by (simp add: sint_half s)
  then show ?thesis by (auto simp: metrics_log_def word_sless_sint s)
qed

end
