(* ===== verification/EndpointProperties.thy ===== *)
theory EndpointProperties
  imports Endpoints StartProperties
begin

text \<open>
  Properties of the HTTP side: what the metrics port answers, and what the exporter logs of slow
  answers.
\<close>

section \<open>Routes\<close>

lemma exact_None [simp]: "\<not> exact None path"
  by (simp add: exact_def)








section \<open>Slow answers\<close>

text \<open>The timing around the metrics endpoint never changes the answer; for a readiness timeout of
  \<open>t\<close> seconds within the 64-bit range an answer is logged as a warning exactly when it took longer than
  the timeout, as information exactly when it took longer than half of it but not longer than all of
  it, and otherwise not; one second beyond that range the timeout has wrapped around and every answer is
  a warning.\<close>

theorem slow_answer_levels:
  assumes "0 \<le> sint duration"
  shows "fst (metrics_handler ServeHTTP (Seconds t) request duration) = ServeHTTP request \<and>
    (0 \<le> sint t \<and> sint t \<le> 9223372036 \<longrightarrow>
      snd (metrics_handler ServeHTTP (Seconds t) request duration) =
      (if sint t * 1000000000 < sint duration then Some WarnLevel
       else if sint t * 1000000000 < 2 * sint duration then Some InfoLevel else None)) \<and>
    (sint t = 9223372037 \<longrightarrow>
      snd (metrics_handler ServeHTTP (Seconds t) request duration) = Some WarnLevel)"
proof (intro conjI impI)
  assume wrapped: "sint t = 9223372037"
  have "t = word_of_int (sint t)" by simp
  also note wrapped
  finally have "t = word_of_int 9223372037" .
  then have "sint (Seconds t) < 0" using Seconds_overflow [unfolded max_seconds_plus] by simp
  then show "snd (metrics_handler ServeHTTP (Seconds t) request duration) = Some WarnLevel"
    using assms by (simp add: metrics_handler_def metrics_log_def word_sless_sint)
qed (use metrics_log_seconds [of t duration] in \<open>simp_all add: metrics_handler_def max_seconds_def\<close>)

lemma slow_answer_levels_witness:
  "snd (metrics_handler id (Seconds 1) ''GET'' 700000000) = Some InfoLevel"
  using slow_answer_levels [of 700000000 id 1 "''GET''"] by simp

end
