(* ===== verification/Spec2Isabelle.thy ===== *)
theory Spec2Isabelle
  imports PodProperties NodeProperties SummaryProperties StartProperties GhostSeries ScheduleProperties EndpointProperties
begin

text \<open>
  Verification of \<^bold>\<open>k8s-ephemeral-storage-metrics\<close>, a Prometheus exporter for the ephemeral storage
  that the pods of a Kubernetes cluster use.

  \<^bold>\<open>The program.\<close>  Every scrape interval \<open>getMetrics\<close> (\<open>cmd/app/main.go\<close>) hands the nodes of a set
  to a pool of workers.  A worker runs \<open>setMetrics\<close>: it fetches the stats summary of its node
  (\<open>Query\<close>, \<open>pkg/node/k8s.go\<close>), decodes it, evicts the pods that have been missing for
  \<open>SCRAPE_MISS_TOLERANCE\<close> scrapes (\<open>EvictStalePods\<close>, \<open>pkg/pod/metrics.go\<close>) and sets the node's and
  the pods' gauges (\<open>SetMetrics\<close> of both packages).  A failed query evicts the node.  Beside the
  loop run, in Deployment mode, a node watch that fills the set and evicts deleted nodes, and, when a
  limit percentage is enabled, a pod watch that keeps the table of the pods' limits and emptyDir
  mounts.  \<open>main\<close> makes the logger, the clients and the collectors and starts all this.

  \<^bold>\<open>The theories\<close>, in the order of their imports:
  \<^item> \<open>Prelude\<close>: loops whose body may panic (\<open>for_each\<close>), 64-bit integers, lemmas on maps;
    \<open>Float64\<close>: binary64 numbers with rounding to nearest even, Go's comparisons, \<open>math.Min\<close>,
    \<open>math.Max\<close>; \<open>GoStd\<close>: \<open>strconv\<close> and \<open>net\<close>; \<open>GoJson\<close>: \<open>encoding/json\<close>, from the scanner to the
    storing by reflection; \<open>JsonText\<close>: the rendering of a JSON value is scanned and parsed back.
  \<^item> \<open>Libraries\<close>: the interfaces of the Prometheus client and of the set library as locales, with
    reference instances; \<open>Eviction\<close>: the contract all three evictions share; \<open>GoTime\<close>: durations
    and their overflow; \<open>WorkerPool\<close>: the worker pool as a locale; \<open>GoHttp\<close>: the request
    multiplexer of \<open>net/http\<close>.
  \<^item> \<open>PodMetrics\<close> and \<open>PodMetricsSpec\<close>: \<open>pkg/pod/metrics.go\<close>, the 21 vectors, \<open>SetMetrics\<close>,
    \<open>evictPodByName\<close>, \<open>EvictPodByNode\<close>; \<open>SetMetrics\<close> refines the list of its gauge writes.
  \<^item> \<open>PodTracker\<close>: \<open>EvictStalePods\<close>, its specification per call, and the locale
    \<open>scrape_tracker\<close> that derives the behaviour over whole histories of scrapes.
  \<^item> \<open>Config\<close>: the environment, \<open>pkg/dev/util.go\<close>; \<open>PodCollector\<close>, \<open>PodCollectorSpec\<close>:
    \<open>pkg/pod/k8s.go\<close> and \<open>factory.go\<close>; \<open>NodeCollector\<close>, \<open>NodeCollectorSpec\<close>: \<open>pkg/node\<close>.
  \<^item> \<open>Scrape\<close>, \<open>ScrapeSpec\<close>: one scrape and the start of the collectors, \<open>cmd/app/main.go\<close>;
    \<open>StatsSummary\<close>, \<open>StatsSummarySpec\<close>, \<open>KubeletStats\<close>: the decoding of the summary, its type
    safety, and the round trip of kubelet documents; \<open>ClientSetup\<close>: the clients and the start of
    \<open>main\<close>; \<open>Endpoints\<close>: the profiling server, the HTTP handlers and all of \<open>main\<close>; \<open>Watches\<close>: the
    two watch goroutines around their handlers.
  \<^item> \<open>System\<close>, \<open>SystemSpec\<close>: the running exporter as a step relation over schedules, its
    invariants by rule induction; \<open>GhostSeries\<close>: how a deleted node's gauges stay behind;
    \<open>PodTable\<close>: the pod table refines the news of the schedule, and the order of the pod list.
  \<^item> \<open>Demo\<close>, \<open>DemoRun\<close>: a concrete exporter for the witnesses.
  \<^item> \<open>PodProperties\<close>, \<open>NodeProperties\<close>, \<open>SummaryProperties\<close>, \<open>StartProperties\<close>,
    \<open>ScheduleProperties\<close>, \<open>EndpointProperties\<close> and this theory: the properties, numbered C1 to C40 by importance.

  \<^bold>\<open>State and errors.\<close>  The package variables are the records \<open>pod_state\<close> and \<open>node_state\<close>, together
  \<open>packages\<close>; the configuration a constructor fixes is \<open>Collector\<close> and \<open>Node\<close>.  A statement that can
  panic is a function into an option, \<open>None\<close> being the panic (a nil vector, a wrong label set); a
  Go error is the left side of a sum; ending the process is a value of \<open>stop\<close>.  Integers are
  64-bit words, floats binary64.  A map that is ranged over is visited in an order that is a parameter
  (\<open>range_order\<close>) or a list in the order of the visit.

  \<^bold>\<open>Parameters.\<close>  The Prometheus client (\<open>prometheus\<close>: a vector keeps the last value set per label
  set, \<open>With\<close> panics exactly on a wrong label set, \<open>DeletePartialMatch\<close> deletes the series that
  contain the selector, registration succeeds on a valid fresh name), the set of node names
  (\<open>name_set\<close>), the worker pool (\<open>worker_pool\<close>: a negative expiry is refused, and a size of 32 bits is
  the capacity), \<open>backoff.Retry\<close> (\<open>retrying\<close>: the first success, or the last error when it gives up;
  it returns when the elapsed time is limited, and goes on until a success when \<open>MaxElapsedTime\<close> is
  zero), \<open>resource.Quantity\<close>, the
  functions of client-go and zerolog, the API server's answers, and the decoder of a summary: the
  properties of a scrape hold for every decoder, and \<open>decode_summary\<close> is the one of the code.

  \<^bold>\<open>Schedules.\<close>  A worker's step is one of: query and decode, evict the stale pods, set one pod,
  adjust the polling rate; a handler call, the entry of one pod of the initial list and the end of the
  list are one step each.  A query is a step when its retries end; one whose retries never end keeps
  its worker.  The vectors lock
  for each single call, so finer interleavings exist inside a step; the steps are the points where
  the code changes what the next step of another goroutine reads from the packages' maps.
  \<open>getMetrics\<close> starts in \<open>Waiting\<close>: it leaves the initial wait when the wait group's counter is zero
  (\<open>InitDone\<close>) or when its timer of twice the interval fires (\<open>InitTimeout\<close>), and then makes the pool,
  which is nil when its constructor refuses.  The end of the initial list ends the wait group's count;
  the pod watch starts after it.  The pool admits as many workers as \<open>MAX_NODE_CONCURRENCY\<close>, or
  any number when that is not positive.  A list that fails ends the process, so no schedule
  continues after it.

  \<^bold>\<open>Termination.\<close>  All functions are total except three.  \<open>list_pods\<close>, the paging loop, is a partial
  function: it returns exactly when the server serves finitely many pages.  \<open>await_stop\<close>, the end of a
  watch goroutine, never returns because nothing closes its channel.  \<open>Query\<close> is \<open>None\<close>, as after a
  panic, when \<open>backoff.Retry\<close> never returns: its policy limits the retries unless the scrape interval is
  zero, so the liveness properties ask for an interval of positive duration, and C28 is what happens
  at zero.  The scrape loop runs
  forever and is a relation on finite schedules.  \<open>encoding/json\<close> refuses documents nested deeper
  than 10000; the kubelet documents of the round trip are at most 105 deep.

  \<^bold>\<open>Not modelled.\<close>  The text \<open>promhttp\<close> makes of the registry and the profiling handlers' answers (they
  are names), the informers' caches (any sequence of handler calls is allowed once the watch runs),
  log lines except where their level or existence is the point, and the clock: elapsed times are
  inputs.  \<open>SetWatchStarter\<close> is a hook for tests.  Requests are for clean paths; \<open>net/http\<close> redirects
  the others to their clean form.
\<close>

section \<open>Safety of every schedule\<close>

text \<open>C1: once start-up is done with a scrape interval whose duration is not negative, the exporter
  never panics: after any schedule of scrapes, node events and pod events, every action the code can
  take next runs to its end, and the miss counters of all nodes lie in \<open>[0, tolerance)\<close> for the
  tolerance of the configuration.\<close>

theorem exporter_never_panics:
  assumes "starts s env r st" and "0 \<le> sint (Seconds (scrape_interval env))"
    and "executes s (started st) as w" and "enabled s a w"
  shows "perform s a w \<noteq> None \<and> world_ready s w \<and>
    scrapeMissTolerance (pods (packs w)) = miss_tolerance env \<and>
    (\<forall>n p misses. node_seen (pods (packs w)) n p = Some misses \<longrightarrow>
      0 \<le> sint misses \<and> sint misses < sint (miss_tolerance env))"
proof -
  note d = startsD [OF assms(1)]
  have w: "world_ready s w" "scrapeMissTolerance (pods (packs w)) = miss_tolerance env"
    using executes_ready [OF assms(3) d(1,4)] d(6) by auto
  moreover have "scrape_loop w \<noteq> Looping None" by (rule pool_not_nil [OF assms(1-3)])
  moreover have "trackers_ok (pods (packs w))" using w(1) by (simp add: packages_ready_def)
  ultimately show ?thesis
    using perform_ok [OF d(1) w(1) assms(4)] by (auto simp: trackers_ok_def seen_ok_def)
qed

lemma exporter_never_panics_witness:
  "perform (demo_deployment demo_env) (NodeDeleted (Typed demo_node)) (demo_world demo_env) \<noteq> None"
proof -
  have "enabled (demo_deployment demo_env) (NodeDeleted (Typed demo_node)) (demo_world demo_env)"
    by (simp add: demo_deployment_def StartWatch_def node_config_def demo_env_def)
  then show ?thesis
    using exporter_never_panics [OF demo_starts [OF env_ok_demo(1)] _ executes_nothing,
        of "NodeDeleted (Typed demo_node)"] by (simp add: demo_world_def demo_pool)
qed

text \<open>C5: at any time every exported series carries exactly the label names its vector was
  declared with, the node's name among them.\<close>

theorem every_series_labelled:
  assumes "starts s env r st" and "executes s (started st) as w" and "series s w k ls = Some x"
  shows "dom ls = set (variable_labels (vec_desc k)) \<and> (\<exists>m. ls ''node_name'' = Some m)"
proof -
  note d = startsD [OF assms(1)]
  have "case (k, ls, x) of (k, ls, x) \<Rightarrow>
      dom ls = set (variable_labels (vec_desc k)) \<and> (\<exists>m. ls ''node_name'' = Some m)"
  proof (rule executes_series [OF assms(2) d(1,4) _ _ assms(3)])
    fix table elapsed j wr assume "wr \<in> set (job_writes s table elapsed j)"
    from job_writes_for [OF this]
    show "case wr of (k, ls, x) \<Rightarrow>
        dom ls = set (variable_labels (vec_desc k)) \<and> (\<exists>m. ls ''node_name'' = Some m)"
      by (auto simp: write_for_def)
  qed (simp add: d(5))
  then show ?thesis by simp
qed

lemma every_series_labelled_witness:
  "\<exists>as w. executes (demo_deployment demo_env) (demo_world demo_env) as w \<and>
    dom (pod_labels ''default'' ''web'' ''node-a'') = set (variable_labels (vec_desc (PodVec podGaugeVec)))"
proof -
  obtain as w where run: "executes (demo_deployment demo_env) (demo_world demo_env) as w"
      "series (demo_deployment demo_env) w (PodVec podGaugeVec) (pod_labels ''default'' ''web'' ''node-a'') = Some (Fin 4096)"
    using demo_round by blast
  show ?thesis
    using every_series_labelled [OF demo_starts [OF env_ok_demo(1)] run [unfolded demo_world_def]]
      run(1) by blast
qed

text \<open>C14: at any time the limit percentage shown for a container with a limit (source
  \<open>container\<close>) and the one shown for an emptyDir volume is at most 100 (or NaN).  The series with
  source \<open>node\<close>, of containers without a limit, show the node's used share, which the code does not
  cap.\<close>

theorem limit_percentages_capped:
  assumes "starts s env r st" and "executes s (started st) as w"
    and limit: "k = PodVec containerPercentageVolumeLimitsVec \<or>
      k = PodVec containerPercentageLimitsVec \<and> ls ''source'' = Some ''container''"
    and x: "series s w k ls = Some x"
  shows "\<not> Fin 100 < x"
proof -
  note d = startsD [OF assms(1)]
  have "capped (k, ls, x)"
    by (rule executes_series [OF assms(2) d(1,4) _ job_writes_capped x]) (simp_all add: d(5))
  then show ?thesis using limit by (auto simp: capped_def limit_series_def)
qed

lemma limit_percentages_capped_witness:
  "\<exists>as w x. executes (demo_deployment demo_env) (demo_world demo_env) as w \<and>
    series (demo_deployment demo_env) w (PodVec containerPercentageLimitsVec)
      ((container_labels ''default'' ''web'' ''node-a'' ''nginx'')(''source'' \<mapsto> ''container'')) = Some x \<and>
    \<not> Fin 100 < x"
proof -
  let ?ls = "(container_labels ''default'' ''web'' ''node-a'' ''nginx'')(''source'' \<mapsto> ''container'')"
  obtain as w x where run: "executes (demo_deployment demo_env) (demo_world demo_env) as w"
      "series (demo_deployment demo_env) w (PodVec containerPercentageLimitsVec) ?ls = Some x"
    using demo_round by blast
  have "\<not> Fin 100 < x"
    by (rule limit_percentages_capped [OF demo_starts [OF env_ok_demo(1)] run(1) [unfolded demo_world_def] _ run(2)])
      simp
  then show ?thesis using run by blast
qed

text \<open>C36: the volume usage metric is dead when it is enabled without a limit percentage: the pod
  list and the pod watch only run for the limit percentages, so the lookup table that the volume
  usage is computed from stays empty, and no schedule ever shows a volume usage series.\<close>

theorem volume_usage_alone_shows_nothing:
  assumes "starts s env r st" and "executes s (started st) as w"
    and "\<not> cr_containerLimitsPercentage (pod_cfg s)" and "\<not> cr_containerVolumeLimitsPercentage (pod_cfg s)"
  shows "series s w (PodVec containerVolumeUsageVec) ls = None"
proof -
  note d = startsD [OF assms(1)]
  show ?thesis
    by (rule volume_usage_never_written [OF assms(2) d(1,4) _ _ d(11)])
      (use assms(3,4) in \<open>simp_all add: watches_pods_def d(5,12)\<close>)
qed

lemma volume_usage_alone_shows_nothing_witness:
  "\<exists>as w. executes (demo_deployment daemon_env) (demo_world daemon_env) as w \<and> as \<noteq> [] \<and>
    series (demo_deployment daemon_env) w (PodVec containerVolumeUsageVec) Map.empty = None"
proof -
  obtain w where w: "executes (demo_deployment daemon_env) (demo_world daemon_env) [InitDone, StartRound, Invoke, Work 0 failing 0] w"
    using failed_scrape_empties_daemonset by blast
  have "series (demo_deployment daemon_env) w (PodVec containerVolumeUsageVec) Map.empty = None"
    by (rule volume_usage_alone_shows_nothing [OF demo_starts [OF env_ok_demo(2)] w [unfolded demo_world_def]])
      (simp_all add: collector_config_def env_bool_def parse_bool_def ParseBool_def daemon_env_def GetEnv_def)
  then show ?thesis using w by blast
qed

text \<open>At most \<open>MAX_NODE_CONCURRENCY\<close> nodes are being scraped at a time, when that is positive and
  fits into 32 bits.\<close>

theorem scrapes_bounded:
  assumes "starts s env r st" and "executes s (started st) as w"
    and "0 < sint (MaxNodeQueryConcurrency (node_cfg s))" and "sint (MaxNodeQueryConcurrency (node_cfg s)) < 2 ^ 31"
  shows "int (length (workers w)) \<le> sint (MaxNodeQueryConcurrency (node_cfg s))"
  using workers_bounded [OF startsD(1) [OF assms(1)] executes_loop_ok [OF assms(2) loop_ok_started] assms(3,4)] .

lemma scrapes_bounded_witness:
  "int (length (workers (demo_world demo_env))) \<le>
    sint (MaxNodeQueryConcurrency (node_config demo_env (scrape_interval demo_env)))"
proof -
  have "sint (atoi ''10'') = 10"
    by (simp add: atoi_def parse_int_def parse_uint_def digit_val_def)
  then have "sint (MaxNodeQueryConcurrency (node_cfg (demo_deployment demo_env))) = 10"
    by (simp add: node_config_def demo_env_def)
  then show ?thesis
    using scrapes_bounded [OF demo_starts [OF env_ok_demo(1)] executes_nothing] by (simp add: demo_world_def)
qed

section \<open>Which nodes are scraped and shown\<close>

text \<open>C6: in DaemonSet mode the exporter only ever scrapes the node it runs on, and only ever shows
  series of that node.\<close>

theorem daemonset_only_its_node:
  assumes "starts s env r st" and "DeployAsDaemonSet env" and "executes s (started st) as w"
  shows "scraping s w \<union> shown s w \<subseteq> {CurrentNodeName env}"
proof -
  note d = startsD [OF assms(1)]
  have "\<not> StartWatch (node_cfg s)" using d(10) assms(2) by simp
  then show ?thesis
    using nodes_in_play [OF assms(3) d(1,4)] no_watch_no_news [OF assms(3)] d(7,8) assms(2) by simp
qed

lemma daemonset_only_its_node_witness:
  "scraping (demo_deployment daemon_env) (demo_world daemon_env) \<subseteq> {''node-a''}"
  using daemonset_only_its_node [OF demo_starts [OF env_ok_demo(2)] _ executes_nothing]
  by (simp add: demo_world_def DeployAsDaemonSet_def CurrentNodeName_def daemon_env_def)

text \<open>C7: in Deployment mode a node is scraped or shown only if an add or an update event of the
  schedule reported it ready.\<close>

theorem deployment_only_ready_nodes:
  assumes "starts s env r st" and "\<not> DeployAsDaemonSet env" and "executes s (started st) as w"
    and m: "m \<in> scraping s w \<union> shown s w"
  shows "\<exists>p. (NodeAdded (Typed p) \<in> set as \<or> NodeUpdated (Typed p) \<in> set as) \<and> n_Name p = m \<and>
    ''KubeletReady'' \<in> set (n_ConditionReasons p)"
proof -
  note d = startsD [OF assms(1)]
  have "m \<in> \<Union> (announced ` set as)"
    using nodes_in_play [OF assms(3) d(1,4)] d(7,8) assms(2) m by auto
  then obtain a where a: "a \<in> set as" "m \<in> announced a" by blast
  then show ?thesis
    by (cases a rule: announced.cases) (auto simp: ready_name_def split: if_splits)
qed

lemma deployment_only_ready_nodes_witness:
  "\<exists>p. (NodeAdded (Typed p) \<in> set demo_prelude \<or>
      NodeUpdated (Typed p) \<in> set demo_prelude) \<and> n_Name p = ''node-a''"
proof -
  have "''node-a'' \<in> scraping (demo_deployment demo_env) demo_listed"
    using demo_listed_fields(4) by (simp add: scraping_def)
  then show ?thesis
    using deployment_only_ready_nodes [OF demo_starts [OF env_ok_demo(1)] _
        demo_listed_reached [unfolded demo_world_def], of "''node-a''"]
    by (auto simp: DeployAsDaemonSet_def demo_env_def)
qed

text \<open>C8: a delete event of a node that is not being scraped and not due in the current round takes
  the node away for good: no later schedule shows or scrapes it before an event reports it ready
  again.\<close>

theorem deleted_node_stays_away:
  assumes "starts s env r st" and "executes s (started st) as w"
    and "perform s (NodeDeleted obj) w = Some w'" and p: "deleted_object obj = Some p"
    and idle: "n_Name p \<notin> set (pending w) \<union> job_node ` set (workers w)"
    and "executes s w' bs w''" and "\<forall>a \<in> set bs. n_Name p \<notin> announced a"
  shows "n_Name p \<notin> scraping s w'' \<union> shown s w''"
proof -
  note d = startsD [OF assms(1)]
  have w: "world_ready s w" using executes_ready [OF assms(2) d(1,4)] ..
  have w': "world_ready s w'"
    using prometheus.Watch_DeleteFunc_ok [OF deployment_okD(1) [OF d(1)] w, of "sets s" obj] assms(3) by auto
  have "n_Name p \<notin> scraping s w' \<union> shown s w'"
    by (rule node_deleted_gone [OF d(1) w assms(3) p idle])
  then show ?thesis
    using nodes_in_play [OF assms(6) d(1) w'] assms(7) by blast
qed

lemma deleted_node_stays_away_witness:
  "\<exists>w'. perform (demo_deployment demo_env) (NodeDeleted (Typed demo_node)) demo_listed = Some w' \<and>
    ''node-a'' \<notin> scraping (demo_deployment demo_env) w' \<union> shown (demo_deployment demo_env) w'"
proof -
  let ?s = "demo_deployment demo_env"
  have "enabled ?s (NodeDeleted (Typed demo_node)) demo_listed"
    by (simp add: StartWatch_def node_config_def demo_env_def)
  then obtain w' where w': "perform ?s (NodeDeleted (Typed demo_node)) demo_listed = Some w'"
    using perform_ok [OF demo_deployment_ok demo_listed_fields(6)] by blast
  have "n_Name demo_node \<notin> scraping ?s w' \<union> shown ?s w'"
    by (rule deleted_node_stays_away [OF demo_starts [OF env_ok_demo(1)] demo_listed_reached [unfolded demo_world_def]
          w' _ _ executes_nothing]) (simp_all add: demo_listed_fields)
  then show ?thesis using w' by (simp add: demo_node_def)
qed

text \<open>C34: without that premise it fails for good: when a worker still has a pod of the deleted node
  to set, the event takes every series of the node away, and the worker's next step brings the
  node's available bytes back, if that gauge is enabled.  When no other scrape of the node is due or
  about to query it, the node is never queried again, and the series stays, never refreshed and never
  evicted, in every schedule in which no event names the node again.\<close>

theorem scrape_in_flight_revives_deleted_node:
  assumes "starts s env r st" and "executes s (started st) as w"
    and job: "i < length (workers w)" "workers w ! i = Setting m (p # ps)" "\<not> no_metrics p" "nodeAvailable (node_cfg s)"
    and alone: "Fetching m \<notin> set (workers w)" "m \<notin> set (pending w)"
    and del: "perform s (NodeDeleted (Typed q)) w = Some w1" "n_Name q = m"
    and next1: "perform s (Work i attempts elapsed) w1 = Some w2"
    and later: "executes s w2 bs w3" "\<forall>a \<in> set bs. m \<notin> announced a \<and> deleted_name a \<noteq> Some m"
  shows "m \<notin> shown s w1 \<and> unqueried s m w3 \<and>
    series s w3 (NodeVec nodeAvailableGaugeVec) [''node_name'' \<mapsto> m] \<noteq> None"
proof -
  note ok = startsD(1) [OF assms(1)]
  have ready: "world_ready s w" using executes_ready [OF assms(2) ok startsD(4) [OF assms(1)]] ..
  obtain pk1 where pk1: "Watch_DeleteFunc (prom s) (sets s) (node_cfg s) (Typed q) (packs w) = Some pk1"
      "packages_ready (prom s) (node_cfg s) pk1"
      "node_set (nodes pk1) = set_remove (sets s) m (node_set (nodes (packs w)))"
      "exported (prom s) pk1 = dropped (node_series m) (series s w)"
    using prometheus.Watch_DeleteFunc_ok [OF deployment_okD(1) [OF ok] ready, of "sets s" "Typed q"] del(2)
    by auto
  have w1: "w1 = w\<lparr>packs := pk1\<rparr>" using del(1) pk1(1) by simp
  have gone: "m \<notin> shown s w1" using pk1(4) shown_dropped [of s w1 m w] by (simp add: w1)
  have idle: "unqueried s m w1"
    using name_set.slice_remove [OF deployment_okD(2) [OF ok]] pk1(3) alone by (simp add: unqueried_def slice_of_def w1)
  have en: "enabled s (Work i attempts elapsed) w1" and ready1: "world_ready s w1" using job(1,2) pk1(2) by (simp_all add: w1)
  obtain pk2 where pk2: "set_pod (prom s) (node_cfg s) (pod_cfg s) m p pk1 = Some pk2"
      "exported (prom s) pk2 = after_writes (summary_pod_writes (node_cfg s) (pod_cfg s) (lookup (pods pk1)) m p)
        (exported (prom s) pk1)"
    using prometheus.set_pod_ok [OF deployment_okD(1) [OF ok] pk1(2), of "pod_cfg s" m p] by blast
  have "series s w2 = exported (prom s) pk2" using next1 pk2(1) job(2) by (auto simp: w1)
  then have "series s w2 (NodeVec nodeAvailableGaugeVec) [''node_name'' \<mapsto> m] \<noteq> None"
    unfolding pk2(2) using job(3,4)
    by (simp add: after_writes_def summary_pod_writes_def node_writes_def last_write_append Let_def split: option.split)
  moreover have "unqueried s m w2" by (rule perform_unqueried [OF ok ready1 en next1 idle]) simp
  moreover have "world_ready s w2" by (rule perform_step(1) [OF ok ready1 en next1])
  ultimately show ?thesis
    using ghost_gauges_stay [OF later(1) ok, of m "[''node_name'' \<mapsto> m]" nodeAvailableGaugeVec] later(2) gone by simp
qed

lemma scrape_in_flight_revives_deleted_node_witness:
  "\<exists>as w w1 w2. executes (demo_deployment demo_env) (demo_world demo_env) as w \<and>
    perform (demo_deployment demo_env) (NodeDeleted (Typed demo_node)) w = Some w1 \<and>
    perform (demo_deployment demo_env) (Work 0 failing 0) w1 = Some w2 \<and>
    unqueried (demo_deployment demo_env) ''node-a'' w2 \<and>
    series (demo_deployment demo_env) w2 (NodeVec nodeAvailableGaugeVec) [''node_name'' \<mapsto> ''node-a''] \<noteq> None"
proof -
  let ?s = "demo_deployment demo_env"
  obtain as w where run: "executes ?s (demo_world demo_env) as w"
      and job: "workers w = [Setting ''node-a'' [demo_pod]]" "pending w = []"
    using demo_setting by blast
  have ready: "world_ready ?s w"
    using executes_ready [OF run demo_deployment_ok demo_world_ready [OF env_ok_demo(1)]] ..
  have "enabled ?s (NodeDeleted (Typed demo_node)) w"
    by (simp add: StartWatch_def node_config_def demo_env_def)
  then obtain w1 where w1: "perform ?s (NodeDeleted (Typed demo_node)) w = Some w1" "world_ready ?s w1"
    using perform_ok [OF demo_deployment_ok ready] by blast
  then have "workers w1 = [Setting ''node-a'' [demo_pod]]" using job by (auto split: Option.bind_splits)
  then have "enabled ?s (Work 0 failing 0) w1" by simp
  then obtain w2 where w2: "perform ?s (Work 0 failing 0) w1 = Some w2"
    using perform_ok [OF demo_deployment_ok w1(2)] by blast
  have "unqueried ?s ''node-a'' w2 \<and>
      series ?s w2 (NodeVec nodeAvailableGaugeVec) [''node_name'' \<mapsto> ''node-a''] \<noteq> None"
    using scrape_in_flight_revives_deleted_node [OF demo_starts [OF env_ok_demo(1)] run [unfolded demo_world_def]
        _ _ _ _ _ _ w1(1) _ w2 executes_nothing, of "''node-a''" demo_pod "[]"] job
    by (simp add: no_metrics_def demo_pod_def demo_node_def f64_eq_def node_config_def demo_env_def env_bool_def
        GetEnv_def parse_bool_def ParseBool_def)
  then show ?thesis using run w1(1) w2 by blast
qed

text \<open>C35: a DaemonSet exporter that loses its node once never scrapes again: from a state in which
  the node is out of the set and no scrape is under way, no schedule starts one, because only the
  node watch puts nodes into the set and a DaemonSet does not run it.\<close>

theorem daemonset_never_recovers:
  assumes "deployment_ok s" and "world_ready s w" and "deployType (node_cfg s) \<noteq> ''Deployment''"
    and "to_slice (sets s) (node_set (nodes (packs w))) = []" and "pending w = []" and "workers w = []"
    and "executes s w as w'"
  shows "to_slice (sets s) (node_set (nodes (packs w'))) = [] \<and> pending w' = [] \<and> workers w' = []"
proof -
  have "\<not> StartWatch (node_cfg s)" using assms(3) by (simp add: StartWatch_def)
  then have "scraping s w' = {}"
    using executes_scraping [OF assms(7,1,2)] no_watch_no_news [OF assms(7)] assms(4-6)
    by (simp add: scraping_def)
  then show ?thesis by (auto simp: scraping_def)
qed

lemma daemonset_never_recovers_witness:
  "\<exists>w. executes (demo_deployment daemon_env) (demo_world daemon_env) [InitDone, StartRound, Invoke, Work 0 failing 0] w \<and>
    (\<forall>as w'. executes (demo_deployment daemon_env) w as w' \<longrightarrow> workers w' = [])"
proof -
  let ?s = "demo_deployment daemon_env"
  obtain w where w: "executes ?s (demo_world daemon_env) [InitDone, StartRound, Invoke, Work 0 failing 0] w"
      "to_slice list_set (node_set (nodes (packs w))) = []" "pending w = []" "workers w = []"
    using failed_scrape_empties_daemonset by blast
  have ready: "world_ready ?s w"
    using executes_ready [OF w(1) demo_deployment_ok demo_world_ready [OF env_ok_demo(2)]] ..
  have "workers w' = []" if "executes ?s w as w'" for as w'
    using daemonset_never_recovers [OF demo_deployment_ok ready _ _ w(3,4) that] w(2)
    by (simp add: node_config_def daemon_env_def)
  then show ?thesis using w(1) by blast
qed

section \<open>Rounds and scrapes\<close>

text \<open>C9: with an interval of positive duration, which limits the retries of a query, and a
  \<open>MAX_NODE_CONCURRENCY\<close> below \<open>2 ^ 31\<close>, a round reaches every node of the set: from any state of a
  schedule in which the initial wait is over and no scrape is due or under way, there is a schedule
  that scrapes, one after the other, exactly the nodes of the set, each with the whole effect of
  \<open>setMetrics\<close>, and leaves the loop ready for the next round, whatever the nodes answer to each
  attempt.\<close>

theorem round_scrapes_every_node:
  assumes "starts s env r st" and "0 < sint (Seconds (scrape_interval env))"
    and "sint (MaxNodeQueryConcurrency (node_cfg s)) < 2 ^ 31"
    and "executes s (started st) bs w" and "scrape_loop w \<noteq> Waiting" and "pending w = []" and "workers w = []"
  shows "\<exists>as w'. executes s w as w' \<and> pending w' = [] \<and> workers w' = [] \<and> world_ready s w' \<and>
    for_each (\<lambda>m. setMetrics (prom s) (sets s) (backoff s) (map_order s) (decoder s) (node_cfg s) (pod_cfg s)
        (interval_mill s) m (attempts m) (elapsed m))
      (to_slice (sets s) (node_set (nodes (packs w)))) (packs w) = Some (packs w')"
proof -
  note d = startsD [OF assms(1)]
  have ready: "world_ready s w" using executes_ready [OF assms(4) d(1,4)] ..
  have limit: "Seconds (sampleInterval (node_cfg s)) \<noteq> 0" by (rule started_retries_limited [OF assms(1,2)])
  obtain pk' where pk': "for_each (scrape_node s attempts elapsed) (to_slice (sets s) (node_set (nodes (packs w)))) (packs w) = Some pk'"
      "packages_ready (prom s) (node_cfg s) pk'"
    using scrape_nodes_total [OF d(1) ready limit] by blast
  obtain as where "executes s w as (w\<lparr>packs := pk'\<rparr>)"
    using started_round [OF assms(1) less_imp_le [OF assms(2)] assms(4-7) pk'(1) assms(3)] by (auto simp: can_reach_def)
  then show ?thesis
    using pk' assms(6,7) by (intro exI [of _ as] exI [of _ "w\<lparr>packs := pk'\<rparr>"]) (simp add: scrape_node_def [abs_def])
qed

lemma round_scrapes_every_node_witness:
  "\<exists>as w'. executes (demo_deployment demo_env) demo_listed as w' \<and> workers w' = [] \<and>
    setMetrics mem_prom list_set (retry_upto 2) sorted_keys demo_decoder
      (node_config demo_env (scrape_interval demo_env)) (collector_config demo_env (scrape_interval demo_env))
      (sample_interval_mill demo_env) ''node-a'' failing 0 (packs demo_listed) = Some (packs w')"
proof -
  have "0 < sint (Seconds (scrape_interval demo_env))" "scrape_loop demo_listed \<noteq> Waiting"
    "sint (MaxNodeQueryConcurrency (node_cfg (demo_deployment demo_env))) < 2 ^ 31"
    by (simp_all add: demo_pool demo_listed_fields(3))
  from round_scrapes_every_node [OF demo_starts [OF env_ok_demo(1)] this(1,3) demo_listed_reached [unfolded demo_world_def]
      this(2) demo_listed_fields(1,2), of "\<lambda>_. failing" "\<lambda>_. 0"]
  show ?thesis unfolding demo_fields demo_listed_fields(4) for_each_single by blast
qed

text \<open>C2: a scrape whose node answers with a summary that decodes: the pods missing for too long
  lose their series first, then the series of the listed pods are written in the order of the
  summary, then the polling rate.  In the node's miss counters the listed pods go to zero, and each
  other pod counts one more miss and is forgotten at the tolerance; the other nodes' counters, the
  node set, the endpoints and the lookup table stay as they are.\<close>

theorem scrape_effect:
  assumes "prometheus P" and "packages_ready P n pk" and "range_order ord"
    and "retry (query_policy n) (\<lambda>i. query_operation n nodeName (attempts i)) = Some (Inr content)"
    and "decode content = Inr data"
  shows "\<exists>pk'. setMetrics P S retry ord decode n cr mill nodeName attempts elapsed pk = Some pk' \<and>
    packages_ready P n pk' \<and>
    node_set (nodes pk') = node_set (nodes pk) \<and> KubeletEndpoint (nodes pk') = KubeletEndpoint (nodes pk) \<and>
    lookup (pods pk') = lookup (pods pk) \<and>
    (\<forall>m. m \<noteq> nodeName \<longrightarrow> nodeTrackers (pods pk') m = nodeTrackers (pods pk) m) \<and>
    (\<forall>p. node_seen (pods pk') nodeName p =
      (if p \<in> ps_Name ` set (sm_Pods data) then Some 0
       else case node_seen (pods pk) nodeName p of
         None \<Rightarrow> None
       | Some misses \<Rightarrow>
           if sint (scrapeMissTolerance (pods pk)) \<le> sint misses + 1 then None else Some (misses + 1))) \<and>
    (\<forall>k ls. exported P pk' k ls =
      (case last_write (summary_writes n cr (lookup (pods pk)) nodeName (sm_Pods data) @
            polling_writes n nodeName mill elapsed) k ls of
         Some x \<Rightarrow> Some x
       | None \<Rightarrow>
           if stale_series (stale_pods (scrapeMissTolerance (pods pk)) (map ps_Name (sm_Pods data))
                (node_seen (pods pk) nodeName)) k ls
           then None else exported P pk k ls))"
proof -
  let ?tol = "scrapeMissTolerance (pods pk)"
  have seen: "seen_ok ?tol (node_seen (pods pk) nodeName)"
    using assms(2) by (simp add: packages_ready_def trackers_ok_def)
  have reach: "word_sle ?tol (misses + 1) \<longleftrightarrow> sint ?tol \<le> sint misses + 1"
    if "node_seen (pods pk) nodeName p = Some misses" for p misses
    using seen_ok_below_tolerance [OF seen that] by (simp add: word_sle_eq)
  have "query_answer retry n nodeName attempts = Some (Inr content)" using assms(4) by (simp add: query_answer_def)
  from prometheus.setMetrics_scraped [where decode = decode, OF assms(1-3) this assms(5), of S cr mill elapsed]
  obtain pk' where pk': "setMetrics P S retry ord decode n cr mill nodeName attempts elapsed pk = Some pk'"
      "packages_ready P n pk'" "surroundings pk' = surroundings pk"
      "nodeTrackers (pods pk') = (nodeTrackers (pods pk))(nodeName \<mapsto>
        stale_seen (scrapeMissTolerance (pods pk)) (listed_pods data) (node_seen (pods pk) nodeName))"
      "exported P pk' = after_writes
        (summary_writes n cr (lookup (pods pk)) nodeName (sm_Pods data) @ polling_writes n nodeName mill elapsed)
        (dropped (stale_series (node_stale pk nodeName data)) (exported P pk))"
    by (elim exE conjE) (rule that)
  have counters: "node_seen (pods pk') nodeName p =
      (if p \<in> ps_Name ` set (sm_Pods data) then Some 0
       else case node_seen (pods pk) nodeName p of
         None \<Rightarrow> None
       | Some misses \<Rightarrow> if sint ?tol \<le> sint misses + 1 then None else Some (misses + 1))" for p
    using reach [of p] pk'(4)
    by (auto simp: node_seen_def stale_seen_def listed_pods_def split: option.splits)
  show ?thesis
    using pk'(1-4) counters by (intro exI [of _ pk'] conjI allI)
      (simp_all only: pk'(5) after_writes_def dropped_def node_stale_def listed_pods_def, simp_all)
qed

lemma scrape_effect_witness:
  "\<exists>pk'. setMetrics mem_prom list_set (retry_upto 2) sorted_keys demo_decoder
      (node_config daemon_env (scrape_interval daemon_env)) (collector_config daemon_env (scrape_interval daemon_env))
      15000 ''node-a'' (answering ''summary'') 0 (pkgs (snd (booted daemon_env))) = Some pk' \<and>
    node_set (nodes pk') = [''node-a''] \<and> node_seen (pods pk') ''node-a'' ''web'' = Some 0"
proof -
  let ?n = "node_config daemon_env (scrape_interval daemon_env)"
  have "retry_upto 2 (query_policy ?n) (\<lambda>i. query_operation ?n ''node-a'' (answering ''summary'' i)) = Some (Inr ''summary'')"
    using demo_query [of ?n "''node-a''" "''summary''"] by (simp add: query_answer_def node_config_def daemon_env_def)
  moreover have "demo_decoder ''summary'' = Inr demo_summary" by (simp add: demo_decoder_def)
  ultimately show ?thesis
    using scrape_effect [where decode = demo_decoder, OF mem_prom_prometheus booted_boot(3) [OF env_ok_demo(2)]
        range_order_sorted_keys, of "retry_upto 2" "''node-a''" "answering ''summary''" "''summary''" demo_summary
        list_set "collector_config daemon_env (scrape_interval daemon_env)" 15000 0]
      booted_boot(5) [OF env_ok_demo(2)]
    by (auto simp: DeployAsDaemonSet_def CurrentNodeName_def daemon_env_def demo_summary_def demo_pod_def)
qed



lemma summary_writes_skip:
  "list_all no_metrics ps \<Longrightarrow> summary_writes n cr table m ps = []"
  by (induction ps) (simp_all add: summary_writes_def summary_pod_writes_def)

text \<open>Every pod of a summary overwrites the node's figures: after a summary the node gauges
  show the figures of the last pod that has metrics, and pods without metrics or without a namespace
  are skipped.\<close>

theorem last_pod_sets_node_figures:
  assumes "prometheus P" and "packages_ready P n pk" and "range_order ord"
    and "sm_Pods data = before @ p # after" and "\<not> no_metrics p" and "list_all no_metrics after"
    and "nodeAvailable n" and "nodeCapacity n"
  shows "\<exists>pk'. apply_summary P ord n cr nodeName data pk = Some pk' \<and>
    exported P pk' (NodeVec nodeAvailableGaugeVec) [''node_name'' \<mapsto> nodeName] =
      Some (fig_availableBytes (ps_EphemeralStorage p)) \<and>
    exported P pk' (NodeVec nodeCapacityGaugeVec) [''node_name'' \<mapsto> nodeName] =
      Some (fig_capacityBytes (ps_EphemeralStorage p))"
proof -
  obtain pk' where pk': "apply_summary P ord n cr nodeName data pk = Some pk'"
      "exported P pk' = after_writes (summary_writes n cr (lookup (pods pk)) nodeName (sm_Pods data))
        (dropped (stale_series (node_stale pk nodeName data)) (exported P pk))"
    using prometheus.apply_summary_ok [OF assms(1-3), of cr nodeName data] by blast
  have "summary_writes n cr (lookup (pods pk)) nodeName (sm_Pods data) =
      summary_writes n cr (lookup (pods pk)) nodeName before @
      summary_pod_writes n cr (lookup (pods pk)) nodeName p"
    using summary_writes_skip [OF assms(6)] by (simp add: assms(4) summary_writes_def)
  then show ?thesis
    using pk' assms(5,7,8)
    by (intro exI [of _ pk']) (simp add: after_writes_def last_write_append summary_pod_writes_def
        node_writes_def Let_def)
qed

lemma last_pod_sets_node_figures_witness:
  "\<exists>pk'. apply_summary mem_prom sorted_keys
      ((node_config demo_env (scrape_interval demo_env))\<lparr>nodeCapacity := True\<rparr>)
      (collector_config demo_env 15) ''node-a'' demo_summary (pkgs (snd (booted demo_env))) = Some pk' \<and>
    exported mem_prom pk' (NodeVec nodeAvailableGaugeVec) [''node_name'' \<mapsto> ''node-a''] = Some (Fin 8192)"
proof -
  let ?n = "(node_config demo_env (scrape_interval demo_env))\<lparr>nodeCapacity := True\<rparr>"
  have ready: "packages_ready mem_prom ?n (pkgs (snd (booted demo_env)))"
    using booted_boot(3) [OF env_ok_demo(1)] by (simp add: packages_ready_def node_initialised_def node_vecs_def)
  have "nodeAvailable ?n" by (simp add: node_config_def env_bool_def demo_env_def parse_bool_def ParseBool_def)
  then show ?thesis
    using last_pod_sets_node_figures [OF mem_prom_prometheus ready range_order_sorted_keys,
        of demo_summary "[]" demo_pod "[]" "collector_config demo_env 15" "''node-a''"]
    by (auto simp: demo_summary_def demo_pod_def no_metrics_def f64_eq_def)
qed

end
